(* ===== verification/Prelude.thy ===== *)
theory Prelude
  imports Main "HOL-Library.Word"
begin

text \<open>
  The shared vocabulary of the development: the machine types of the C sources, byte strings
  and their little-endian words, memories addressed by \<^typ>\<open>nat\<close>, and the collections of
  simplification rules the component theories feed and use.

  Conventions. A C buffer together with its length argument is a \<^typ>\<open>8 word list\<close> of exactly
  that length; \<open>size_t\<close> values are \<^typ>\<open>nat\<close> (no buffer of this code comes near \<open>2 ^ 32\<close> bytes);
  \<open>uint8_t\<close>, \<open>uint16_t\<close>, \<open>uint32_t\<close> and \<open>uint64_t\<close> are words of that width. The register
  mirror, which is updated in place at computed addresses, is a function from addresses to bytes.
\<close>

unbundle bit_operations_syntax

type_synonym byte = "8 word"
type_synonym u16 = "16 word"
type_synonym u32 = "32 word"
type_synonym u64 = "64 word"
type_synonym bytes = "byte list"
type_synonym mem = "nat \<Rightarrow> byte"

named_theorems le_simps "little-endian encodings"
named_theorems len_simps "lengths of encoded byte strings"
named_theorems mem_simps "reads of an updated memory"

section \<open>Little-endian words\<close>

definition le16 :: "u16 \<Rightarrow> bytes" where
  "le16 v = [ucast (v AND 0xFF), ucast (drop_bit 8 v AND 0xFF)]"

definition of_le16 :: "byte \<Rightarrow> byte \<Rightarrow> u16" where
  "of_le16 b0 b1 = ucast b0 OR push_bit 8 (ucast b1)"

definition le32 :: "u32 \<Rightarrow> bytes" where
  "le32 v = [ucast (v AND 0xFF), ucast (drop_bit 8 v AND 0xFF),
             ucast (drop_bit 16 v AND 0xFF), ucast (drop_bit 24 v AND 0xFF)]"

definition of_le32 :: "byte \<Rightarrow> byte \<Rightarrow> byte \<Rightarrow> byte \<Rightarrow> u32" where
  "of_le32 b0 b1 b2 b3 =
     ucast b0 OR push_bit 8 (ucast b1) OR push_bit 16 (ucast b2) OR push_bit 24 (ucast b3)"

lemma length_le16 [len_simps, simp]: "length (le16 v) = 2"
  by (simp add: le16_def)

lemma length_le32 [len_simps, simp]: "length (le32 v) = 4"
  by (simp add: le32_def)

lemma and_FF_take_bit: "(v :: 'a::len word) AND 0xFF = take_bit 8 v"
  by (simp add: take_bit_eq_mask mask_eq_exp_minus_1)

lemma not_bit_byte [simp]: "8 \<le> n \<Longrightarrow> \<not> bit (b :: byte) n"
  using bit_imp_le_length [of b n] by auto

lemma of_le16_bytes [le_simps]:
  "of_le16 (ucast (v AND 0xFF)) (ucast (drop_bit 8 v AND 0xFF)) = v"
  by (rule bit_word_eqI) (auto simp: of_le16_def and_FF_take_bit bit_simps)

lemma of_le16_le16 [le_simps, simp]: "of_le16 (le16 v ! 0) (le16 v ! 1) = v"
  by (simp add: le16_def of_le16_bytes)

lemma le16_of_le16 [le_simps]: "le16 (of_le16 b0 b1) = [b0, b1]"
proof -
  have "ucast (of_le16 b0 b1 AND 0xFF) = b0"
    by (rule bit_word_eqI) (auto simp: of_le16_def and_FF_take_bit bit_simps)
  moreover have "ucast (drop_bit 8 (of_le16 b0 b1) AND 0xFF) = b1"
    by (rule bit_word_eqI) (auto simp: of_le16_def and_FF_take_bit bit_simps)
  ultimately show ?thesis by (simp add: le16_def)
qed

lemma of_le32_bytes [le_simps]:
  "of_le32 (ucast (v AND 0xFF)) (ucast (drop_bit 8 v AND 0xFF))
     (ucast (drop_bit 16 v AND 0xFF)) (ucast (drop_bit 24 v AND 0xFF)) = v"
proof (rule bit_word_eqI)
  fix n assume "n < LENGTH(32)"
  then consider "n < 8" | "8 \<le> n" "n < 16" | "16 \<le> n" "n < 24" | "24 \<le> n" "n < 32"
    by fastforce
  then show "bit (of_le32 (ucast (v AND 0xFF)) (ucast (drop_bit 8 v AND 0xFF))
     (ucast (drop_bit 16 v AND 0xFF)) (ucast (drop_bit 24 v AND 0xFF))) n = bit v n"
    by cases (auto simp: of_le32_def and_FF_take_bit bit_simps)
qed

lemma of_le32_le32 [le_simps, simp]:
  "of_le32 (le32 v ! 0) (le32 v ! 1) (le32 v ! 2) (le32 v ! 3) = v"
  by (simp add: le32_def of_le32_bytes numeral_2_eq_2 numeral_3_eq_3)

lemma le32_of_le32 [le_simps]: "le32 (of_le32 b0 b1 b2 b3) = [b0, b1, b2, b3]"
proof -
  have "ucast (of_le32 b0 b1 b2 b3 AND 0xFF) = b0"
    by (rule bit_word_eqI) (auto simp: of_le32_def and_FF_take_bit bit_simps)
  moreover have "ucast (drop_bit 8 (of_le32 b0 b1 b2 b3) AND 0xFF) = b1"
    by (rule bit_word_eqI) (auto simp: of_le32_def and_FF_take_bit bit_simps)
  moreover have "ucast (drop_bit 16 (of_le32 b0 b1 b2 b3) AND 0xFF) = b2"
    by (rule bit_word_eqI) (auto simp: of_le32_def and_FF_take_bit bit_simps)
  moreover have "ucast (drop_bit 24 (of_le32 b0 b1 b2 b3) AND 0xFF) = b3"
    by (rule bit_word_eqI) (auto simp: of_le32_def and_FF_take_bit bit_simps)
  ultimately show ?thesis by (simp add: le32_def)
qed

lemma unat_u16_less: "unat (w :: u16) < 65536"
proof -
  have "unat w < 2 ^ LENGTH(16)" by (rule unsigned_less)
  then show ?thesis by simp
qed

section \<open>Error numbers\<close>

text \<open>The negative \<open>errno\<close> results of the drivers and the controller; \<open>0\<close> is the right summand. The plain
  \<open>-1\<close> of the slave layer is numerically \<open>-EPERM\<close>.\<close>

datatype errno = EPERM | EINVAL | EIO | ETIMEDOUT | ENODEV | ENOTSUP

section \<open>Slices of a byte string\<close>

definition slice :: "nat \<Rightarrow> nat \<Rightarrow> 'a list \<Rightarrow> 'a list" where
  "slice a n xs = take n (drop a xs)"

lemma length_slice [len_simps]: "a + n \<le> length xs \<Longrightarrow> length (slice a n xs) = n"
  by (simp add: slice_def)

lemma nth_slice: "i < n \<Longrightarrow> a + i < length xs \<Longrightarrow> slice a n xs ! i = xs ! (a + i)"
  by (simp add: slice_def)

lemma slice_append_middle: "length xs = a \<Longrightarrow> length ys = n \<Longrightarrow> slice a n (xs @ ys @ zs) = ys"
  by (simp add: slice_def)

section \<open>Byte-addressed memories\<close>

text \<open>
  \<open>memcpy\<close> out of and into an array that is addressed by offset. The bounds are the caller's:
  each C routine that copies checks them first, and the model keeps those checks.
\<close>

definition mem_read :: "mem \<Rightarrow> nat \<Rightarrow> nat \<Rightarrow> bytes" where
  "mem_read m a n = map m [a ..< a + n]"

fun mem_write :: "mem \<Rightarrow> nat \<Rightarrow> bytes \<Rightarrow> mem" where
  "mem_write m a [] = m"
| "mem_write m a (b # bs) = mem_write (m(a := b)) (Suc a) bs"

lemma length_mem_read [len_simps, simp]: "length (mem_read m a n) = n"
  by (simp add: mem_read_def)

lemma nth_mem_read: "i < n \<Longrightarrow> mem_read m a n ! i = m (a + i)"
  by (simp add: mem_read_def)

lemma mem_write_apply:
  "mem_write m a bs i = (if a \<le> i \<and> i < a + length bs then bs ! (i - a) else m i)"
proof (induction bs arbitrary: m a)
  case Nil
  show ?case by auto
next
  case (Cons b bs)
  show ?case
    by (auto simp: Cons.IH nth_Cons' simp flip: Suc_diff_Suc)
qed

lemma mem_write_same [mem_simps]: "mem_read (mem_write m a bs) a (length bs) = bs"
  by (rule nth_equalityI) (simp_all add: nth_mem_read mem_write_apply)

lemma mem_write_outside [mem_simps]: "i < a \<or> a + length bs \<le> i \<Longrightarrow> mem_write m a bs i = m i"
  by (auto simp: mem_write_apply)

lemma mem_write_disjoint [mem_simps]:
  "a + n \<le> b \<or> b + length bs \<le> a \<Longrightarrow> mem_read (mem_write m b bs) a n = mem_read m a n"
  by (auto simp: mem_read_def mem_write_apply)

lemma mem_write_append: "mem_write m a (xs @ ys) = mem_write (mem_write m a xs) (a + length xs) ys"
  by (induction xs arbitrary: m a) simp_all

lemma mem_write_mem_read: "mem_write m a (mem_read m a n) = m"
proof (rule ext)
  fix i
  show "mem_write m a (mem_read m a n) i = m i"
    by (cases "a \<le> i \<and> i < a + n") (auto simp: mem_write_apply nth_mem_read)
qed

lemma mem_read_cong: "(\<And>i. a \<le> i \<Longrightarrow> i < a + n \<Longrightarrow> m i = m' i) \<Longrightarrow> mem_read m a n = mem_read m' a n"
  by (simp add: mem_read_def)

lemma mem_read_0 [simp]: "mem_read m a 0 = []"
  by (simp add: mem_read_def)

lemma mem_read_Suc: "mem_read m a (Suc n) = m a # mem_read m (Suc a) n"
  by (simp add: mem_read_def upt_conv_Cons del: upt_Suc)

lemma mem_read_numeral: "mem_read m a (numeral n) = m a # mem_read m (Suc a) (pred_numeral n)"
  by (simp add: numeral_eq_Suc mem_read_Suc)

end
