(* ===== verification/Lan9252.thy ===== *)
theory Lan9252
  imports Prelude
begin

text \<open>
  The LAN9252 SPI driver: \<open>controllers/lan9252/src/lan9252.c\<close>, with the register map of
  \<open>lan9252_regs.h\<close> and the stubs of \<open>lan9252_hal_weak.c\<close>.

  The SPI hardware behind \<open>lan9252_hal.h\<close> is a parameter: a record of the four calls the driver
  makes, over an arbitrary device state. A call's C result is an \<^typ>\<open>int\<close>, zero for success. A driver
  operation takes the hardware and the device state and returns an error number or a result, and
  the device state it leaves. \<open>memcpy\<close> between a buffer and a \<open>uint32_t\<close> is little-endian, the byte
  order of the hosts this driver is built for.
\<close>

abbreviation LAN9252_BUSY_MAX :: nat where "LAN9252_BUSY_MAX \<equiv> 100000"
abbreviation LAN9252_SPI_SERIAL_WRITE :: byte where "LAN9252_SPI_SERIAL_WRITE \<equiv> 0x02"
abbreviation LAN9252_SPI_FAST_READ :: byte where "LAN9252_SPI_FAST_READ \<equiv> 0x0B"
abbreviation LAN9252_SPI_FAST_READ_DUMMY_BYTES :: byte where
  "LAN9252_SPI_FAST_READ_DUMMY_BYTES \<equiv> 1"
abbreviation LAN9252_CSR_PRAM_RD_FIFO :: u16 where "LAN9252_CSR_PRAM_RD_FIFO \<equiv> 0x0000"
abbreviation LAN9252_CSR_PRAM_WR_FIFO :: u16 where "LAN9252_CSR_PRAM_WR_FIFO \<equiv> 0x0020"
abbreviation LAN9252_CSR_ESC_CSR_DATA :: u16 where "LAN9252_CSR_ESC_CSR_DATA \<equiv> 0x0300"
abbreviation LAN9252_CSR_ESC_CSR_CMD :: u16 where "LAN9252_CSR_ESC_CSR_CMD \<equiv> 0x0304"
abbreviation LAN9252_CSR_PRAM_RD_ADDR_LEN :: u16 where "LAN9252_CSR_PRAM_RD_ADDR_LEN \<equiv> 0x0308"
abbreviation LAN9252_CSR_PRAM_RD_CMD :: u16 where "LAN9252_CSR_PRAM_RD_CMD \<equiv> 0x030C"
abbreviation LAN9252_CSR_PRAM_WR_ADDR_LEN :: u16 where "LAN9252_CSR_PRAM_WR_ADDR_LEN \<equiv> 0x0310"
abbreviation LAN9252_CSR_PRAM_WR_CMD :: u16 where "LAN9252_CSR_PRAM_WR_CMD \<equiv> 0x0314"
abbreviation LAN9252_CSR_RESET_CTRL :: u16 where "LAN9252_CSR_RESET_CTRL \<equiv> 0x01F8"
abbreviation LAN9252_ESC_CSR_CMD_BUSY :: u32 where "LAN9252_ESC_CSR_CMD_BUSY \<equiv> 0x80000000"
abbreviation LAN9252_ESC_CSR_CMD_READ :: u32 where "LAN9252_ESC_CSR_CMD_READ \<equiv> 0xC0000000"
abbreviation LAN9252_ESC_CSR_CMD_WRITE :: u32 where "LAN9252_ESC_CSR_CMD_WRITE \<equiv> 0x80000000"
abbreviation LAN9252_PRAM_CMD_BUSY :: u32 where "LAN9252_PRAM_CMD_BUSY \<equiv> 0x80000000"
abbreviation LAN9252_PRAM_CMD_ABORT :: u32 where "LAN9252_PRAM_CMD_ABORT \<equiv> 0x40000000"
abbreviation LAN9252_PRAM_CMD_AVAIL :: u32 where "LAN9252_PRAM_CMD_AVAIL \<equiv> 0x00000001"
abbreviation LAN9252_RESET_CTRL_RST :: u32 where "LAN9252_RESET_CTRL_RST \<equiv> 0x00000040"
abbreviation LAN9252_PDRAM_BASE :: u16 where "LAN9252_PDRAM_BASE \<equiv> 0x1000"

section \<open>The SPI hardware\<close>

record 'h spi_hal =
  hal_select :: "'h \<Rightarrow> int \<times> 'h"
  hal_deselect :: "'h \<Rightarrow> 'h"
  hal_write :: "bytes \<Rightarrow> 'h \<Rightarrow> int \<times> 'h"
  hal_read :: "nat \<Rightarrow> 'h \<Rightarrow> int \<times> bytes \<times> 'h"

type_synonym ('a, 'h) outcome = "(errno + 'a) \<times> 'h"

text \<open>\<open>if (r != 0) return -e;\<close> followed by the rest of the function.\<close>

definition or_return :: "errno \<Rightarrow> ('a, 'h) outcome \<Rightarrow> ('a \<Rightarrow> 'h \<Rightarrow> ('b, 'h) outcome) \<Rightarrow> ('b, 'h) outcome" where
  "or_return e r k = (case r of (Inl _, h) \<Rightarrow> (Inl e, h) | (Inr x, h) \<Rightarrow> k x h)"

section \<open>Register transactions\<close>

definition reg32_read :: "'h spi_hal \<Rightarrow> u16 \<Rightarrow> 'h \<Rightarrow> (u32, 'h) outcome" where
  "reg32_read hal addr h =
     (let tx = [LAN9252_SPI_FAST_READ, ucast (drop_bit 8 addr AND 0xFF), ucast (addr AND 0xFF),
                LAN9252_SPI_FAST_READ_DUMMY_BYTES];
          (r, h1) = hal_select hal h in
      if r \<noteq> 0 then (Inl EIO, h1)
      else
        let (r, h2) = hal_write hal tx h1 in
        if r \<noteq> 0 then (Inl EIO, hal_deselect hal h2)
        else
          let (r, rx, h3) = hal_read hal 4 h2 in
          if r \<noteq> 0 then (Inl EIO, hal_deselect hal h3)
          else (Inr (of_le32 (rx ! 0) (rx ! 1) (rx ! 2) (rx ! 3)), hal_deselect hal h3))"

definition reg32_write :: "'h spi_hal \<Rightarrow> u16 \<Rightarrow> u32 \<Rightarrow> 'h \<Rightarrow> (unit, 'h) outcome" where
  "reg32_write hal addr val h =
     (let tx = [LAN9252_SPI_SERIAL_WRITE, ucast (drop_bit 8 addr AND 0xFF), ucast (addr AND 0xFF)]
               @ le32 val;
          (r, h1) = hal_select hal h in
      if r \<noteq> 0 then (Inl EIO, h1)
      else
        let (r, h2) = hal_write hal tx h1 in
        if r \<noteq> 0 then (Inl EIO, hal_deselect hal h2)
        else (Inr (), hal_deselect hal h2))"

text \<open>The polling loop that the five wait functions share: at most \<open>n\<close> more reads of the register.\<close>

fun poll_reg :: "'h spi_hal \<Rightarrow> u16 \<Rightarrow> (u32 \<Rightarrow> bool) \<Rightarrow> nat \<Rightarrow> 'h \<Rightarrow> (unit, 'h) outcome" where
  "poll_reg hal addr done 0 h = (Inl ETIMEDOUT, h)"
| "poll_reg hal addr done (Suc n) h =
     (case reg32_read hal addr h of
        (Inl _, h') \<Rightarrow> (Inl EIO, h')
      | (Inr v, h') \<Rightarrow> if done v then (Inr (), h') else poll_reg hal addr done n h')"

definition csr_cmd_wait_not_busy :: "'h spi_hal \<Rightarrow> 'h \<Rightarrow> (unit, 'h) outcome" where
  "csr_cmd_wait_not_busy hal =
     poll_reg hal LAN9252_CSR_ESC_CSR_CMD (\<lambda>v. v AND LAN9252_ESC_CSR_CMD_BUSY = 0) LAN9252_BUSY_MAX"

definition pram_rd_wait_avail :: "'h spi_hal \<Rightarrow> 'h \<Rightarrow> (unit, 'h) outcome" where
  "pram_rd_wait_avail hal =
     poll_reg hal LAN9252_CSR_PRAM_RD_CMD (\<lambda>v. v AND LAN9252_PRAM_CMD_AVAIL \<noteq> 0) LAN9252_BUSY_MAX"

definition pram_wr_wait_avail :: "'h spi_hal \<Rightarrow> 'h \<Rightarrow> (unit, 'h) outcome" where
  "pram_wr_wait_avail hal =
     poll_reg hal LAN9252_CSR_PRAM_WR_CMD (\<lambda>v. v AND LAN9252_PRAM_CMD_AVAIL \<noteq> 0) LAN9252_BUSY_MAX"

definition pram_wait_rd_not_busy :: "'h spi_hal \<Rightarrow> 'h \<Rightarrow> (unit, 'h) outcome" where
  "pram_wait_rd_not_busy hal =
     poll_reg hal LAN9252_CSR_PRAM_RD_CMD (\<lambda>v. v AND LAN9252_PRAM_CMD_BUSY = 0) LAN9252_BUSY_MAX"

definition pram_wait_wr_not_busy :: "'h spi_hal \<Rightarrow> 'h \<Rightarrow> (unit, 'h) outcome" where
  "pram_wait_wr_not_busy hal =
     poll_reg hal LAN9252_CSR_PRAM_WR_CMD (\<lambda>v. v AND LAN9252_PRAM_CMD_BUSY = 0) LAN9252_BUSY_MAX"

definition lan9252_soft_reset :: "'h spi_hal \<Rightarrow> 'h \<Rightarrow> (unit, 'h) outcome" where
  "lan9252_soft_reset hal h =
     or_return EIO (reg32_write hal LAN9252_CSR_RESET_CTRL LAN9252_RESET_CTRL_RST h) (\<lambda>_.
       poll_reg hal LAN9252_CSR_RESET_CTRL (\<lambda>r. r AND LAN9252_RESET_CTRL_RST = 0) LAN9252_BUSY_MAX)"

definition lan9252_init :: "'h \<Rightarrow> (unit, 'h) outcome" where
  "lan9252_init h = (Inr (), h)"

definition lan9252_read_csr_u32 :: "'h spi_hal \<Rightarrow> u16 \<Rightarrow> 'h \<Rightarrow> (u32, 'h) outcome" where
  "lan9252_read_csr_u32 hal csr_addr = reg32_read hal csr_addr"

definition lan9252_write_csr_u32 :: "'h spi_hal \<Rightarrow> u16 \<Rightarrow> u32 \<Rightarrow> 'h \<Rightarrow> (unit, 'h) outcome" where
  "lan9252_write_csr_u32 hal csr_addr val = reg32_write hal csr_addr val"

section \<open>ESC registers\<close>

definition word_of_bytes :: "bytes \<Rightarrow> u32" where
  "word_of_bytes bs =
     (let p = bs @ replicate 4 0 in of_le32 (p ! 0) (p ! 1) (p ! 2) (p ! 3))"

definition esc_csr_cmd :: "u32 \<Rightarrow> u16 \<Rightarrow> u16 \<Rightarrow> u32" where
  "esc_csr_cmd dir len address = dir OR push_bit 16 (ucast len) OR ucast address"

definition esc_read_csr_u16 :: "'h spi_hal \<Rightarrow> u16 \<Rightarrow> u16 \<Rightarrow> 'h \<Rightarrow> (bytes, 'h) outcome" where
  "esc_read_csr_u16 hal address len h =
     or_return EIO (reg32_write hal LAN9252_CSR_ESC_CSR_CMD
                      (esc_csr_cmd LAN9252_ESC_CSR_CMD_READ len address) h) (\<lambda>_ h.
     or_return ETIMEDOUT (csr_cmd_wait_not_busy hal h) (\<lambda>_ h.
     or_return EIO (reg32_read hal LAN9252_CSR_ESC_CSR_DATA h) (\<lambda>data h.
       (Inr (take (unat len) (le32 data)), h))))"

definition esc_write_csr_u16 :: "'h spi_hal \<Rightarrow> u16 \<Rightarrow> bytes \<Rightarrow> u16 \<Rightarrow> 'h \<Rightarrow> (unit, 'h) outcome" where
  "esc_write_csr_u16 hal address buf len h =
     or_return EIO (reg32_write hal LAN9252_CSR_ESC_CSR_DATA (word_of_bytes (take (unat len) buf)) h) (\<lambda>_ h.
     or_return EIO (reg32_write hal LAN9252_CSR_ESC_CSR_CMD
                      (esc_csr_cmd LAN9252_ESC_CSR_CMD_WRITE len address) h) (\<lambda>_ h.
     or_return ETIMEDOUT (csr_cmd_wait_not_busy hal h) (\<lambda>_ h. (Inr (), h))))"

definition esc_next_chunk_size :: "u16 \<Rightarrow> u16 \<Rightarrow> u16" where
  "esc_next_chunk_size address len =
     (let size = (if len > 4 then 4 else len) in
      if address AND 1 \<noteq> 0 then 1
      else if address AND 2 \<noteq> 0 then (if size AND 1 \<noteq> 0 then 1 else 2)
      else if size = 3 then 1
      else size)"

lemma size_upto4: "(s :: u16) \<le> 4 \<Longrightarrow> s = 0 \<or> s = 1 \<or> s = 2 \<or> s = 3 \<or> s = 4"
proof -
  assume "s \<le> 4"
  then have "unat s \<le> 4" by (simp add: word_le_nat_alt)
  then have "unat s = 0 \<or> unat s = 1 \<or> unat s = 2 \<or> unat s = 3 \<or> unat s = 4" by linarith
  then show ?thesis by (auto simp: word_unat_eq_iff)
qed

lemma chunk_bounds:
  assumes "len \<noteq> 0"
  shows "esc_next_chunk_size a len \<noteq> 0" "esc_next_chunk_size a len \<le> len"
    "esc_next_chunk_size a len \<in> {1, 2, 4}"
proof -
  have ge1: "1 \<le> len" using assms by (simp add: word_le_nat_alt unat_gt_0 Suc_le_eq)
  have sz: "(if len > 4 then 4 else len) \<in> {1, 2, 3, 4}" (is "?s \<in> _")
    using assms size_upto4 [of ?s] by (auto split: if_splits)
  have le: "?s \<le> len" by auto
  then have 2: "?s = 2 \<or> ?s = 4 \<Longrightarrow> 2 \<le> len"
    by (auto intro: order_trans [of 2 4 len])
  show "esc_next_chunk_size a len \<noteq> 0" "esc_next_chunk_size a len \<le> len"
    "esc_next_chunk_size a len \<in> {1, 2, 4}"
    using sz le ge1 2 unfolding esc_next_chunk_size_def Let_def
    by (auto split: if_splits)
qed

lemma chunk_shrinks: "len \<noteq> 0 \<Longrightarrow> unat (len - esc_next_chunk_size a len) < unat len"
  using chunk_bounds [of len a] by (simp add: unat_sub word_le_nat_alt unat_gt_0)

function esc_read_loop :: "'h spi_hal \<Rightarrow> u16 \<Rightarrow> u16 \<Rightarrow> 'h \<Rightarrow> (bytes, 'h) outcome" where
  "esc_read_loop hal ado len h =
     (if len = 0 then (Inr [], h)
      else
        let chunk = esc_next_chunk_size ado len in
        or_return EIO (esc_read_csr_u16 hal ado chunk h) (\<lambda>d h1.
          case esc_read_loop hal (ado + chunk) (len - chunk) h1 of
            (Inl e, h2) \<Rightarrow> (Inl e, h2)
          | (Inr ds, h2) \<Rightarrow> (Inr (d @ ds), h2)))"
  by pat_completeness auto
termination by (relation "measure (\<lambda>(_, _, len, _). unat len)") (simp_all add: chunk_shrinks)

function esc_write_loop :: "'h spi_hal \<Rightarrow> u16 \<Rightarrow> bytes \<Rightarrow> u16 \<Rightarrow> 'h \<Rightarrow> (unit, 'h) outcome" where
  "esc_write_loop hal ado buf len h =
     (if len = 0 then (Inr (), h)
      else
        let chunk = esc_next_chunk_size ado len in
        or_return EIO (esc_write_csr_u16 hal ado buf chunk h) (\<lambda>_ h1.
          esc_write_loop hal (ado + chunk) (drop (unat chunk) buf) (len - chunk) h1))"
  by pat_completeness auto
termination by (relation "measure (\<lambda>(_, _, _, len, _). unat len)") (simp_all add: chunk_shrinks)

declare esc_read_loop.simps [simp del] esc_write_loop.simps [simp del]

section \<open>Process data memory\<close>

text \<open>The FIFO bursts, inside one chip-select period; \<open>fifo_cnt\<close> is counted down and never looked at.\<close>

function pram_read_burst :: "'h spi_hal \<Rightarrow> nat \<Rightarrow> byte \<Rightarrow> bytes \<Rightarrow> 'h \<Rightarrow> (bytes, 'h) outcome" where
  "pram_read_burst hal len fifo_cnt buf h =
     (if len = 0 then (Inr buf, hal_deselect hal h)
      else
        let temp_len = (if len > 4 then 4 else len);
            (r, chunk, h1) = hal_read hal 4 h in
        if r \<noteq> 0 then (Inl EIO, hal_deselect hal h1)
        else pram_read_burst hal (len - temp_len) (if fifo_cnt > 0 then fifo_cnt - 1 else fifo_cnt)
               (buf @ take temp_len chunk) h1)"
  by pat_completeness auto
termination by (relation "measure (\<lambda>(_, len, _). len)") auto

function pram_write_burst :: "'h spi_hal \<Rightarrow> nat \<Rightarrow> byte \<Rightarrow> bytes \<Rightarrow> 'h \<Rightarrow> (unit, 'h) outcome" where
  "pram_write_burst hal len fifo_cnt buf h =
     (if len = 0 then (Inr (), hal_deselect hal h)
      else
        let temp_len = (if len > 4 then 4 else len);
            (r, h1) = hal_write hal (le32 (word_of_bytes (take temp_len buf))) h in
        if r \<noteq> 0 then (Inl EIO, hal_deselect hal h1)
        else pram_write_burst hal (len - temp_len) (if fifo_cnt > 0 then fifo_cnt - 1 else fifo_cnt)
               (drop temp_len buf) h1)"
  by pat_completeness auto
termination by (relation "measure (\<lambda>(_, len, _). len)") auto

declare pram_read_burst.simps [simp del] pram_write_burst.simps [simp del]

definition pram_cmd_cnt :: "u32 \<Rightarrow> byte" where
  "pram_cmd_cnt v = ucast (drop_bit 8 v AND 0x1F)"

definition pram_addr_len :: "u16 \<Rightarrow> u16 \<Rightarrow> u32" where
  "pram_addr_len len address = push_bit 16 (ucast len) OR ucast address"

definition first_len :: "u16 \<Rightarrow> nat \<Rightarrow> nat" where
  "first_len address len =
     (let pos = unat (address AND 3) in if 4 - pos > len then len else 4 - pos)"

definition lan9252_pdram_read :: "'h spi_hal \<Rightarrow> u16 \<Rightarrow> u16 \<Rightarrow> 'h \<Rightarrow> (bytes, 'h) outcome" where
  "lan9252_pdram_read hal address len h =
     (if len = 0 then (Inl EINVAL, h)
      else
        or_return EIO (reg32_write hal LAN9252_CSR_PRAM_RD_CMD LAN9252_PRAM_CMD_ABORT h) (\<lambda>_ h.
        or_return ETIMEDOUT (pram_wait_rd_not_busy hal h) (\<lambda>_ h.
        or_return EIO (reg32_write hal LAN9252_CSR_PRAM_RD_ADDR_LEN (pram_addr_len len address) h) (\<lambda>_ h.
        or_return EIO (reg32_write hal LAN9252_CSR_PRAM_RD_CMD LAN9252_PRAM_CMD_BUSY h) (\<lambda>_ h.
        or_return ETIMEDOUT (pram_rd_wait_avail hal h) (\<lambda>_ h.
        or_return EIO (reg32_read hal LAN9252_CSR_PRAM_RD_CMD h) (\<lambda>c h.
        or_return EIO (reg32_read hal LAN9252_CSR_PRAM_RD_FIFO h) (\<lambda>v h.
          let fifo_cnt = (if pram_cmd_cnt c > 0 then pram_cmd_cnt c - 1 else pram_cmd_cnt c);
              pos = unat (address AND 3);
              temp_len = first_len address (unat len);
              buf = slice pos temp_len (le32 v);
              rest = unat len - temp_len in
          if rest = 0 then (Inr buf, h)
          else
            let hdr = [LAN9252_SPI_FAST_READ, ucast (drop_bit 8 LAN9252_CSR_PRAM_RD_FIFO AND 0xFF),
                       ucast (LAN9252_CSR_PRAM_RD_FIFO AND 0xFF), LAN9252_SPI_FAST_READ_DUMMY_BYTES];
                (r, h1) = hal_select hal h in
            if r \<noteq> 0 then (Inl EIO, h1)
            else
              let (r, h2) = hal_write hal hdr h1 in
              if r \<noteq> 0 then (Inl EIO, hal_deselect hal h2)
              else pram_read_burst hal rest fifo_cnt buf h2))))))))"

definition lan9252_pdram_write :: "'h spi_hal \<Rightarrow> u16 \<Rightarrow> bytes \<Rightarrow> u16 \<Rightarrow> 'h \<Rightarrow> (unit, 'h) outcome" where
  "lan9252_pdram_write hal address buf len h =
     (if len = 0 then (Inl EINVAL, h)
      else
        or_return EIO (reg32_write hal LAN9252_CSR_PRAM_WR_CMD LAN9252_PRAM_CMD_ABORT h) (\<lambda>_ h.
        or_return ETIMEDOUT (pram_wait_wr_not_busy hal h) (\<lambda>_ h.
        or_return EIO (reg32_write hal LAN9252_CSR_PRAM_WR_ADDR_LEN (pram_addr_len len address) h) (\<lambda>_ h.
        or_return EIO (reg32_write hal LAN9252_CSR_PRAM_WR_CMD LAN9252_PRAM_CMD_BUSY h) (\<lambda>_ h.
        or_return ETIMEDOUT (pram_wr_wait_avail hal h) (\<lambda>_ h.
        or_return EIO (reg32_read hal LAN9252_CSR_PRAM_WR_CMD h) (\<lambda>c h.
          let pos = unat (address AND 3);
              temp_len = first_len address (unat len);
              word = word_of_bytes (replicate pos 0 @ take temp_len buf) in
        or_return EIO (reg32_write hal LAN9252_CSR_PRAM_WR_FIFO word h) (\<lambda>_ h.
          let fifo_cnt = (if pram_cmd_cnt c > 0 then pram_cmd_cnt c - 1 else pram_cmd_cnt c);
              rest = unat len - temp_len in
          if rest = 0 then (Inr (), h)
          else
            let hdr = [LAN9252_SPI_SERIAL_WRITE, ucast (drop_bit 8 LAN9252_CSR_PRAM_WR_FIFO AND 0xFF),
                       ucast (LAN9252_CSR_PRAM_WR_FIFO AND 0xFF)];
                (r, h1) = hal_select hal h in
            if r \<noteq> 0 then (Inl EIO, h1)
            else
              let (r, h2) = hal_write hal hdr h1 in
              if r \<noteq> 0 then (Inl EIO, hal_deselect hal h2)
              else pram_write_burst hal rest fifo_cnt (drop temp_len buf) h2))))))))"

section \<open>Register and memory access by address\<close>

definition lan9252_esc_read :: "'h spi_hal \<Rightarrow> u16 \<Rightarrow> u16 \<Rightarrow> 'h \<Rightarrow> (bytes, 'h) outcome" where
  "lan9252_esc_read hal ado len h =
     (if len = 0 then (Inl EINVAL, h)
      else if ado \<ge> LAN9252_PDRAM_BASE then lan9252_pdram_read hal ado len h
      else esc_read_loop hal ado len h)"

definition lan9252_esc_write :: "'h spi_hal \<Rightarrow> u16 \<Rightarrow> bytes \<Rightarrow> u16 \<Rightarrow> 'h \<Rightarrow> (unit, 'h) outcome" where
  "lan9252_esc_write hal ado buf len h =
     (if len = 0 then (Inl EINVAL, h)
      else if ado \<ge> LAN9252_PDRAM_BASE then lan9252_pdram_write hal ado buf len h
      else esc_write_loop hal ado buf len h)"

section \<open>The stubs\<close>

text \<open>\<open>-ENODEV\<close> from every transfer; the device state is never touched.\<close>

definition weak_hal :: "'h spi_hal" where
  "weak_hal =
     \<lparr>hal_select = \<lambda>h. (-19, h), hal_deselect = \<lambda>h. h, hal_write = \<lambda>_ h. (-19, h),
      hal_read = \<lambda>_ h. (-19, [], h)\<rparr>"

end
