(* ===== verification/Lan9252Props.thy ===== *)
theory Lan9252Props
  imports Lan9252
begin

text \<open>
  Properties of the LAN9252 driver: chip select discipline (locale \<open>spi_session\<close>, interpreted on
  any hardware under watch), bounded polling, accesses of any length assembled from aligned ones,
  and the byte streams of the process data transfers. Nothing is assumed of the hardware except
  where a property says so; \<open>chip_hal\<close> is a device on which those assumptions hold.
\<close>

section \<open>Chip select\<close>

locale spi_session =
  fixes hal :: "'h spi_hal"
    and idle :: "'h \<Rightarrow> bool"
    and busy :: "'h \<Rightarrow> bool"
  assumes on_select: "idle h \<Longrightarrow> fst (hal_select hal h) = 0 \<Longrightarrow> busy (snd (hal_select hal h))"
    and on_refuse: "idle h \<Longrightarrow> fst (hal_select hal h) \<noteq> 0 \<Longrightarrow> idle (snd (hal_select hal h))"
    and on_write: "busy h \<Longrightarrow> busy (snd (hal_write hal bs h))"
    and on_read: "busy h \<Longrightarrow> busy (snd (snd (hal_read hal n h)))"
    and on_deselect: "busy h \<Longrightarrow> idle (hal_deselect hal h)"
begin

lemma if_idle: "(c \<Longrightarrow> idle (snd a)) \<Longrightarrow> (\<not> c \<Longrightarrow> idle (snd b)) \<Longrightarrow> idle (snd (if c then a else b))"
  by simp

lemma done_idle: "idle h \<Longrightarrow> idle (snd (r, h))"
  by simp

lemma reg32_read_idle: "idle h \<Longrightarrow> idle (snd (reg32_read hal a h))"
  unfolding reg32_read_def Let_def case_prod_beta
  by (intro if_idle done_idle on_refuse on_deselect on_read on_write on_select) simp_all

lemma reg32_write_idle: "idle h \<Longrightarrow> idle (snd (reg32_write hal a v h))"
  unfolding reg32_write_def Let_def case_prod_beta
  by (intro if_idle done_idle on_refuse on_deselect on_write on_select) simp_all

lemma poll_idle: "idle h \<Longrightarrow> idle (snd (poll_reg hal a d n h))"
proof (induction n arbitrary: h)
  case (Suc n)
  obtain r h1 where r: "reg32_read hal a h = (r, h1)" by (metis surj_pair)
  with reg32_read_idle [OF Suc.prems, of a] have "idle h1" by simp
  with Suc.IH [of h1] show ?case by (cases r) (simp_all add: r)
qed simp

lemma or_return_idle: "idle (snd r) \<Longrightarrow> (\<And>x h. idle h \<Longrightarrow> idle (snd (k x h))) \<Longrightarrow> idle (snd (or_return e r k))"
  by (auto simp: or_return_def split: prod.split sum.split)

lemma esc_read_csr_idle: "idle h \<Longrightarrow> idle (snd (esc_read_csr_u16 hal a n h))"
  unfolding esc_read_csr_u16_def csr_cmd_wait_not_busy_def
  by (intro or_return_idle reg32_write_idle reg32_read_idle poll_idle) simp_all

lemma esc_write_csr_idle: "idle h \<Longrightarrow> idle (snd (esc_write_csr_u16 hal a bs n h))"
  unfolding esc_write_csr_u16_def csr_cmd_wait_not_busy_def
  by (intro or_return_idle reg32_write_idle reg32_read_idle poll_idle) simp_all

lemma esc_read_loop_idle: "idle h \<Longrightarrow> idle (snd (esc_read_loop hal a n h))"
proof (induction "unat n" arbitrary: a n h rule: less_induct)
  case less
  show ?case
  proof (cases "n = 0")
    case True
    with less.prems show ?thesis by (simp add: esc_read_loop.simps)
  next
    case False
    have tail: "idle (snd (case esc_read_loop hal (a + c) (n - esc_next_chunk_size a n) h1 of
        (Inl e, h2) \<Rightarrow> (Inl e, h2) | (Inr ds, h2) \<Rightarrow> (Inr (d @ ds), h2)))" if "idle h1" for c d h1
      using less.hyps [OF chunk_shrinks [OF False, of a] that, of "a + c"]
      by (auto split: sum.split prod.split)
    show ?thesis
      unfolding esc_read_loop.simps [of hal a n] Let_def
      using False less.prems tail by (simp add: or_return_idle esc_read_csr_idle)
  qed
qed

lemma esc_write_loop_idle: "idle h \<Longrightarrow> idle (snd (esc_write_loop hal a bs n h))"
proof (induction "unat n" arbitrary: a bs n h rule: less_induct)
  case less
  show ?case
  proof (cases "n = 0")
    case True
    with less.prems show ?thesis by (simp add: esc_write_loop.simps)
  next
    case False
    show ?thesis
      unfolding esc_write_loop.simps [of hal a bs n] Let_def
      using False less.prems less.hyps [OF chunk_shrinks [OF False]]
      by (auto intro!: or_return_idle esc_write_csr_idle)
  qed
qed

lemma read_burst_idle: "busy h \<Longrightarrow> idle (snd (pram_read_burst hal n f buf h))"
proof (induction n arbitrary: f buf h rule: less_induct)
  case (less n)
  from less.prems show ?case
    by (subst pram_read_burst.simps) (auto simp: Let_def case_prod_beta intro!: less.IH on_read on_deselect)
qed

lemma write_burst_idle: "busy h \<Longrightarrow> idle (snd (pram_write_burst hal n f buf h))"
proof (induction n arbitrary: f buf h rule: less_induct)
  case (less n)
  from less.prems show ?case
    by (subst pram_write_burst.simps) (auto simp: Let_def case_prod_beta intro!: less.IH on_write on_deselect)
qed

lemma pdram_read_idle: "idle h \<Longrightarrow> idle (snd (lan9252_pdram_read hal a n h))"
  unfolding lan9252_pdram_read_def pram_wait_rd_not_busy_def pram_rd_wait_avail_def Let_def case_prod_beta
  by (intro if_idle or_return_idle reg32_write_idle reg32_read_idle poll_idle read_burst_idle
      done_idle on_refuse on_write on_deselect on_select; simp)

lemma pdram_write_idle: "idle h \<Longrightarrow> idle (snd (lan9252_pdram_write hal a bs n h))"
  unfolding lan9252_pdram_write_def pram_wait_wr_not_busy_def pram_wr_wait_avail_def Let_def case_prod_beta
  by (intro if_idle or_return_idle reg32_write_idle reg32_read_idle poll_idle write_burst_idle
      done_idle on_refuse on_write on_deselect on_select; simp)

lemma esc_read_idle: "idle h \<Longrightarrow> idle (snd (lan9252_esc_read hal a n h))"
  by (simp add: lan9252_esc_read_def pdram_read_idle esc_read_loop_idle)

lemma esc_write_idle: "idle h \<Longrightarrow> idle (snd (lan9252_esc_write hal a bs n h))"
  by (simp add: lan9252_esc_write_def pdram_write_idle esc_write_loop_idle)

lemma soft_reset_idle: "idle h \<Longrightarrow> idle (snd (lan9252_soft_reset hal h))"
  unfolding lan9252_soft_reset_def
  by (intro or_return_idle reg32_write_idle poll_idle) simp_all

lemmas all_idle = esc_read_idle esc_write_idle pdram_read_idle pdram_write_idle soft_reset_idle
  reg32_read_idle reg32_write_idle

end

text \<open>
  Any hardware, watched: beside the device state, whether the chip is selected, and whether every
  call so far came in its turn (select while idle, transfers and deselect while selected).
\<close>

definition watch :: "'h spi_hal \<Rightarrow> ('h \<times> bool \<times> bool) spi_hal" where
  "watch hal =
     \<lparr>hal_select = \<lambda>(h, sel, ok). (let (r, h') = hal_select hal h in (r, h', sel \<or> r = 0, ok \<and> \<not> sel)),
      hal_deselect = \<lambda>(h, sel, ok). (hal_deselect hal h, False, ok \<and> sel),
      hal_write = \<lambda>bs (h, sel, ok). (let (r, h') = hal_write hal bs h in (r, h', sel, ok \<and> sel)),
      hal_read = \<lambda>n (h, sel, ok). (let (r, bs, h') = hal_read hal n h in (r, bs, h', sel, ok \<and> sel))\<rparr>"

definition bus_idle :: "'h \<times> bool \<times> bool \<Rightarrow> bool" where
  "bus_idle = (\<lambda>(h, sel, ok). \<not> sel \<and> ok)"

definition bus_selected :: "'h \<times> bool \<times> bool \<Rightarrow> bool" where
  "bus_selected = (\<lambda>(h, sel, ok). sel \<and> ok)"

interpretation watched: spi_session "watch hal" bus_idle bus_selected for hal :: "'h spi_hal"
  by unfold_locales (auto simp: watch_def bus_idle_def bus_selected_def split: prod.split)

text \<open>
  On any SPI hardware, whatever its calls return, every driver operation that starts
  with the chip deselected transfers only while the chip is selected, never selects it twice, and
  leaves it deselected, on success and on every error path.
\<close>

theorem spi_chip_select:
  fixes hal :: "'h spi_hal"
  shows "bus_idle (snd (lan9252_esc_read (watch hal) ado len (h, False, True))) \<and>
    bus_idle (snd (lan9252_esc_write (watch hal) ado bs len (h, False, True))) \<and>
    bus_idle (snd (lan9252_pdram_read (watch hal) ado len (h, False, True))) \<and>
    bus_idle (snd (lan9252_pdram_write (watch hal) ado bs len (h, False, True))) \<and>
    bus_idle (snd (lan9252_soft_reset (watch hal) (h, False, True))) \<and>
    bus_idle (snd (lan9252_read_csr_u32 (watch hal) ado (h, False, True))) \<and>
    bus_idle (snd (lan9252_write_csr_u32 (watch hal) ado val (h, False, True)))"
proof -
  have i: "bus_idle (h, False, True)" by (simp add: bus_idle_def)
  show ?thesis
    using watched.all_idle [OF i] by (simp add: lan9252_read_csr_u32_def lan9252_write_csr_u32_def)
qed

section \<open>Polling ends\<close>

text \<open>\<open>f i\<close> is the device state after \<open>i\<close> reads of the register, \<open>v i\<close> what the read then returns.\<close>

lemma poll_reads:
  assumes "\<forall>i \<le> k. reg32_read hal a (f i) = (Inr (v i), f (Suc i))" "\<forall>i < k. \<not> d (v i)" "d (v k)"
  shows "j \<le> k \<Longrightarrow> poll_reg hal a d n (f j) =
    (if k - j < n then (Inr (), f (Suc k)) else (Inl ETIMEDOUT, f (j + n)))"
proof (induction n arbitrary: j)
  case 0
  then show ?case by simp
next
  case (Suc n)
  show ?case
  proof (cases "j = k")
    case True
    then show ?thesis using assms(1,3) by simp
  next
    case False
    with Suc.prems have jk: "Suc j \<le> k" by simp
    then have "\<not> d (v j)" "reg32_read hal a (f j) = (Inr (v j), f (Suc j))" using assms(1,2) by auto
    then have "poll_reg hal a d (Suc n) (f j) = poll_reg hal a d n (f (Suc j))" by simp
    also have "\<dots> = (if k - Suc j < n then (Inr (), f (Suc k)) else (Inl ETIMEDOUT, f (Suc j + n)))"
      by (rule Suc.IH [OF jk])
    also have "\<dots> = (if k - j < Suc n then (Inr (), f (Suc k)) else (Inl ETIMEDOUT, f (j + Suc n)))"
      using jk by auto
    finally show ?thesis .
  qed
qed

text \<open>
  The wait for the register interface reads the command register until the busy bit
  is clear and no more than 100000 times: it succeeds when one of those reads shows the bit clear,
  and otherwise returns a timeout after exactly that many.
\<close>

theorem wait_not_busy_bounded:
  assumes "\<forall>i \<le> k. reg32_read hal LAN9252_CSR_ESC_CSR_CMD (f i) = (Inr (v i), f (Suc i))"
    and "\<forall>i < k. v i AND LAN9252_ESC_CSR_CMD_BUSY \<noteq> 0" "v k AND LAN9252_ESC_CSR_CMD_BUSY = 0"
  shows "csr_cmd_wait_not_busy hal (f 0) =
    (if k < LAN9252_BUSY_MAX then (Inr (), f (Suc k)) else (Inl ETIMEDOUT, f LAN9252_BUSY_MAX))"
  using poll_reads [of k hal LAN9252_CSR_ESC_CSR_CMD f v "\<lambda>v. v AND LAN9252_ESC_CSR_CMD_BUSY = 0" 0 LAN9252_BUSY_MAX] assms
  by (simp add: csr_cmd_wait_not_busy_def)

section \<open>The stubs\<close>

text \<open>
  With the default hardware stubs every driver operation returns an error, EINVAL for
  a zero length and EIO otherwise, and none reports success.
\<close>

theorem weak_hal_fails:
  "lan9252_esc_read weak_hal ado len h = (Inl (if len = 0 then EINVAL else EIO), h) \<and>
   lan9252_esc_write weak_hal ado bs len h = (Inl (if len = 0 then EINVAL else EIO), h) \<and>
   lan9252_pdram_read weak_hal ado len h = (Inl (if len = 0 then EINVAL else EIO), h) \<and>
   lan9252_pdram_write weak_hal ado bs len h = (Inl (if len = 0 then EINVAL else EIO), h) \<and>
   lan9252_soft_reset weak_hal h = (Inl EIO, h) \<and>
   lan9252_read_csr_u32 weak_hal ado h = (Inl EIO, h) \<and>
   lan9252_write_csr_u32 weak_hal ado val h = (Inl EIO, h)"
proof -
  have r: "reg32_read weak_hal a h = (Inl EIO, h)" and w: "reg32_write weak_hal a x h = (Inl EIO, h)" for a x
    by (simp_all add: reg32_read_def reg32_write_def weak_hal_def)
  show ?thesis
    by (simp add: lan9252_esc_read_def lan9252_esc_write_def lan9252_pdram_read_def lan9252_pdram_write_def
        esc_read_loop.simps esc_write_loop.simps esc_read_csr_u16_def esc_write_csr_u16_def
        lan9252_soft_reset_def lan9252_read_csr_u32_def lan9252_write_csr_u32_def or_return_def r w Let_def)
qed

section \<open>Accesses of any length from aligned ones\<close>

text \<open>
  What the datasheet promises of the indirect access: a transfer of 1, 2 or 4 bytes at a multiple
  of its size completes, and reads or writes those bytes of the register space \<open>mem_of\<close>. Only
  such transfers are assumed to work.
\<close>

definition csr_access :: "'h spi_hal \<Rightarrow> ('h \<Rightarrow> mem) \<Rightarrow> ('h \<Rightarrow> bool) \<Rightarrow> bool" where
  "csr_access hal mem_of good \<longleftrightarrow>
     (\<forall>h a n. good h \<and> n \<in> {1, 2, 4} \<and> unat n dvd unat a \<longrightarrow>
        (\<exists>h'. esc_read_csr_u16 hal a n h = (Inr (mem_read (mem_of h) (unat a) (unat n)), h') \<and>
              mem_of h' = mem_of h \<and> good h') \<and>
        (\<forall>bs. unat n \<le> length bs \<longrightarrow>
          (\<exists>h'. esc_write_csr_u16 hal a bs n h = (Inr (), h') \<and>
              mem_of h' = mem_write (mem_of h) (unat a) (take (unat n) bs) \<and> good h')))"

lemma csr_read:
  assumes "csr_access hal mem_of good" "good h" "n \<in> {1, 2, 4}" "unat n dvd unat a"
  obtains h' where "esc_read_csr_u16 hal a n h = (Inr (mem_read (mem_of h) (unat a) (unat n)), h')"
    "mem_of h' = mem_of h" "good h'"
  using assms unfolding csr_access_def by metis

lemma csr_write:
  assumes "csr_access hal mem_of good" "good h" "n \<in> {1, 2, 4}" "unat n dvd unat a" "unat n \<le> length bs"
  obtains h' where "esc_write_csr_u16 hal a bs n h = (Inr (), h')"
    "mem_of h' = mem_write (mem_of h) (unat a) (take (unat n) bs)" "good h'"
  using assms unfolding csr_access_def by metis

lemma bit0_dvd: "(a :: u16) AND 1 = 0 \<longleftrightarrow> 2 dvd unat a"
proof -
  have "a AND 1 = a mod 2" by (simp add: and_one_eq)
  then show ?thesis by (simp add: word_unat_eq_iff unat_mod dvd_eq_mod_eq_0)
qed

lemma bit1_dvd:
  assumes "(a :: u16) AND 1 = 0" "a AND 2 = 0"
  shows "4 dvd unat a"
proof -
  have "a AND 3 = a AND (1 OR 2)" by simp
  also have "\<dots> = (a AND 1) OR (a AND 2)" by (rule bit.conj_disj_distrib)
  finally have "a AND 3 = 0" using assms by simp
  then have "take_bit 2 a = 0" by (simp add: take_bit_eq_mask mask_eq_exp_minus_1)
  then have "take_bit 2 (unat a) = 0" by (metis unsigned_0 unsigned_take_bit_eq)
  then show ?thesis by (simp add: take_bit_eq_mod dvd_eq_mod_eq_0)
qed

lemma chunk_aligned: "len \<noteq> 0 \<Longrightarrow> unat (esc_next_chunk_size a len) dvd unat a"
proof -
  assume len: "len \<noteq> 0"
  show ?thesis
  proof (cases "a AND 1 = 0")
    case False
    then show ?thesis by (simp add: esc_next_chunk_size_def Let_def)
  next
    case even: True
    then have 2: "2 dvd unat a" by (simp add: bit0_dvd)
    show ?thesis
    proof (cases "a AND 2 = 0")
      case False
      with even 2 show ?thesis by (simp add: esc_next_chunk_size_def Let_def)
    next
      case True
      have 4: "4 dvd unat a" by (rule bit1_dvd [OF even True])
      show ?thesis
        using chunk_bounds(3) [OF len, of a] 2 4 by auto
    qed
  qed
qed

lemma chunk_advance:
  assumes "len \<noteq> 0" "unat a + unat len \<le> 65535"
  defines "c \<equiv> esc_next_chunk_size a len"
  shows "unat (a + c) = unat a + unat c" "unat (len - c) = unat len - unat c" "unat c \<le> unat len"
    "0 < unat c"
proof -
  show le: "unat c \<le> unat len" using chunk_bounds(2) [OF assms(1), of a] by (simp add: c_def word_le_nat_alt)
  then show "unat (len - c) = unat len - unat c" by (simp add: unat_sub word_le_nat_alt)
  show "0 < unat c" using chunk_bounds(1) [OF assms(1), of a] by (simp add: c_def unat_gt_0)
  have "unat a + unat c < 2 ^ LENGTH(16)" using le assms(2) by simp
  then show "unat (a + c) = unat a + unat c" by (simp add: unat_word_ariths)
qed

lemma mem_read_split: "k \<le> n \<Longrightarrow> mem_read m a n = mem_read m a k @ mem_read m (a + k) (n - k)"
  using upt_add_eq_append [of a "a + k" "n - k"] by (simp add: mem_read_def)

lemma esc_read_loop_run:
  assumes "csr_access hal mem_of good"
  shows "good h \<Longrightarrow> unat a + unat n \<le> 65535 \<Longrightarrow>
    \<exists>h'. esc_read_loop hal a n h = (Inr (mem_read (mem_of h) (unat a) (unat n)), h') \<and>
         mem_of h' = mem_of h \<and> good h'"
proof (induction "unat n" arbitrary: a n h rule: less_induct)
  case less
  show ?case
  proof (cases "n = 0")
    case True
    with less.prems show ?thesis by (simp add: esc_read_loop.simps)
  next
    case False
    define c where "c = esc_next_chunk_size a n"
    note adv = chunk_advance [OF False less.prems(2), folded c_def]
    have c: "c \<in> {1, 2, 4}" "unat c dvd unat a"
      using chunk_bounds(3) [OF False, of a] chunk_aligned [OF False, of a] by (auto simp: c_def)
    obtain h1 where h1: "esc_read_csr_u16 hal a c h = (Inr (mem_read (mem_of h) (unat a) (unat c)), h1)"
      "mem_of h1 = mem_of h" "good h1"
      by (rule csr_read [OF assms less.prems(1) c])
    obtain h2 where h2: "esc_read_loop hal (a + c) (n - c) h1
        = (Inr (mem_read (mem_of h1) (unat (a + c)) (unat (n - c))), h2)" "mem_of h2 = mem_of h1" "good h2"
      using less.hyps [of "n - c" h1 "a + c"] chunk_shrinks [OF False, of a] h1(3) adv less.prems(2)
      by (auto simp: c_def)
    have "esc_read_loop hal a n h = (Inr (mem_read (mem_of h) (unat a) (unat n)), h2)"
      unfolding esc_read_loop.simps [of hal a n] Let_def
      using False h1 h2 adv mem_read_split [of "unat c" "unat n" "mem_of h" "unat a"]
      by (simp add: or_return_def flip: c_def)
    with h1 h2 show ?thesis by simp
  qed
qed

lemma esc_write_loop_run:
  assumes "csr_access hal mem_of good"
  shows "good h \<Longrightarrow> unat a + unat n \<le> 65535 \<Longrightarrow> length bs = unat n \<Longrightarrow>
    \<exists>h'. esc_write_loop hal a bs n h = (Inr (), h') \<and>
         mem_of h' = mem_write (mem_of h) (unat a) bs \<and> good h'"
proof (induction "unat n" arbitrary: a n bs h rule: less_induct)
  case less
  show ?case
  proof (cases "n = 0")
    case True
    with less.prems show ?thesis by (simp add: esc_write_loop.simps)
  next
    case False
    define c where "c = esc_next_chunk_size a n"
    note adv = chunk_advance [OF False less.prems(2), folded c_def]
    have c: "c \<in> {1, 2, 4}" "unat c dvd unat a" "unat c \<le> length bs"
      using chunk_bounds(3) [OF False, of a] chunk_aligned [OF False, of a] adv(3) less.prems(3)
      by (auto simp: c_def)
    obtain h1 where h1: "esc_write_csr_u16 hal a bs c h = (Inr (), h1)"
      "mem_of h1 = mem_write (mem_of h) (unat a) (take (unat c) bs)" "good h1"
      by (rule csr_write [OF assms less.prems(1) c])
    have sum: "unat (a + c) + unat (n - c) \<le> 65535" using adv less.prems(2) by simp
    have len: "length (drop (unat c) bs) = unat (n - c)" using adv(2) less.prems(3) by simp
    have small: "unat (n - c) < unat n" using chunk_shrinks [OF False, of a] by (simp add: c_def)
    obtain h2 where h2: "esc_write_loop hal (a + c) (drop (unat c) bs) (n - c) h1 = (Inr (), h2)"
      "mem_of h2 = mem_write (mem_of h1) (unat (a + c)) (drop (unat c) bs)" "good h2"
      using less.hyps [OF small h1(3) sum len] by blast
    have "mem_of h2 = mem_write (mem_of h) (unat a) (take (unat c) bs @ drop (unat c) bs)"
      using h1(2) h2(2) adv(1) c(3) by (simp only: mem_write_append) (simp add: min_def)
    moreover have "esc_write_loop hal a bs n h = (Inr (), h2)"
      unfolding esc_write_loop.simps [of hal a bs n] Let_def
      using False h1(1) h2(1) by (simp add: or_return_def flip: c_def)
    ultimately show ?thesis using h2(3) by simp
  qed
qed

text \<open>
  If the chip serves register transfers of 1, 2 and 4 bytes at multiples of their
  size, and only those, then writing any number of bytes at any register address writes exactly
  those bytes there, and reading them back returns them: the driver cuts every access into
  transfers the chip allows.
\<close>

theorem lan9252_write_read:
  assumes "csr_access hal mem_of good" "good h" "bs \<noteq> []" "length bs = unat len"
    "unat ado + unat len \<le> 0x1000"
  shows "\<exists>h1 h2. lan9252_esc_write hal ado bs len h = (Inr (), h1) \<and>
    mem_of h1 = mem_write (mem_of h) (unat ado) bs \<and>
    lan9252_esc_read hal ado len h1 = (Inr bs, h2) \<and> mem_of h2 = mem_of h1"
proof -
  have nz: "len \<noteq> 0" using assms(3,4) by (metis length_0_conv unat_0)
  have lo: "\<not> LAN9252_PDRAM_BASE \<le> ado"
    using assms(5) nz by (simp add: word_le_nat_alt unat_gt_0 [symmetric] not_le)
  have b: "unat ado + unat len \<le> 65535" using assms(5) by simp
  obtain h1 where h1: "esc_write_loop hal ado bs len h = (Inr (), h1)"
    "mem_of h1 = mem_write (mem_of h) (unat ado) bs" "good h1"
    using esc_write_loop_run [OF assms(1,2) b assms(4)] by blast
  obtain h2 where h2: "esc_read_loop hal ado len h1 = (Inr (mem_read (mem_of h1) (unat ado) (unat len)), h2)"
    "mem_of h2 = mem_of h1"
    using esc_read_loop_run [OF assms(1) h1(3) b] by blast
  have "mem_read (mem_of h1) (unat ado) (unat len) = bs"
    using mem_write_same [of "mem_of h" "unat ado" bs] h1(2) assms(4) by simp
  with h1 h2 show ?thesis
    using nz lo by (simp add: lan9252_esc_read_def lan9252_esc_write_def)
qed

section \<open>What goes over the wire to the process data memory\<close>

text \<open>Any hardware, with a log of the byte strings written to it and of those read from it.\<close>

definition logged :: "'h spi_hal \<Rightarrow> ('h \<times> bytes list \<times> bytes list) spi_hal" where
  "logged hal =
     \<lparr>hal_select = \<lambda>(h, ws, rs). (let (r, h') = hal_select hal h in (r, h', ws, rs)),
      hal_deselect = \<lambda>(h, ws, rs). (hal_deselect hal h, ws, rs),
      hal_write = \<lambda>bs (h, ws, rs). (let (r, h') = hal_write hal bs h in (r, h', ws @ [bs], rs)),
      hal_read = \<lambda>n (h, ws, rs). (let (r, bs, h') = hal_read hal n h in (r, bs, h', ws, rs @ [bs]))\<rparr>"

lemma or_returnE:
  assumes "or_return e r k = (Inr x, s)"
  obtains y s' where "r = (Inr y, s')" "k y s' = (Inr x, s)"
  using assms by (auto simp: or_return_def split: prod.splits sum.splits)

lemma or_return_unitE:
  assumes "or_return e r k = (Inr x, s)"
  obtains s' where "r = (Inr (), s')" "k () s' = (Inr x, s)"
  using assms by (auto simp: or_return_def split: prod.splits sum.splits)

lemma logged_write:
  "reg32_write (logged hal) a v (h, ws, rs) = (Inr u, h', ws', rs') \<Longrightarrow>
     ws' = ws @ [[0x02, ucast (drop_bit 8 a AND 0xFF), ucast (a AND 0xFF)] @ le32 v] \<and> rs' = rs"
  unfolding reg32_write_def logged_def Let_def by (auto split: prod.splits if_splits)

lemma logged_read:
  "reg32_read (logged hal) a (h, ws, rs) = (Inr v, h', ws', rs') \<Longrightarrow>
     \<exists>rx p. ws' = ws @ p \<and> rs' = rs @ [rx] \<and> v = of_le32 (rx ! 0) (rx ! 1) (rx ! 2) (rx ! 3) \<and>
       (\<exists>h1 h2. hal_read hal 4 h1 = (0, rx, h2))"
  unfolding reg32_read_def logged_def Let_def by (auto split: prod.splits if_splits)

lemma logged_poll:
  "poll_reg (logged hal) a d n (h, ws, rs) = (Inr u, h', ws', rs') \<Longrightarrow> \<exists>p q. ws' = ws @ p \<and> rs' = rs @ q"
proof (induction n arbitrary: h ws rs)
  case (Suc n)
  obtain r s where r: "reg32_read (logged hal) a (h, ws, rs) = (r, s)" by (metis surj_pair)
  obtain h1 ws1 rs1 where s: "s = (h1, ws1, rs1)" by (metis prod_cases3)
  show ?case
  proof (cases r)
    case (Inl e)
    with Suc.prems r show ?thesis by simp
  next
    case (Inr v)
    from logged_read [OF r [unfolded s Inr]] obtain rx p where 1: "ws1 = ws @ p" "rs1 = rs @ [rx]" by blast
    show ?thesis
    proof (cases "d v")
      case True
      with Suc.prems r s Inr 1 show ?thesis by auto
    next
      case False
      with Suc.prems r s Inr have "poll_reg (logged hal) a d n (h1, ws1, rs1) = (Inr u, h', ws', rs')" by simp
      from Suc.IH [OF this] 1 show ?thesis by auto
    qed
  qed
qed simp

fun fifo_words :: "bytes \<Rightarrow> bytes list" where
  "fifo_words [] = []"
| "fifo_words (b # bs) = le32 (word_of_bytes (take 4 (b # bs))) # fifo_words (drop 3 bs)"

lemma take4: "4 \<le> length p \<Longrightarrow> [p ! 0, p ! 1, p ! 2, p ! 3] = take 4 p"
  by (rule nth_equalityI) (auto simp: nth_Cons' less_Suc_eq numeral_eq_Suc)

lemma le32_word_of_bytes: "le32 (word_of_bytes bs) = take 4 (bs @ replicate 4 0)"
  using take4 [of "bs @ replicate 4 0"] by (simp only: word_of_bytes_def Let_def le32_of_le32) simp

lemma concat_fifo_words: "\<exists>k < 4. concat (fifo_words bs) = bs @ replicate k 0"
proof (induction bs rule: fifo_words.induct)
  case 1
  show ?case by (rule exI [of _ 0]) simp
next
  case (2 b bs)
  then obtain k where k: "k < 4" "concat (fifo_words (drop 3 bs)) = drop 3 bs @ replicate k 0" by blast
  show ?case
  proof (cases "3 \<le> length bs")
    case True
    have "le32 (word_of_bytes (take 4 (b # bs))) = b # take 3 bs"
      using True by (simp add: le32_word_of_bytes)
    with k show ?thesis by (intro exI [of _ k]) simp
  next
    case False
    then have "le32 (word_of_bytes (take 4 (b # bs))) = (b # bs) @ replicate (3 - length bs) 0"
      by (simp add: le32_word_of_bytes take_Cons')
    with False show ?thesis by (intro exI [of _ "3 - length bs"]) simp
  qed
qed

lemma logged_write_burst:
  "pram_write_burst (logged hal) n f buf (h, ws, rs) = (Inr u, h', ws', rs') \<Longrightarrow> length buf = n \<Longrightarrow>
     ws' = ws @ fifo_words buf"
proof (induction n arbitrary: f buf h ws rs rule: less_induct)
  case (less n)
  show ?case
  proof (cases buf)
    case Nil
    with less.prems show ?thesis by (simp add: pram_write_burst.simps logged_def)
  next
    case (Cons b bs)
    define t where "t = (if n > 4 then 4 else n)"
    have t: "take t buf = take 4 buf" "drop t buf = drop 4 buf" "n - t < n" "length (drop t buf) = n - t"
      using less.prems(2) Cons by (auto simp: t_def)
    obtain c h1 where c: "hal_write hal (le32 (word_of_bytes (take 4 buf))) h = (c, h1)" by (metis surj_pair)
    have c0: "c = 0" using less.prems Cons t(1) c
      by (subst (asm) pram_write_burst.simps) (auto simp: logged_def Let_def t_def split: if_splits)
    have "pram_write_burst (logged hal) (n - t) (if f > 0 then f - 1 else f) (drop t buf)
        (h1, ws @ [le32 (word_of_bytes (take 4 buf))], rs) = (Inr u, h', ws', rs')"
      using less.prems Cons t(1) c c0
      unfolding pram_write_burst.simps [of _ n] Let_def t_def [symmetric]
      by (simp add: logged_def)
    from less.IH [OF t(3) this t(4)] t(2) Cons show ?thesis by simp
  qed
qed

lemma logged_read_burst:
  assumes "\<forall>h r bs h'. hal_read hal 4 h = (r, bs, h') \<and> r = 0 \<longrightarrow> length bs = 4"
  shows "pram_read_burst (logged hal) n f buf (h, ws, rs) = (Inr out, h', ws', rs') \<Longrightarrow>
     \<exists>us. rs' = rs @ us \<and> out = buf @ take n (concat us) \<and> n \<le> length (concat us)"
proof (induction n arbitrary: f buf h ws rs rule: less_induct)
  case (less n)
  show ?case
  proof (cases "n = 0")
    case True
    with less.prems show ?thesis by (auto simp: pram_read_burst.simps logged_def)
  next
    case False
    define t where "t = (if n > 4 then 4 else n)"
    have t: "n - t < n" "t \<le> 4" "t \<le> n" "n \<noteq> t \<longrightarrow> t = 4" using False by (auto simp: t_def)
    obtain c bs h1 where c: "hal_read hal 4 h = (c, bs, h1)" by (metis prod_cases3)
    have c0: "c = 0" using less.prems False c
      by (subst (asm) pram_read_burst.simps) (auto simp: logged_def Let_def split: if_splits)
    with assms c have bl: "length bs = 4" by blast
    have "pram_read_burst (logged hal) (n - t) (if f > 0 then f - 1 else f) (buf @ take t bs)
        (h1, ws, rs @ [bs]) = (Inr out, h', ws', rs')"
      using less.prems False c c0
      unfolding pram_read_burst.simps [of _ n] Let_def t_def [symmetric]
      by (simp add: logged_def)
    from less.IH [OF t(1) this] obtain us where us: "rs' = rs @ bs # us"
      "out = buf @ take t bs @ take (n - t) (concat us)" "n - t \<le> length (concat us)" by auto
    have "take t bs @ take (n - t) (concat us) = take n (concat (bs # us))"
      using t bl by (cases "n = t") auto
    with us t bl show ?thesis by (intro exI [of _ "bs # us"]) auto
  qed
qed

lemma first_len_bounds: "first_len a n \<le> n" "unat (a AND 3) + first_len a n \<le> 4"
proof -
  have "a AND 3 \<le> 3" by (rule word_and_le1)
  then have "unat (a AND 3) \<le> 3" by (simp add: word_le_nat_alt)
  then show "first_len a n \<le> n" "unat (a AND 3) + first_len a n \<le> 4"
    by (auto simp: first_len_def Let_def)
qed

lemma pdram_write_steps:
  assumes "lan9252_pdram_write hal ado bs len h = (Inr u, h')"
  obtains s1 s2 s3 s4 s5 c s6 s7 where "len \<noteq> 0"
    "reg32_write hal LAN9252_CSR_PRAM_WR_CMD LAN9252_PRAM_CMD_ABORT h = (Inr (), s1)"
    "pram_wait_wr_not_busy hal s1 = (Inr (), s2)"
    "reg32_write hal LAN9252_CSR_PRAM_WR_ADDR_LEN (pram_addr_len len ado) s2 = (Inr (), s3)"
    "reg32_write hal LAN9252_CSR_PRAM_WR_CMD LAN9252_PRAM_CMD_BUSY s3 = (Inr (), s4)"
    "pram_wr_wait_avail hal s4 = (Inr (), s5)"
    "reg32_read hal LAN9252_CSR_PRAM_WR_CMD s5 = (Inr c, s6)"
    "reg32_write hal LAN9252_CSR_PRAM_WR_FIFO
       (word_of_bytes (replicate (unat (ado AND 3)) 0 @ take (first_len ado (unat len)) bs)) s6 = (Inr (), s7)"
    "(if unat len - first_len ado (unat len) = 0 then (Inr (), s7)
      else case hal_select hal s7 of (r, h1) \<Rightarrow>
        if r \<noteq> 0 then (Inl EIO, h1)
        else case hal_write hal [0x02, ucast (drop_bit 8 (0x20 :: u16) AND 0xFF), ucast ((0x20 :: u16) AND 0xFF)] h1 of
          (r, h2) \<Rightarrow>
          if r \<noteq> 0 then (Inl EIO, hal_deselect hal h2)
          else pram_write_burst hal (unat len - first_len ado (unat len))
                 (if pram_cmd_cnt c > 0 then pram_cmd_cnt c - 1 else pram_cmd_cnt c)
                 (drop (first_len ado (unat len)) bs) h2) = (Inr u, h')"
proof (cases "len = 0")
  case True
  with assms show thesis by (simp add: lan9252_pdram_write_def)
next
  case False
  from assms show thesis
    unfolding lan9252_pdram_write_def Let_def if_not_P [OF False]
    by (elim or_return_unitE or_returnE) (rule that [OF False])
qed

lemma pdram_read_steps:
  assumes "lan9252_pdram_read hal ado len h = (Inr out, h')"
  obtains s1 s2 s3 s4 s5 c s6 v s7 where "len \<noteq> 0"
    "reg32_write hal LAN9252_CSR_PRAM_RD_CMD LAN9252_PRAM_CMD_ABORT h = (Inr (), s1)"
    "pram_wait_rd_not_busy hal s1 = (Inr (), s2)"
    "reg32_write hal LAN9252_CSR_PRAM_RD_ADDR_LEN (pram_addr_len len ado) s2 = (Inr (), s3)"
    "reg32_write hal LAN9252_CSR_PRAM_RD_CMD LAN9252_PRAM_CMD_BUSY s3 = (Inr (), s4)"
    "pram_rd_wait_avail hal s4 = (Inr (), s5)"
    "reg32_read hal LAN9252_CSR_PRAM_RD_CMD s5 = (Inr c, s6)"
    "reg32_read hal LAN9252_CSR_PRAM_RD_FIFO s6 = (Inr v, s7)"
    "(if unat len - first_len ado (unat len) = 0
      then (Inr (slice (unat (ado AND 3)) (first_len ado (unat len)) (le32 v)), s7)
      else case hal_select hal s7 of (r, h1) \<Rightarrow>
        if r \<noteq> 0 then (Inl EIO, h1)
        else case hal_write hal [0x0B, ucast (drop_bit 8 (0 :: u16) AND 0xFF), ucast ((0 :: u16) AND 0xFF), 1] h1 of
          (r, h2) \<Rightarrow>
          if r \<noteq> 0 then (Inl EIO, hal_deselect hal h2)
          else pram_read_burst hal (unat len - first_len ado (unat len))
                 (if pram_cmd_cnt c > 0 then pram_cmd_cnt c - 1 else pram_cmd_cnt c)
                 (slice (unat (ado AND 3)) (first_len ado (unat len)) (le32 v)) h2) = (Inr out, h')"
proof (cases "len = 0")
  case True
  with assms show thesis by (simp add: lan9252_pdram_read_def)
next
  case False
  from assms show thesis
    unfolding lan9252_pdram_read_def Let_def if_not_P [OF False]
    by (elim or_return_unitE or_returnE) (rule that [OF False])
qed

text \<open>
  A successful write to process data memory has put the whole buffer into the FIFO in
  order: the FIFO bytes are one zero for each byte the address lies past a word boundary, then the
  buffer, then fewer than four zeros of padding.
\<close>

theorem pdram_write_stream:
  assumes "lan9252_pdram_write (logged hal) ado bs len (h, [], []) = (Inr u, h', ws, rs)"
    and "length bs = unat len"
  shows "\<exists>pre w us k. ws = pre @ ([0x02, 0x00, 0x20] @ w) # us \<and> (us = [] \<or> hd us = [0x02, 0x00, 0x20]) \<and>
    k < 4 \<and> w @ concat (tl us) = replicate (unat (ado AND 3)) 0 @ bs @ replicate k 0"
proof -
  define f where "f = first_len ado (unat len)"
  define p where "p = unat (ado AND 3)"
  define w where "w = le32 (word_of_bytes (replicate p 0 @ take f bs))"
  note fb = first_len_bounds [of ado "unat len", folded f_def p_def]
  from assms(1) obtain s6 s7 c where *: "len \<noteq> 0"
    "reg32_write (logged hal) LAN9252_CSR_PRAM_WR_FIFO (word_of_bytes (replicate p 0 @ take f bs)) s6 = (Inr (), s7)"
    "(if unat len - f = 0 then (Inr (), s7)
      else case hal_select (logged hal) s7 of (r, h1) \<Rightarrow>
        if r \<noteq> 0 then (Inl EIO, h1)
        else case hal_write (logged hal) [0x02, ucast (drop_bit 8 (0x20 :: u16) AND 0xFF), ucast ((0x20 :: u16) AND 0xFF)] h1 of
          (r, h2) \<Rightarrow>
          if r \<noteq> 0 then (Inl EIO, hal_deselect (logged hal) h2)
          else pram_write_burst (logged hal) (unat len - f)
                 (if pram_cmd_cnt c > 0 then pram_cmd_cnt c - 1 else pram_cmd_cnt c)
                 (drop f bs) h2) = (Inr u, h', ws, rs)"
    unfolding f_def p_def by (rule pdram_write_steps)
  obtain h6 pre rs6 h7 ws7 rs7 where s: "s6 = (h6, pre, rs6)" "s7 = (h7, ws7, rs7)"
    by (metis prod_cases3)
  have ws7: "ws7 = pre @ [[0x02, 0x00, 0x20] @ w]"
    using logged_write [OF *(2) [unfolded s]] by (simp add: w_def)
  have wl: "w = replicate p 0 @ take f bs @ replicate (4 - p - f) 0"
    using fb assms(2) by (simp add: w_def le32_word_of_bytes)
  show ?thesis
  proof (cases "unat len - f = 0")
    case True
    with *(3) s ws7 fb assms(2) have "ws = pre @ ([0x02, 0x00, 0x20] @ w) # []" "take f bs = bs" by auto
    moreover have "4 - p - f < 4" using True fb(1) *(1) unat_gt_0 [of len] by linarith
    ultimately show ?thesis using wl unfolding p_def by (intro exI [of _ pre] exI [of _ w] exI [of _ "[]"]) auto
  next
    case False
    obtain r1 g1 where g1: "hal_select hal h7 = (r1, g1)" by (metis surj_pair)
    obtain r2 g2 where g2: "hal_write hal [0x02, 0x00, 0x20] g1 = (r2, g2)" by (metis surj_pair)
    have "pram_write_burst (logged hal) (unat len - f)
        (if pram_cmd_cnt c > 0 then pram_cmd_cnt c - 1 else pram_cmd_cnt c) (drop f bs)
        (g2, (pre @ [[0x02, 0x00, 0x20] @ w]) @ [[0x02, 0x00, 0x20]], rs7) = (Inr u, h', ws, rs)"
      using *(3) False s ws7 g1 g2 by (auto simp: logged_def split: if_splits)
    from logged_write_burst [OF this] assms(2)
    have ws: "ws = pre @ ([0x02, 0x00, 0x20] @ w) # [0x02, 0x00, 0x20] # fifo_words (drop f bs)" by simp
    have "p + f = 4" using False fb unfolding f_def first_len_def p_def Let_def by (auto split: if_splits)
    then have w: "w = replicate p 0 @ take f bs" using wl by simp
    obtain k where "k < 4" "concat (fifo_words (drop f bs)) = drop f bs @ replicate k 0"
      using concat_fifo_words by blast
    with ws w show ?thesis unfolding p_def
      by (intro exI [of _ pre] exI [of _ w] exI [of _ "[0x02, 0x00, 0x20] # fifo_words (drop f bs)"] exI [of _ k]) auto
  qed
qed

text \<open>
  A successful read of process data memory returns as many bytes as were asked for,
  and they are consecutive bytes of the words read from the FIFO, starting at the position of the
  address in its word.
\<close>

theorem pdram_read_stream:
  assumes "lan9252_pdram_read (logged hal) ado len (h, [], []) = (Inr out, h', ws, rs)"
    and "\<forall>h r bs h'. hal_read hal 4 h = (r, bs, h') \<and> r = 0 \<longrightarrow> length bs = 4"
  shows "\<exists>pre us. rs = pre @ us \<and> us \<noteq> [] \<and> out = take (unat len) (drop (unat (ado AND 3)) (concat us)) \<and>
    length out = unat len"
proof -
  define f where "f = first_len ado (unat len)"
  define p where "p = unat (ado AND 3)"
  note fb = first_len_bounds [of ado "unat len", folded f_def p_def]
  from assms(1) obtain s6 v s7 c where *: "len \<noteq> 0"
    "reg32_read (logged hal) LAN9252_CSR_PRAM_RD_FIFO s6 = (Inr v, s7)"
    "(if unat len - f = 0 then (Inr (slice p f (le32 v)), s7)
      else case hal_select (logged hal) s7 of (r, h1) \<Rightarrow>
        if r \<noteq> 0 then (Inl EIO, h1)
        else case hal_write (logged hal) [0x0B, ucast (drop_bit 8 (0 :: u16) AND 0xFF), ucast ((0 :: u16) AND 0xFF), 1] h1 of
          (r, h2) \<Rightarrow>
          if r \<noteq> 0 then (Inl EIO, hal_deselect (logged hal) h2)
          else pram_read_burst (logged hal) (unat len - f)
                 (if pram_cmd_cnt c > 0 then pram_cmd_cnt c - 1 else pram_cmd_cnt c)
                 (slice p f (le32 v)) h2) = (Inr out, h', ws, rs)"
    unfolding f_def p_def by (rule pdram_read_steps)
  obtain h6 ws6 rs6 h7 ws7 rs7 where s: "s6 = (h6, ws6, rs6)" "s7 = (h7, ws7, rs7)"
    by (metis prod_cases3)
  obtain rx h8 h9 where rx: "rs7 = rs6 @ [rx]" "v = of_le32 (rx ! 0) (rx ! 1) (rx ! 2) (rx ! 3)"
    "hal_read hal 4 h8 = (0, rx, h9)"
    using logged_read [OF *(2) [unfolded s]] by blast
  have rl: "length rx = 4" using assms(2) rx(3) by blast
  then have lv: "le32 v = rx" using take4 [of rx] by (simp add: rx(2) le32_of_le32)
  show ?thesis
  proof (cases "unat len - f = 0")
    case True
    with *(3) s rx lv fb show ?thesis unfolding p_def [symmetric]
      by (intro exI [of _ rs6] exI [of _ "[rx]"]) (auto simp: slice_def rl)
  next
    case False
    obtain r1 g1 where g1: "hal_select hal h7 = (r1, g1)" by (metis surj_pair)
    obtain r2 g2 where g2: "hal_write hal [0x0B, 0, 0, 1] g1 = (r2, g2)" by (metis surj_pair)
    have "pram_read_burst (logged hal) (unat len - f)
        (if pram_cmd_cnt c > 0 then pram_cmd_cnt c - 1 else pram_cmd_cnt c) (slice p f (le32 v))
        (g2, ws7 @ [[0x0B, 0, 0, 1]], rs7) = (Inr out, h', ws, rs)"
      using *(3) False s g1 g2 by (auto simp: logged_def split: if_splits)
    from logged_read_burst [OF assms(2) this] obtain us where us: "rs = rs7 @ us"
      "out = slice p f (le32 v) @ take (unat len - f) (concat us)" "unat len - f \<le> length (concat us)" by blast
    have pf: "p + f = 4" using False fb unfolding f_def first_len_def p_def Let_def by (auto split: if_splits)
    have "slice p f (le32 v) @ take (unat len - f) (concat us) = take (unat len) (drop p (concat (rx # us)))"
    proof -
      have "unat len + p - 4 = unat len - f" using pf by simp
      then show ?thesis using pf fb rl False by (simp add: slice_def lv)
    qed
    with us rx pf fb rl show ?thesis unfolding p_def [symmetric]
      by (intro exI [of _ rs6] exI [of _ "rx # us"]) (auto simp: slice_def lv)
  qed
qed

section \<open>A chip to run on\<close>

text \<open>
  A device with a register space behind the indirect access, used to show that the hypotheses
  above can be met. Its process data FIFO always answers the same word.
\<close>

record chip =
  c_mem :: mem
  c_addr :: u16
  c_data :: bytes

definition chip_write :: "bytes \<Rightarrow> chip \<Rightarrow> chip" where
  "chip_write bs h =
     (if length bs = 4 then h\<lparr>c_addr := of_le16 (bs ! 2) (bs ! 1)\<rparr>
      else if length bs = 7 \<and> of_le16 (bs ! 2) (bs ! 1) = 0x300 then h\<lparr>c_data := drop 3 bs\<rparr>
      else if length bs = 7 \<and> of_le16 (bs ! 2) (bs ! 1) = 0x304 then
        let a = unat (of_le16 (bs ! 3) (bs ! 4)); n = unat (bs ! 5) in
        if bs ! 6 = 0xC0 then h\<lparr>c_data := mem_read (c_mem h) a n @ replicate (4 - n) 0\<rparr>
        else h\<lparr>c_mem := mem_write (c_mem h) a (take n (c_data h))\<rparr>
      else h)"

definition chip_read :: "chip \<Rightarrow> bytes" where
  "chip_read h =
     (if c_addr h = 0x300 then take 4 (c_data h @ replicate 4 0)
      else if c_addr h = 0x304 then [0, 0, 0, 0]
      else if c_addr h = 0 then [0x11, 0x22, 0x33, 0x44]
      else [1, 0, 0, 0])"

definition chip_hal :: "chip spi_hal" where
  "chip_hal = \<lparr>hal_select = \<lambda>h. (0, h), hal_deselect = \<lambda>h. h,
     hal_write = \<lambda>bs h. (0, chip_write bs h), hal_read = \<lambda>n h. (0, chip_read h, h)\<rparr>"

lemma poll_once:
  "reg32_read hal a h = (Inr v, h') \<Longrightarrow> d v \<Longrightarrow> 0 < n \<Longrightarrow> poll_reg hal a d n h = (Inr (), h')"
  by (cases n) simp_all

lemma chip_reg_read:
  "reg32_read chip_hal a h =
     (let bs = chip_read (h\<lparr>c_addr := a\<rparr>) in (Inr (of_le32 (bs ! 0) (bs ! 1) (bs ! 2) (bs ! 3)), h\<lparr>c_addr := a\<rparr>))"
  by (simp add: reg32_read_def chip_hal_def chip_write_def Let_def of_le16_bytes)

lemma chip_reg_write:
  "reg32_write chip_hal a v h =
     (Inr (), chip_write ([0x02, ucast (drop_bit 8 a AND 0xFF), ucast (a AND 0xFF)] @ le32 v) h)"
  by (simp add: reg32_write_def chip_hal_def Let_def)

lemma ucast_of_le16: "(ucast (of_le16 lo hi) :: u32) = ucast lo OR push_bit 8 (ucast hi)"
proof (rule bit_word_eqI)
  fix n
  show "bit (ucast (of_le16 lo hi) :: u32) n = bit (ucast lo OR push_bit 8 (ucast hi) :: u32) n"
    if "n < LENGTH(32)"
    using that by (cases "n < 16") (auto simp: of_le16_def bit_simps)
qed

lemma csr_cmd_bytes:
  assumes "n \<in> {1, 2, 4}"
  shows "le32 (esc_csr_cmd 0xC0000000 n a) = le16 a @ [ucast n, 0xC0]"
    "le32 (esc_csr_cmd 0x80000000 n a) = le16 a @ [ucast n, 0x80]"
proof -
  define lo :: byte where "lo = ucast (a AND 0xFF)"
  define hi :: byte where "hi = ucast (drop_bit 8 a AND 0xFF)"
  have a: "a = of_le16 lo hi" by (simp add: lo_def hi_def of_le16_bytes)
  have n: "push_bit 16 (ucast n) = (push_bit 16 (ucast (ucast n :: byte)) :: u32)"
    using assms by auto
  have top: "push_bit 24 (ucast (0xC0 :: byte)) = (0xC0000000 :: u32)"
    "push_bit 24 (ucast (0x80 :: byte)) = (0x80000000 :: u32)" by simp_all
  have "esc_csr_cmd 0xC0000000 n a = of_le32 lo hi (ucast n) 0xC0"
    "esc_csr_cmd 0x80000000 n a = of_le32 lo hi (ucast n) 0x80"
    unfolding esc_csr_cmd_def of_le32_def top n unfolding a ucast_of_le16
    by (simp_all only: or.assoc or.commute or.left_commute)
  then show "le32 (esc_csr_cmd 0xC0000000 n a) = le16 a @ [ucast n, 0xC0]"
    "le32 (esc_csr_cmd 0x80000000 n a) = le16 a @ [ucast n, 0x80]"
    by (simp_all add: le32_of_le32 le16_def lo_def hi_def)
qed

lemma chip_not_busy: "csr_cmd_wait_not_busy chip_hal h = (Inr (), h\<lparr>c_addr := 0x304\<rparr>)"
proof -
  have "reg32_read chip_hal 0x304 h = (Inr 0, h\<lparr>c_addr := 0x304\<rparr>)"
    by (simp add: chip_reg_read chip_read_def Let_def of_le32_def)
  then show ?thesis unfolding csr_cmd_wait_not_busy_def by (rule poll_once) simp_all
qed

lemma chip_csr_access: "csr_access chip_hal c_mem (\<lambda>_. True)"
  unfolding csr_access_def
proof (intro allI impI conjI, elim conjE)
  fix h :: chip and a n :: u16
  assume n: "n \<in> {1, 2, 4}"
  then have un: "unat n \<le> 4" "unat (ucast n :: byte) = unat n" by auto
  define h1 where "h1 = chip_write ([0x02, 0x03, 0x04] @ le16 a @ [ucast n, 0xC0]) h"
  have w: "reg32_write chip_hal 0x304 (esc_csr_cmd 0xC0000000 n a) h = (Inr (), h1)"
    by (simp add: chip_reg_write csr_cmd_bytes [OF n] h1_def)
  have h1_eq: "h1 = h\<lparr>c_data := mem_read (c_mem h) (unat a) (unat n) @ replicate (4 - unat n) 0\<rparr>"
    using un by (simp add: h1_def chip_write_def le16_def of_le16_bytes of_le16_def [of 4 3] Let_def)
  have data: "c_data h1 = mem_read (c_mem h) (unat a) (unat n) @ replicate (4 - unat n) 0" unfolding h1_eq by simp
  then have d4: "take 4 (c_data h1 @ replicate 4 0) = c_data h1" "length (c_data h1) = 4" using un by simp_all
  have r: "reg32_read chip_hal 0x300 (h1\<lparr>c_addr := 0x304\<rparr>) =
      (Inr (of_le32 (c_data h1 ! 0) (c_data h1 ! 1) (c_data h1 ! 2) (c_data h1 ! 3)), h1\<lparr>c_addr := 0x300\<rparr>)"
    using d4(1) by (simp add: chip_reg_read chip_read_def Let_def del: take_append)
  have "take (unat n) (le32 (of_le32 (c_data h1 ! 0) (c_data h1 ! 1) (c_data h1 ! 2) (c_data h1 ! 3)))
      = mem_read (c_mem h) (unat a) (unat n)"
    using take4 [of "c_data h1"] d4 data by (simp only: le32_of_le32) simp
  then have "esc_read_csr_u16 chip_hal a n h = (Inr (mem_read (c_mem h) (unat a) (unat n)), h1\<lparr>c_addr := 0x300\<rparr>)"
    by (simp add: esc_read_csr_u16_def or_return_def w chip_not_busy r)
  then show "\<exists>h'. esc_read_csr_u16 chip_hal a n h = (Inr (mem_read (c_mem h) (unat a) (unat n)), h') \<and>
      c_mem h' = c_mem h \<and> True"
    unfolding h1_eq by simp
next
  fix h :: chip and a n :: u16 and bs :: bytes
  assume "True \<and> n \<in> {1, 2, 4} \<and> unat n dvd unat a" and len: "unat n \<le> length bs"
  then have n: "n \<in> {1, 2, 4}" by simp
  then have un: "unat n \<le> 4" "unat (ucast n :: byte) = unat n" by auto
  let ?w = "le32 (word_of_bytes (take (unat n) bs))"
  let ?h1 = "h\<lparr>c_data := ?w\<rparr>"
  have w1: "reg32_write chip_hal 0x300 (word_of_bytes (take (unat n) bs)) h = (Inr (), ?h1)"
    by (simp add: chip_reg_write chip_write_def of_le16_def)
  have tw: "take (unat n) ?w = take (unat n) bs"
    using un len by (simp add: le32_word_of_bytes min_def)
  have w2: "reg32_write chip_hal 0x304 (esc_csr_cmd 0x80000000 n a) ?h1
      = (Inr (), ?h1\<lparr>c_mem := mem_write (c_mem h) (unat a) (take (unat n) bs)\<rparr>)"
    using un tw
    by (simp add: chip_reg_write csr_cmd_bytes [OF n] chip_write_def le16_def of_le16_bytes of_le16_def [of 4 3] Let_def)
  show "\<exists>h'. esc_write_csr_u16 chip_hal a bs n h = (Inr (), h') \<and>
      c_mem h' = mem_write (c_mem h) (unat a) (take (unat n) bs) \<and> True"
    by (simp add: esc_write_csr_u16_def or_return_def w1 w2 chip_not_busy)
qed

definition chip0 :: chip where
  "chip0 = \<lparr>c_mem = \<lambda>_. 0, c_addr = 0, c_data = []\<rparr>"

theorem lan9252_write_read_witness:
  "\<exists>h1 h2. lan9252_esc_write chip_hal 0x11 [1, 2, 3, 4, 5, 6, 7] 7 chip0 = (Inr (), h1) \<and>
     lan9252_esc_read chip_hal 0x11 7 h1 = (Inr [1, 2, 3, 4, 5, 6, 7], h2)"
  using lan9252_write_read [OF chip_csr_access, where h = chip0 and bs = "[1, 2, 3, 4, 5, 6, 7]" and len = 7 and ado = "0x11"] by auto

theorem wait_not_busy_bounded_witness:
  "csr_cmd_wait_not_busy chip_hal chip0 = (Inr (), chip0\<lparr>c_addr := 0x304\<rparr>)"
  using wait_not_busy_bounded [of 0 chip_hal "\<lambda>i. if i = 0 then chip0 else chip0\<lparr>c_addr := 0x304\<rparr>" "\<lambda>_. 0"]
  by (simp add: chip_reg_read chip_read_def of_le32_def Let_def)

definition succeeds :: "('a, 'h) outcome \<Rightarrow> bool" where
  "succeeds r \<longleftrightarrow> (\<exists>x. fst r = Inr x)"

lemma fst_eq_Inr: "fst r = Inr x \<longleftrightarrow> (\<exists>h ws rs. r = (Inr x, h, ws, rs))"
  by (cases r) auto

lemma or_return_succeeds: "succeeds r \<Longrightarrow> (\<And>x s. succeeds (k x s)) \<Longrightarrow> succeeds (or_return e r k)"
  by (cases r) (auto simp: succeeds_def or_return_def)

lemma chip_calls:
  "fst (hal_select (logged chip_hal) s) = 0" "fst (hal_write (logged chip_hal) bs s) = 0"
  "fst (hal_read (logged chip_hal) n s) = 0"
  by (simp_all add: logged_def chip_hal_def split: prod.split)

lemma chip_write_succeeds: "succeeds (reg32_write (logged chip_hal) a v s)"
  by (simp add: succeeds_def reg32_write_def Let_def case_prod_beta chip_calls)

lemma chip_read_succeeds: "succeeds (reg32_read (logged chip_hal) a s)"
  by (simp add: succeeds_def reg32_read_def Let_def case_prod_beta chip_calls)

lemma chip_poll_succeeds:
  assumes "a \<in> {0x30C, 0x314}" "d 1"
  shows "succeeds (poll_reg (logged chip_hal) a d LAN9252_BUSY_MAX s)"
proof -
  have "\<exists>s'. reg32_read (logged chip_hal) a s = (Inr 1, s')"
    using assms(1) unfolding reg32_read_def Let_def
    by (cases s) (auto simp: logged_def chip_hal_def chip_write_def chip_read_def of_le16_def of_le32_def)
  then obtain s' where "reg32_read (logged chip_hal) a s = (Inr 1, s')" by blast
  then have "poll_reg (logged chip_hal) a d LAN9252_BUSY_MAX s = (Inr (), s')"
    by (rule poll_once [where d = d]) (use assms(2) in simp_all)
  then show ?thesis by (simp add: succeeds_def)
qed

lemma chip_read_burst: "succeeds (pram_read_burst (logged chip_hal) n f buf s)"
proof (induction n arbitrary: f buf s rule: less_induct)
  case (less n)
  then show ?case
    by (subst pram_read_burst.simps) (simp add: Let_def case_prod_beta chip_calls, simp add: succeeds_def)
qed

lemma chip_write_burst: "succeeds (pram_write_burst (logged chip_hal) n f buf s)"
proof (induction n arbitrary: f buf s rule: less_induct)
  case (less n)
  then show ?case
    by (subst pram_write_burst.simps) (simp add: Let_def case_prod_beta chip_calls, simp add: succeeds_def)
qed

lemma chip_pdram_read: "len \<noteq> 0 \<Longrightarrow> succeeds (lan9252_pdram_read (logged chip_hal) ado len s)"
  unfolding lan9252_pdram_read_def pram_wait_rd_not_busy_def pram_rd_wait_avail_def Let_def case_prod_beta
    chip_calls
  by (simp only: if_False)
     (intro or_return_succeeds chip_write_succeeds chip_read_succeeds chip_poll_succeeds,
      simp_all add: chip_read_burst, simp_all add: succeeds_def)

lemma chip_pdram_write: "len \<noteq> 0 \<Longrightarrow> succeeds (lan9252_pdram_write (logged chip_hal) ado bs len s)"
  unfolding lan9252_pdram_write_def pram_wait_wr_not_busy_def pram_wr_wait_avail_def Let_def case_prod_beta
    chip_calls
  by (simp only: if_False)
     (intro or_return_succeeds chip_write_succeeds chip_read_succeeds chip_poll_succeeds,
      simp_all add: chip_write_burst, simp_all add: succeeds_def)

theorem pdram_write_stream_witness:
  "\<exists>h' pre w us k rs. lan9252_pdram_write (logged chip_hal) 0x1001 [1, 2, 3, 4, 5] 5 (chip0, [], []) =
       (Inr (), h', pre @ ([0x02, 0x00, 0x20] @ w) # us, rs) \<and>
     k < 4 \<and> w @ concat (tl us) = [0, 1, 2, 3, 4, 5] @ replicate k 0"
proof -
  obtain h' ws rs where run: "lan9252_pdram_write (logged chip_hal) 0x1001 [1, 2, 3, 4, 5] 5 (chip0, [], [])
      = (Inr (), h', ws, rs)"
    using chip_pdram_write [of 5 "0x1001" "[1, 2, 3, 4, 5]" "(chip0, [], [])"]
    by (auto simp: succeeds_def fst_eq_Inr)
  have p: "unat (0x1001 AND 3 :: u16) = 1" by simp
  from pdram_write_stream [OF run] show ?thesis unfolding run p by fastforce
qed

theorem pdram_read_stream_witness:
  "\<exists>out h' ws rs. lan9252_pdram_read (logged chip_hal) 0x1002 7 (chip0, [], []) = (Inr out, h', ws, rs) \<and>
     length out = 7"
proof -
  obtain out h' ws rs where run: "lan9252_pdram_read (logged chip_hal) 0x1002 7 (chip0, [], [])
      = (Inr out, h', ws, rs)"
    using chip_pdram_read [of 7 "0x1002" "(chip0, [], [])"] by (auto simp: succeeds_def fst_eq_Inr)
  have "\<forall>h r bs h'. hal_read chip_hal 4 h = (r, bs, h') \<and> r = 0 \<longrightarrow> length bs = 4"
    by (auto simp: chip_hal_def chip_read_def)
  from pdram_read_stream [OF run this] show ?thesis unfolding run by auto
qed

end
