(* ===== verification/HalPorts.thy ===== *)
theory HalPorts
  imports Lan9252Props
begin

text \<open>
  The SPI ports of the LAN9252 driver, \<open>controllers/lan9252/ports/zephyr/hal_zephyr.c\<close> and
  \<open>ports/nuttx/hal_nuttx.c\<close>, as hardware for the driver model: each is an \<open>spi_hal\<close> over the
  driver calls of its system. Both meet the contract \<open>spi_session\<close>, so what that locale proves of
  the driver holds on both: the bus is locked for each transaction and given back on every path.
\<close>

section \<open>Zephyr\<close>

text \<open>
  The driver calls of \<open>hal_zephyr.c\<close> on a device of any type. A GPIO level is the logical one, as
  \<open>gpio_pin_set_dt\<close> and \<open>GPIO_OUTPUT_INACTIVE\<close> take it: \<^const>\<open>True\<close> is active.
\<close>

record 'd zephyr_drv =
  spi_is_ready :: "'d \<Rightarrow> bool"
  has_cs_gpio :: "'d \<Rightarrow> bool"
  gpio_configure :: "bool \<Rightarrow> 'd \<Rightarrow> int \<times> 'd"
  gpio_set :: "bool \<Rightarrow> 'd \<Rightarrow> int \<times> 'd"
  mutex_lock :: "'d \<Rightarrow> int \<times> 'd"
  drv_write :: "bytes \<Rightarrow> 'd \<Rightarrow> int \<times> 'd"
  drv_read :: "nat \<Rightarrow> 'd \<Rightarrow> int \<times> bytes \<times> 'd"

text \<open>\<open>g_spi_mtx\<close> counts how often the mutex is held, \<open>cs_level\<close> is the level last driven.\<close>

record 'd zephyr_hal =
  zdev :: 'd
  g_hal_ready :: bool
  g_spi_mtx :: nat
  cs_level :: bool

definition drive_cs :: "(bool \<Rightarrow> 'd \<Rightarrow> int \<times> 'd) \<Rightarrow> bool \<Rightarrow> 'd zephyr_hal \<Rightarrow> int \<times> 'd zephyr_hal" where
  "drive_cs f v h =
     (let (ret, d) = f v (zdev h) in
      (ret, h\<lparr>zdev := d, cs_level := (if ret = 0 then v else cs_level h)\<rparr>))"

definition ul_ecat_lan9252_hal_init :: "'d zephyr_drv \<Rightarrow> 'd zephyr_hal \<Rightarrow> int \<times> 'd zephyr_hal" where
  "ul_ecat_lan9252_hal_init drv h =
     (if \<not> spi_is_ready drv (zdev h) then (-19, h)
      else if \<not> has_cs_gpio drv (zdev h) then (-19, h)
      else
        let (ret, h1) = drive_cs (gpio_configure drv) False h in
        if ret \<noteq> 0 then (ret, h1) else (0, h1\<lparr>g_spi_mtx := 0, g_hal_ready := True\<rparr>))"

definition zephyr_spi_select :: "'d zephyr_drv \<Rightarrow> 'd zephyr_hal \<Rightarrow> int \<times> 'd zephyr_hal" where
  "zephyr_spi_select drv h =
     (if \<not> g_hal_ready h then (-5, h)
      else
        let (ret, d) = mutex_lock drv (zdev h); h1 = h\<lparr>zdev := d\<rparr> in
        if ret \<noteq> 0 then (-5, h1)
        else
          let (ret, h2) = drive_cs (gpio_set drv) False (h1\<lparr>g_spi_mtx := g_spi_mtx h1 + 1\<rparr>) in
          if ret \<noteq> 0 then (-5, h2\<lparr>g_spi_mtx := g_spi_mtx h2 - 1\<rparr>) else (0, h2))"

definition zephyr_spi_deselect :: "'d zephyr_drv \<Rightarrow> 'd zephyr_hal \<Rightarrow> 'd zephyr_hal" where
  "zephyr_spi_deselect drv h =
     (let (_, h1) = drive_cs (gpio_set drv) True h in h1\<lparr>g_spi_mtx := g_spi_mtx h1 - 1\<rparr>)"

definition zephyr_spi_write :: "'d zephyr_drv \<Rightarrow> bytes \<Rightarrow> 'd zephyr_hal \<Rightarrow> int \<times> 'd zephyr_hal" where
  "zephyr_spi_write drv data h =
     (if data = [] then (-22, h)
      else if \<not> g_hal_ready h then (-5, h)
      else let (ret, d) = drv_write drv data (zdev h) in (if ret = 0 then 0 else -5, h\<lparr>zdev := d\<rparr>))"

definition zephyr_spi_read :: "'d zephyr_drv \<Rightarrow> nat \<Rightarrow> 'd zephyr_hal \<Rightarrow> int \<times> bytes \<times> 'd zephyr_hal" where
  "zephyr_spi_read drv len h =
     (if len = 0 then (-22, [], h)
      else if \<not> g_hal_ready h then (-5, [], h)
      else let (ret, b, d) = drv_read drv len (zdev h) in (if ret = 0 then 0 else -5, b, h\<lparr>zdev := d\<rparr>))"

definition zephyr_spi_hal :: "'d zephyr_drv \<Rightarrow> 'd zephyr_hal spi_hal" where
  "zephyr_spi_hal drv =
     \<lparr>hal_select = zephyr_spi_select drv, hal_deselect = zephyr_spi_deselect drv,
      hal_write = zephyr_spi_write drv, hal_read = zephyr_spi_read drv\<rparr>"

text \<open>Every session of the driver takes the mutex once and gives it back.\<close>

interpretation zh: spi_session "zephyr_spi_hal drv" "\<lambda>h. g_spi_mtx h = 0" "\<lambda>h. g_spi_mtx h = 1" for drv :: "'d zephyr_drv"
  by unfold_locales
    (auto simp: zephyr_spi_hal_def zephyr_spi_select_def zephyr_spi_deselect_def zephyr_spi_write_def zephyr_spi_read_def
      drive_cs_def Let_def split: prod.splits if_splits)

section \<open>NuttX\<close>

record 'd nuttx_drv =
  SPI_LOCK :: "bool \<Rightarrow> 'd \<Rightarrow> 'd"
  SPI_SELECT :: "u32 \<Rightarrow> bool \<Rightarrow> 'd \<Rightarrow> 'd"
  SPI_SNDBLOCK :: "bytes \<Rightarrow> 'd \<Rightarrow> 'd"
  SPI_RECVBLOCK :: "nat \<Rightarrow> 'd \<Rightarrow> bytes \<times> 'd"

text \<open>\<open>g_spidev\<close> is the device once it is known; \<open>spi_locked\<close> and \<open>spi_selected\<close> watch the bus.\<close>

record 'd nuttx_hal =
  g_spidev :: "'d option"
  g_devid :: u32
  g_inited :: bool
  spi_locked :: bool
  spi_selected :: bool

definition lan9252_hal_nuttx_init :: "'d option \<Rightarrow> u32 \<Rightarrow> 'd nuttx_hal \<Rightarrow> int \<times> 'd nuttx_hal" where
  "lan9252_hal_nuttx_init spi devid h =
     (if spi = None then (-22, h) else (0, h\<lparr>g_spidev := spi, g_devid := devid, g_inited := True\<rparr>))"

definition nuttx_spi_select :: "'d nuttx_drv \<Rightarrow> 'd nuttx_hal \<Rightarrow> int \<times> 'd nuttx_hal" where
  "nuttx_spi_select drv h =
     (case g_spidev h of
        None \<Rightarrow> (-5, h)
      | Some d \<Rightarrow>
          if \<not> g_inited h then (-5, h)
          else (0, h\<lparr>g_spidev := Some (SPI_SELECT drv (g_devid h) True (SPI_LOCK drv True d)),
                     spi_locked := True, spi_selected := True\<rparr>))"

definition nuttx_spi_deselect :: "'d nuttx_drv \<Rightarrow> 'd nuttx_hal \<Rightarrow> 'd nuttx_hal" where
  "nuttx_spi_deselect drv h =
     (case g_spidev h of
        None \<Rightarrow> h
      | Some d \<Rightarrow> h\<lparr>g_spidev := Some (SPI_LOCK drv False (SPI_SELECT drv (g_devid h) False d)),
                    spi_locked := False, spi_selected := False\<rparr>)"

definition nuttx_spi_write :: "'d nuttx_drv \<Rightarrow> bytes \<Rightarrow> 'd nuttx_hal \<Rightarrow> int \<times> 'd nuttx_hal" where
  "nuttx_spi_write drv data h =
     (if data = [] then (-22, h)
      else
        case g_spidev h of
          None \<Rightarrow> (-5, h)
        | Some d \<Rightarrow> if \<not> g_inited h then (-5, h) else (0, h\<lparr>g_spidev := Some (SPI_SNDBLOCK drv data d)\<rparr>))"

definition nuttx_spi_read :: "'d nuttx_drv \<Rightarrow> nat \<Rightarrow> 'd nuttx_hal \<Rightarrow> int \<times> bytes \<times> 'd nuttx_hal" where
  "nuttx_spi_read drv len h =
     (if len = 0 then (-22, [], h)
      else
        case g_spidev h of
          None \<Rightarrow> (-5, [], h)
        | Some d \<Rightarrow>
            if \<not> g_inited h then (-5, [], h)
            else let (b, d1) = SPI_RECVBLOCK drv len d in (0, b, h\<lparr>g_spidev := Some d1\<rparr>))"

definition nuttx_spi_hal :: "'d nuttx_drv \<Rightarrow> 'd nuttx_hal spi_hal" where
  "nuttx_spi_hal drv =
     \<lparr>hal_select = nuttx_spi_select drv, hal_deselect = nuttx_spi_deselect drv,
      hal_write = nuttx_spi_write drv, hal_read = nuttx_spi_read drv\<rparr>"

definition bus_free :: "'d nuttx_hal \<Rightarrow> bool" where
  "bus_free h \<longleftrightarrow> \<not> spi_locked h \<and> \<not> spi_selected h"

definition bus_taken :: "'d nuttx_hal \<Rightarrow> bool" where
  "bus_taken h \<longleftrightarrow> g_spidev h \<noteq> None \<and> spi_locked h \<and> spi_selected h"

interpretation nh: spi_session "nuttx_spi_hal drv" bus_free bus_taken for drv :: "'d nuttx_drv"
  by unfold_locales
    (auto simp: nuttx_spi_hal_def nuttx_spi_select_def nuttx_spi_deselect_def nuttx_spi_write_def nuttx_spi_read_def
      bus_free_def bus_taken_def Let_def split: prod.splits if_splits option.splits)

text \<open>
  Property C34. On the Zephyr and on the NuttX port, whatever the system's SPI, GPIO and mutex
  calls return, a driver operation that starts with the bus free gives it back: the Zephyr mutex
  is held 0 times, the NuttX bus is neither locked nor selected.
\<close>

theorem hal_ports_release:
  assumes "g_spi_mtx z = 0" "bus_free n"
  shows "g_spi_mtx (snd (lan9252_esc_read (zephyr_spi_hal zd) a len z)) = 0 \<and>
    g_spi_mtx (snd (lan9252_esc_write (zephyr_spi_hal zd) a bs len z)) = 0 \<and>
    g_spi_mtx (snd (lan9252_soft_reset (zephyr_spi_hal zd) z)) = 0 \<and>
    bus_free (snd (lan9252_esc_read (nuttx_spi_hal nd) a len n)) \<and>
    bus_free (snd (lan9252_esc_write (nuttx_spi_hal nd) a bs len n)) \<and>
    bus_free (snd (lan9252_soft_reset (nuttx_spi_hal nd) n))"
  using assms by (simp add: zh.all_idle nh.all_idle)

text \<open>
  After a successful start of the Zephyr port the chip-select line rests at the very
  level that \<open>lan9252_hal_spi_select\<close> drives: selecting the chip does not change the
  line, and only the first deselect moves it to the other level.
\<close>

theorem zephyr_rests_selected:
  assumes "ul_ecat_lan9252_hal_init drv h = (0, h1)" "zephyr_spi_select drv h1 = (0, h2)"
  shows "cs_level h2 = cs_level h1 \<and> (fst (gpio_set drv True (zdev h2)) = 0 \<longrightarrow> cs_level (zephyr_spi_deselect drv h2) \<noteq> cs_level h1)"
  using assms by (auto simp: ul_ecat_lan9252_hal_init_def zephyr_spi_select_def zephyr_spi_deselect_def drive_cs_def Let_def
      split: prod.splits if_splits)

section \<open>Witnesses\<close>

definition demo_nuttx :: "unit nuttx_drv" where
  "demo_nuttx = \<lparr>SPI_LOCK = \<lambda>_ d. d, SPI_SELECT = \<lambda>_ _ d. d, SPI_SNDBLOCK = \<lambda>_ d. d,
     SPI_RECVBLOCK = \<lambda>n d. (replicate n 0, d)\<rparr>"

definition demo_zephyr :: "unit zephyr_drv" where
  "demo_zephyr = \<lparr>spi_is_ready = \<lambda>_. True, has_cs_gpio = \<lambda>_. True, gpio_configure = \<lambda>_ d. (0, d), gpio_set = \<lambda>_ d. (0, d),
     mutex_lock = \<lambda>d. (0, d), drv_write = \<lambda>_ d. (0, d), drv_read = \<lambda>n d. (0, replicate n 0, d)\<rparr>"

definition demo_zephyr_hal :: "unit zephyr_hal" where
  "demo_zephyr_hal = \<lparr>zdev = (), g_hal_ready = True, g_spi_mtx = 0, cs_level = False\<rparr>"

definition demo_nuttx_hal :: "unit nuttx_hal" where
  "demo_nuttx_hal = \<lparr>g_spidev = Some (), g_devid = 0, g_inited = True, spi_locked = False, spi_selected = False\<rparr>"

theorem hal_ports_release_witness:
  "g_spi_mtx (snd (lan9252_esc_read (zephyr_spi_hal demo_zephyr) 0x130 2 demo_zephyr_hal)) = 0 \<and>
   bus_free (snd (lan9252_esc_read (nuttx_spi_hal demo_nuttx) 0x130 2 demo_nuttx_hal))"
  using hal_ports_release [of demo_zephyr_hal demo_nuttx_hal demo_zephyr "0x130" 2 _ demo_nuttx]
  by (simp add: demo_zephyr_hal_def demo_nuttx_hal_def bus_free_def)

theorem zephyr_rests_selected_witness:
  "cs_level (snd (zephyr_spi_select demo_zephyr (snd (ul_ecat_lan9252_hal_init demo_zephyr demo_zephyr_hal)))) = False"
  using zephyr_rests_selected [of demo_zephyr demo_zephyr_hal]
  by (auto simp: ul_ecat_lan9252_hal_init_def zephyr_spi_select_def drive_cs_def demo_zephyr_def demo_zephyr_hal_def)

end
