(* ===== verification/Wire.thy ===== *)
theory Wire
  imports Prelude
begin

text \<open>
  The wire format of \<open>src/common/ul_ecat_frame.c\<close>: encoding and parsing of single datagrams, the
  two walks over a datagram area (\<open>ul_ecat_pdu_count_datagrams\<close> and \<open>ul_ecat_dgram_parse\<close>) and the
  Ethernet framing. The walks are related to one reference function, \<open>pdu_split\<close>, which cuts an
  area into its datagrams; the round trips are stated against \<open>dgram_bytes\<close>, the layout of a
  datagram. The contract other components rely on is the locale \<open>dgram_codec\<close>.

  A function that returns \<open>-1\<close> on failure returns \<^const>\<open>None\<close> here. The optional output
  buffer of the parser (\<open>data_out\<close>, \<open>data_cap\<close>) is its capacity, \<^const>\<open>None\<close> for \<open>NULL\<close>.
\<close>

section \<open>Constants\<close>

abbreviation UL_ECAT_CMD_APRD :: byte where "UL_ECAT_CMD_APRD \<equiv> 0x01"
abbreviation UL_ECAT_CMD_APWR :: byte where "UL_ECAT_CMD_APWR \<equiv> 0x02"
abbreviation UL_ECAT_CMD_FPRD :: byte where "UL_ECAT_CMD_FPRD \<equiv> 0x04"
abbreviation UL_ECAT_CMD_FPWR :: byte where "UL_ECAT_CMD_FPWR \<equiv> 0x05"

abbreviation UL_ECAT_DGRAM_HDR_LEN :: nat where "UL_ECAT_DGRAM_HDR_LEN \<equiv> 10"
abbreviation UL_ECAT_DGRAM_WKC_LEN :: nat where "UL_ECAT_DGRAM_WKC_LEN \<equiv> 2"
abbreviation UL_ECAT_PDU_HDR_LEN :: nat where "UL_ECAT_PDU_HDR_LEN \<equiv> 4"
abbreviation UL_ECAT_DGRAM_MAX_DATA :: nat where "UL_ECAT_DGRAM_MAX_DATA \<equiv> 1498"
abbreviation UL_ECAT_MAX_EC_PAYLOAD :: nat where "UL_ECAT_MAX_EC_PAYLOAD \<equiv> 1498"
abbreviation UL_ECAT_ETHERTYPE :: u16 where "UL_ECAT_ETHERTYPE \<equiv> 0x88A4"

section \<open>Single datagrams\<close>

definition r16_le :: "bytes \<Rightarrow> nat \<Rightarrow> u16" where
  "r16_le p i = of_le16 (p ! i) (p ! (i + 1))"

definition ul_ecat_pack_len_irq :: "u16 \<Rightarrow> u16 \<Rightarrow> u16" where
  "ul_ecat_pack_len_irq data_len_bytes irq =
     (let l = (if data_len_bytes > 0x7FF then 0x7FF else data_len_bytes) in l AND 0x7FF)"

definition ul_ecat_unpack_len :: "u16 \<Rightarrow> u16" where
  "ul_ecat_unpack_len len_word = len_word AND 0x7FF"

definition ul_ecat_dgram_wire_size :: "u16 \<Rightarrow> nat" where
  "ul_ecat_dgram_wire_size data_len_bytes =
     UL_ECAT_DGRAM_HDR_LEN + unat data_len_bytes + UL_ECAT_DGRAM_WKC_LEN"

definition ul_ecat_dgram_encode ::
  "nat \<Rightarrow> byte \<Rightarrow> byte \<Rightarrow> u16 \<Rightarrow> u16 \<Rightarrow> u16 \<Rightarrow> u16 \<Rightarrow> u16 \<Rightarrow> bytes option \<Rightarrow> bytes option" where
  "ul_ecat_dgram_encode out_cap cmd index adp ado data_len_bytes irq wkc_out data =
     (if unat data_len_bytes > UL_ECAT_DGRAM_MAX_DATA then None
      else
        let need = ul_ecat_dgram_wire_size data_len_bytes in
        if need > out_cap then None
        else Some ([cmd, index] @ le16 adp @ le16 ado
               @ le16 (ul_ecat_pack_len_irq data_len_bytes irq) @ le16 irq
               @ (case data of
                    Some d \<Rightarrow> take (unat data_len_bytes) d
                  | None \<Rightarrow> replicate (unat data_len_bytes) 0)
               @ le16 wkc_out))"

record dgram =
  d_cmd :: byte
  d_index :: byte
  d_adp :: u16
  d_ado :: u16
  d_len :: u16
  d_irq :: u16
  d_wkc :: u16
  d_data :: bytes

definition parse_one_dgram :: "bytes \<Rightarrow> nat option \<Rightarrow> (dgram \<times> nat) option" where
  "parse_one_dgram dg data_cap =
     (if length dg < UL_ECAT_DGRAM_HDR_LEN + UL_ECAT_DGRAM_WKC_LEN then None
      else
        let dlen = ul_ecat_unpack_len (r16_le dg 6) in
        if unat dlen > UL_ECAT_DGRAM_MAX_DATA then None
        else
          let total = ul_ecat_dgram_wire_size dlen in
          if length dg < total then None
          else
            let d = \<lparr>d_cmd = dg ! 0, d_index = dg ! 1, d_adp = r16_le dg 2, d_ado = r16_le dg 4,
                     d_len = dlen, d_irq = r16_le dg 8,
                     d_wkc = r16_le dg (UL_ECAT_DGRAM_HDR_LEN + unat dlen), d_data = []\<rparr> in
            case data_cap of
              None \<Rightarrow> Some (d, total)
            | Some cap \<Rightarrow>
                if dlen > 0 then
                  if cap < unat dlen then None
                  else Some (d\<lparr>d_data := slice UL_ECAT_DGRAM_HDR_LEN (unat dlen) dg\<rparr>, total)
                else Some (d, total))"

section \<open>Walks over a datagram area\<close>

fun dgram_parse_from :: "bytes \<Rightarrow> nat \<Rightarrow> nat \<Rightarrow> nat option \<Rightarrow> dgram option" where
  "dgram_parse_from pdu off skip data_cap =
     (if off + UL_ECAT_DGRAM_HDR_LEN + UL_ECAT_DGRAM_WKC_LEN > length pdu then None
      else
        let dg = drop off pdu;
            remain = length pdu - off;
            dtot = ul_ecat_dgram_wire_size (ul_ecat_unpack_len (r16_le dg 6)) in
        if dtot > remain then None
        else case skip of
               0 \<Rightarrow> map_option fst (parse_one_dgram dg data_cap)
             | Suc k \<Rightarrow> dgram_parse_from pdu (off + dtot) k data_cap)"

declare dgram_parse_from.simps [simp del]

definition ul_ecat_dgram_parse :: "bytes \<Rightarrow> nat \<Rightarrow> nat option \<Rightarrow> dgram option" where
  "ul_ecat_dgram_parse pdu dgram_index data_cap = dgram_parse_from pdu 0 dgram_index data_cap"

function count_from :: "bytes \<Rightarrow> nat \<Rightarrow> nat \<Rightarrow> nat option" where
  "count_from pdu off count =
     (if off + UL_ECAT_DGRAM_HDR_LEN + UL_ECAT_DGRAM_WKC_LEN \<le> length pdu then
        let dg = drop off pdu;
            dtot = ul_ecat_dgram_wire_size (ul_ecat_unpack_len (r16_le dg 6)) in
        if dtot > length pdu - off then None
        else count_from pdu (off + dtot) (count + 1)
      else if off \<noteq> length pdu then None
      else Some count)"
  by pat_completeness auto
termination
  by (relation "measure (\<lambda>(pdu, off, count). length pdu - off)")
     (auto simp: ul_ecat_dgram_wire_size_def)

declare count_from.simps [simp del]

definition ul_ecat_pdu_count_datagrams :: "bytes \<Rightarrow> nat option" where
  "ul_ecat_pdu_count_datagrams pdu = count_from pdu 0 0"

section \<open>Ethernet framing\<close>

definition ul_ecat_build_eth_frame :: "bytes \<Rightarrow> bytes \<Rightarrow> bytes \<Rightarrow> nat \<Rightarrow> bytes option" where
  "ul_ecat_build_eth_frame dst src ec_payload frame_cap =
     (let pdu_body = UL_ECAT_PDU_HDR_LEN + length ec_payload;
          eth_len = 14 + pdu_body in
      if eth_len > frame_cap then None
      else if length ec_payload > UL_ECAT_MAX_EC_PAYLOAD then None
      else Some (take 6 dst @ take 6 src
             @ [ucast (drop_bit 8 UL_ECAT_ETHERTYPE AND 0xFF), ucast (UL_ECAT_ETHERTYPE AND 0xFF)]
             @ le16 (word_of_nat (2 + length ec_payload)) @ le16 0 @ ec_payload))"

definition ul_ecat_parse_eth_frame :: "bytes \<Rightarrow> bytes option" where
  "ul_ecat_parse_eth_frame frame =
     (if length frame < 14 + UL_ECAT_PDU_HDR_LEN then None
      else
        let et = push_bit 8 (ucast (frame ! 12)) OR ucast (frame ! 13) :: u16 in
        if et \<noteq> UL_ECAT_ETHERTYPE then None
        else
          let ec_len_field = r16_le frame 14 in
          if ec_len_field < 2 then None
          else
            let dgram_area = unat ec_len_field - 2;
                expected = 14 + UL_ECAT_PDU_HDR_LEN + dgram_area in
            if length frame < expected then None
            else Some (slice 18 dgram_area frame))"

section \<open>Reference layout and reference split\<close>

definition dgram_bytes :: "dgram \<Rightarrow> bytes" where
  "dgram_bytes d =
     [d_cmd d, d_index d] @ le16 (d_adp d) @ le16 (d_ado d) @ le16 (d_len d) @ le16 (d_irq d)
     @ d_data d @ le16 (d_wkc d)"

definition valid_dgram :: "dgram \<Rightarrow> bool" where
  "valid_dgram d \<longleftrightarrow> unat (d_len d) \<le> UL_ECAT_DGRAM_MAX_DATA \<and> length (d_data d) = unat (d_len d)"

definition raw_len :: "bytes \<Rightarrow> nat" where
  "raw_len dg = ul_ecat_dgram_wire_size (ul_ecat_unpack_len (r16_le dg 6))"

function pdu_split :: "bytes \<Rightarrow> bytes list option" where
  "pdu_split pdu =
     (if length pdu < 12 then (if pdu = [] then Some [] else None)
      else if raw_len pdu > length pdu then None
      else map_option ((#) (take (raw_len pdu) pdu)) (pdu_split (drop (raw_len pdu) pdu)))"
  by pat_completeness auto
termination
  by (relation "measure length") (auto simp: raw_len_def ul_ecat_dgram_wire_size_def)

declare pdu_split.simps [simp del]

section \<open>Facts about the length field\<close>

lemma unat_unpack_len_mod: "unat (ul_ecat_unpack_len w) = unat w mod 2048"
proof -
  have "w AND 0x7FF = take_bit 11 w"
    by (simp add: take_bit_eq_mask mask_eq_exp_minus_1)
  then show ?thesis
    by (simp add: ul_ecat_unpack_len_def take_bit_eq_mod unat_mod)
qed

lemma unat_unpack_len: "unat (ul_ecat_unpack_len w) \<le> 2047"
  using unat_unpack_len_mod [of w] by simp

lemma unpack_len_small [simp]: "unat l \<le> 2047 \<Longrightarrow> ul_ecat_unpack_len l = l"
  by (simp add: word_unat_eq_iff unat_unpack_len_mod)

lemma pack_len_irq_small [simp]: "unat l \<le> 2047 \<Longrightarrow> ul_ecat_pack_len_irq l irq = l"
  using unpack_len_small [of l]
  by (simp add: ul_ecat_pack_len_irq_def Let_def ul_ecat_unpack_len_def word_less_nat_alt)

lemma unpack_pack: "unat (ul_ecat_unpack_len (ul_ecat_pack_len_irq l irq)) = min (unat l) 2047"
proof (cases "unat l \<le> 2047")
  case True
  then show ?thesis by simp
next
  case False
  then show ?thesis
    by (simp add: ul_ecat_pack_len_irq_def ul_ecat_unpack_len_def word_less_nat_alt)
qed

lemma raw_len_ge: "12 \<le> raw_len dg"
  by (simp add: raw_len_def ul_ecat_dgram_wire_size_def)

lemma raw_len_take: "12 \<le> n \<Longrightarrow> raw_len (take n dg) = raw_len dg"
  by (simp add: raw_len_def r16_le_def)

lemma raw_len_append: "12 \<le> length dg \<Longrightarrow> raw_len (dg @ rest) = raw_len dg"
  by (simp add: raw_len_def r16_le_def nth_append)

section \<open>The walks and the reference split\<close>

lemma pdu_split_Nil [simp]: "pdu_split [] = Some []"
  by (simp add: pdu_split.simps)

lemma pdu_split_short: "length p < 12 \<Longrightarrow> p \<noteq> [] \<Longrightarrow> pdu_split p = None"
  by (simp add: pdu_split.simps)

lemma pdu_split_long:
  "12 \<le> length p \<Longrightarrow> raw_len p \<le> length p \<Longrightarrow>
     pdu_split p = map_option ((#) (take (raw_len p) p)) (pdu_split (drop (raw_len p) p))"
  by (subst pdu_split.simps) simp

lemma pdu_split_truncated: "12 \<le> length p \<Longrightarrow> length p < raw_len p \<Longrightarrow> pdu_split p = None"
  by (simp add: pdu_split.simps)

lemma pdu_split_parts:
  "pdu_split p = Some cs \<Longrightarrow>
     concat cs = p \<and> (\<forall>c \<in> set cs. 12 \<le> length c \<and> raw_len c = length c)"
proof (induction p arbitrary: cs rule: pdu_split.induct)
  case (1 p)
  show ?case
  proof (cases "length p < 12")
    case True
    with 1(2) show ?thesis by (cases "p = []") (auto simp: pdu_split_short)
  next
    case long: False
    show ?thesis
    proof (cases "raw_len p > length p")
      case True
      with long 1(2) show ?thesis by (simp add: pdu_split_truncated)
    next
      case False
      with long 1(2) obtain cs' where cs': "pdu_split (drop (raw_len p) p) = Some cs'"
        and cs: "cs = take (raw_len p) p # cs'"
        by (auto simp: pdu_split_long)
      from 1(1) [OF long False cs'] cs show ?thesis
        using False raw_len_ge [of p] by (auto simp: raw_len_take)
    qed
  qed
qed

lemma count_from_split:
  "off \<le> length p \<Longrightarrow>
     count_from p off c = map_option (\<lambda>cs. c + length cs) (pdu_split (drop off p))"
proof (induction p off c rule: count_from.induct)
  case (1 p off c)
  let ?dg = "drop off p"
  show ?case
  proof (cases "off + 12 \<le> length p")
    case short: False
    with 1(2) show ?thesis
      by (subst count_from.simps) (auto simp: pdu_split_short)
  next
    case long: True
    show ?thesis
    proof (cases "raw_len ?dg > length p - off")
      case True
      with long show ?thesis
        by (subst count_from.simps) (simp add: pdu_split_truncated flip: raw_len_def)
    next
      case False
      with long have "count_from p (off + raw_len ?dg) (c + 1)
          = map_option (\<lambda>cs. c + 1 + length cs) (pdu_split (drop (off + raw_len ?dg) p))"
        by (intro 1(1)) (auto simp: raw_len_def)
      with long False show ?thesis
        by (subst count_from.simps)
           (simp add: pdu_split_long add.commute option.map_comp comp_def flip: raw_len_def)
    qed
  qed
qed

lemma count_datagrams_split:
  "ul_ecat_pdu_count_datagrams p = map_option length (pdu_split p)"
  by (simp add: ul_ecat_pdu_count_datagrams_def count_from_split)

lemma parse_one_dgram_append:
  assumes "raw_len c = length c"
  shows "parse_one_dgram (c @ rest) cap = parse_one_dgram c cap"
proof -
  have l: "12 \<le> length c" using assms raw_len_ge [of c] by simp
  have u: "ul_ecat_unpack_len (r16_le (c @ rest) 6) = ul_ecat_unpack_len (r16_le c 6)"
    using l by (simp add: r16_le_def nth_append)
  have n: "length c = 12 + unat (ul_ecat_unpack_len (r16_le c 6))"
    using assms by (simp add: raw_len_def ul_ecat_dgram_wire_size_def)
  show ?thesis
    using l n unfolding parse_one_dgram_def u
    by (simp add: ul_ecat_dgram_wire_size_def r16_le_def nth_append slice_def Let_def
             split: option.split)
qed

lemma parse_one_dgram_take:
  assumes "raw_len c \<le> length c"
  shows "parse_one_dgram (take (raw_len c) c) cap = parse_one_dgram c cap"
proof -
  have "parse_one_dgram (take (raw_len c) c @ drop (raw_len c) c) cap
      = parse_one_dgram (take (raw_len c) c) cap"
    using assms by (intro parse_one_dgram_append) (simp add: raw_len_take raw_len_ge)
  then show ?thesis by (simp only: append_take_drop_id)
qed

lemma parse_one_dgram_total:
  "parse_one_dgram c cap = Some (d, n) \<Longrightarrow> n = raw_len c"
  by (auto simp: parse_one_dgram_def raw_len_def Let_def split: if_splits option.splits)

lemma dgram_parse_from_split:
  "off \<le> length p \<Longrightarrow> pdu_split (drop off p) = Some cs \<Longrightarrow>
     dgram_parse_from p off i cap =
       (if i < length cs then map_option fst (parse_one_dgram (cs ! i) cap) else None)"
proof (induction i arbitrary: off cs)
  case (0 off cs)
  show ?case
  proof (cases "off + 12 \<le> length p")
    case False
    with 0 have "cs = []" by (cases "drop off p = []") (auto simp: pdu_split_short)
    with False show ?thesis by (simp add: dgram_parse_from.simps)
  next
    case True
    with 0 have le: "raw_len (drop off p) \<le> length p - off"
      by (cases "raw_len (drop off p) \<le> length p - off") (auto simp: pdu_split_truncated)
    with 0 True obtain cs' where cs: "cs = take (raw_len (drop off p)) (drop off p) # cs'"
      by (auto simp: pdu_split_long)
    from True le cs show ?thesis
      by (simp add: dgram_parse_from.simps parse_one_dgram_take flip: raw_len_def)
  qed
next
  case (Suc i off cs)
  show ?case
  proof (cases "off + 12 \<le> length p")
    case False
    with Suc(2,3) have "cs = []" by (cases "drop off p = []") (auto simp: pdu_split_short)
    with False show ?thesis by (simp add: dgram_parse_from.simps)
  next
    case True
    with Suc(3) have le: "raw_len (drop off p) \<le> length p - off"
      by (cases "raw_len (drop off p) \<le> length p - off") (auto simp: pdu_split_truncated)
    with Suc(3) True obtain cs' where cs: "cs = take (raw_len (drop off p)) (drop off p) # cs'"
      and cs': "pdu_split (drop (off + raw_len (drop off p)) p) = Some cs'"
      by (auto simp: pdu_split_long add.commute)
    have "dgram_parse_from p (off + raw_len (drop off p)) i cap =
        (if i < length cs' then map_option fst (parse_one_dgram (cs' ! i) cap) else None)"
      using True le cs' by (intro Suc.IH) auto
    with True le cs show ?thesis
      by (simp add: dgram_parse_from.simps flip: raw_len_def)
  qed
qed

lemma dgram_parse_split:
  "pdu_split p = Some cs \<Longrightarrow>
     ul_ecat_dgram_parse p i cap =
       (if i < length cs then map_option fst (parse_one_dgram (cs ! i) cap) else None)"
  by (simp add: ul_ecat_dgram_parse_def dgram_parse_from_split)

section \<open>Encoding and the reference layout\<close>

lemma length_dgram_bytes: "length (dgram_bytes d) = 12 + length (d_data d)"
  by (simp add: dgram_bytes_def)

lemma encode_dgram_bytes:
  "valid_dgram d \<Longrightarrow>
     ul_ecat_dgram_encode cap (d_cmd d) (d_index d) (d_adp d) (d_ado d) (d_len d) (d_irq d)
        (d_wkc d) (Some (d_data d))
      = (if length (dgram_bytes d) \<le> cap then Some (dgram_bytes d) else None)"
  by (simp add: ul_ecat_dgram_encode_def valid_dgram_def ul_ecat_dgram_wire_size_def
      dgram_bytes_def)

lemma encode_fits:
  "ul_ecat_dgram_encode cap cmd idx adp ado len irq wkc data = Some out \<Longrightarrow>
     (\<forall>d. data = Some d \<longrightarrow> unat len \<le> length d) \<Longrightarrow>
     length out = ul_ecat_dgram_wire_size len \<and> length out \<le> cap"
  by (auto simp: ul_ecat_dgram_encode_def Let_def ul_ecat_dgram_wire_size_def
      split: if_splits option.splits)

lemma raw_len_dgram_bytes: "valid_dgram d \<Longrightarrow> raw_len (dgram_bytes d) = length (dgram_bytes d)"
  by (simp add: raw_len_def dgram_bytes_def r16_le_def le16_def of_le16_bytes
      valid_dgram_def ul_ecat_dgram_wire_size_def nth_Cons')

lemma parse_dgram_bytes:
  assumes "valid_dgram d"
  shows "parse_one_dgram (dgram_bytes d) cap =
    (case cap of
       None \<Rightarrow> Some (d\<lparr>d_data := []\<rparr>, length (dgram_bytes d))
     | Some n \<Rightarrow> if length (d_data d) \<le> n then Some (d, length (dgram_bytes d)) else None)"
proof -
  have len: "length (d_data d) = unat (d_len d)" "unat (d_len d) \<le> 1498"
    using assms by (simp_all add: valid_dgram_def)
  have fields: "r16_le (dgram_bytes d) 2 = d_adp d" "r16_le (dgram_bytes d) 4 = d_ado d"
    "r16_le (dgram_bytes d) 6 = d_len d" "r16_le (dgram_bytes d) 8 = d_irq d"
    "r16_le (dgram_bytes d) (10 + unat (d_len d)) = d_wkc d"
    "dgram_bytes d ! 0 = d_cmd d" "dgram_bytes d ! 1 = d_index d"
    using len by (simp_all add: dgram_bytes_def r16_le_def le16_def of_le16_bytes nth_Cons' nth_append)
  have data: "slice 10 (unat (d_len d)) (dgram_bytes d) = d_data d"
    using len by (simp add: dgram_bytes_def slice_def le16_def)
  have z: "d_len d > 0 \<longleftrightarrow> d_data d \<noteq> []"
    using len by (metis length_0_conv unat_0 unat_eq_zero word_gt_0)
  show ?thesis
    using len data z by (cases cap)
      (auto simp: parse_one_dgram_def Let_def fields [simplified] length_dgram_bytes
        ul_ecat_dgram_wire_size_def not_less word_gt_0)
qed

lemma pdu_split_dgrams:
  "\<forall>d \<in> set ds. valid_dgram d \<Longrightarrow>
     pdu_split (concat (map dgram_bytes ds)) = Some (map dgram_bytes ds)"
proof (induction ds)
  case Nil
  show ?case by simp
next
  case (Cons d ds)
  then have "raw_len (dgram_bytes d @ concat (map dgram_bytes ds)) = length (dgram_bytes d)"
    by (simp add: raw_len_append raw_len_dgram_bytes length_dgram_bytes)
  with Cons show ?case
    by (simp add: pdu_split_long length_dgram_bytes)
qed

section \<open>The codec contract\<close>

text \<open>
  What the slave's datagram processing and the master's exchanges need from the wire format:
  an area that is the concatenation of encodings of admissible datagrams is cut into exactly
  those encodings, and each decodes to the datagram it came from.
\<close>

locale dgram_codec =
  fixes enc :: "'d \<Rightarrow> bytes"
    and ok :: "'d \<Rightarrow> bool"
    and cut :: "bytes \<Rightarrow> bytes list option"
    and dec :: "bytes \<Rightarrow> 'd option"
  assumes cut_enc: "\<forall>d \<in> set ds. ok d \<Longrightarrow> cut (concat (map enc ds)) = Some (map enc ds)"
    and dec_enc: "ok d \<Longrightarrow> dec (enc d) = Some d"
begin

definition decode_area :: "bytes \<Rightarrow> 'd list option" where
  "decode_area p = Option.bind (cut p) (\<lambda>cs. those (map dec cs))"

lemma those_dec: "\<forall>d \<in> set ds. ok d \<Longrightarrow> those (map (dec \<circ> enc) ds) = Some ds"
  by (induction ds) (simp_all add: dec_enc)

lemma decode_area_enc: "\<forall>d \<in> set ds. ok d \<Longrightarrow> decode_area (concat (map enc ds)) = Some ds"
  by (simp add: decode_area_def cut_enc those_dec)

lemma area_injective:
  "\<forall>d \<in> set ds. ok d \<Longrightarrow> \<forall>d \<in> set es. ok d \<Longrightarrow>
     concat (map enc ds) = concat (map enc es) \<Longrightarrow> ds = es"
  by (metis decode_area_enc option.inject)

end

definition decode_dgram :: "bytes \<Rightarrow> dgram option" where
  "decode_dgram c = map_option fst (parse_one_dgram c (Some UL_ECAT_DGRAM_MAX_DATA))"

interpretation wire: dgram_codec dgram_bytes valid_dgram pdu_split decode_dgram
proof unfold_locales
  show "\<forall>d \<in> set ds. valid_dgram d \<Longrightarrow>
      pdu_split (concat (map dgram_bytes ds)) = Some (map dgram_bytes ds)" for ds
    by (rule pdu_split_dgrams)
  show "valid_dgram d \<Longrightarrow> decode_dgram (dgram_bytes d) = Some d" for d
    by (simp add: decode_dgram_def parse_dgram_bytes) (simp add: valid_dgram_def)
qed

section \<open>Frames\<close>

lemma ethertype_bytes:
  "push_bit 8 (ucast (0x88 :: byte)) OR ucast (0xA4 :: byte) = UL_ECAT_ETHERTYPE"
  by simp

lemma build_parse_frame:
  assumes "ul_ecat_build_eth_frame dst src p cap = Some f" "length dst = 6" "length src = 6"
  shows "ul_ecat_parse_eth_frame (f @ pad) = Some p" "slice 6 6 f = src" "take 6 f = dst"
    "length f = 18 + length p" "length f \<le> cap"
proof -
  have len: "18 + length p \<le> cap" "length p \<le> 1498"
    and f: "f = dst @ src @ [0x88, 0xA4] @ le16 (word_of_nat (2 + length p)) @ le16 0 @ p"
    using assms by (auto simp: ul_ecat_build_eth_frame_def Let_def split: if_splits)
  have n: "unat (word_of_nat (2 + length p) :: u16) = 2 + length p"
    using len by (subst unat_of_nat) simp
  have et: "f ! 12 = 0x88" "f ! 13 = 0xA4"
    by (simp_all add: f nth_append assms)
  have l: "r16_le (f @ pad) 14 = word_of_nat (2 + length p)"
    by (simp add: f r16_le_def nth_append assms le16_def of_le16_bytes)
  have ge: "\<not> (word_of_nat (2 + length p) :: u16) < 2"
    using n by (simp add: word_less_nat_alt)
  show "ul_ecat_parse_eth_frame (f @ pad) = Some p"
    unfolding ul_ecat_parse_eth_frame_def Let_def l
    using ge n by (simp add: et nth_append) (simp add: f slice_def assms)
  show "slice 6 6 f = src" "take 6 f = dst" "length f = 18 + length p" "length f \<le> cap"
    using len by (simp_all add: f assms slice_def)
qed

section \<open>Properties\<close>

text \<open>
  Property C19. Datagrams encoded one after the other into a PDU area are counted by the walk and
  parsed back one by one, each at its index, with every field and data byte; an index past the
  last one is refused.
\<close>

theorem dgram_encode_parse_roundtrip:
  assumes "\<forall>d \<in> set ds. valid_dgram d"
    and "list_all2 (\<lambda>d e. ul_ecat_dgram_encode cap (d_cmd d) (d_index d) (d_adp d) (d_ado d) (d_len d)
           (d_irq d) (d_wkc d) (Some (d_data d)) = Some e) ds es"
  shows "ul_ecat_pdu_count_datagrams (concat es) = Some (length ds) \<and>
    ul_ecat_dgram_parse (concat es) i (Some UL_ECAT_DGRAM_MAX_DATA)
      = (if i < length ds then Some (ds ! i) else None)"
proof -
  have "es = map dgram_bytes ds"
    using assms by (induction rule: list_all2_induct [OF assms(2)])
      (auto simp: encode_dgram_bytes [simplified] split: if_splits)
  with pdu_split_dgrams [OF assms(1)] show ?thesis
    using assms(1)
    by (auto simp: count_datagrams_split dgram_parse_split parse_dgram_bytes valid_dgram_def)
qed

text \<open>
  The two walks over a PDU area agree: when the counting walk accepts an area of at
  most 1498 bytes with n datagrams, their wire sizes add up to the area, the parsing walk finds a
  datagram header at every index below n and refuses every other index.
\<close>

theorem pdu_walks_agree:
  assumes "ul_ecat_pdu_count_datagrams p = Some n" "length p \<le> UL_ECAT_MAX_EC_PAYLOAD"
  shows "\<exists>ds. length ds = n \<and> sum_list (map (ul_ecat_dgram_wire_size \<circ> d_len) ds) = length p \<and>
    (\<forall>i. ul_ecat_dgram_parse p i None = (if i < n then Some (ds ! i) else None))"
proof -
  obtain cs where cs: "pdu_split p = Some cs" "n = length cs"
    using assms by (auto simp: count_datagrams_split)
  have parts: "concat cs = p" "\<forall>c \<in> set cs. 12 \<le> length c \<and> raw_len c = length c"
    using pdu_split_parts [OF cs(1)] by auto
  define ds where "ds = map (the \<circ> map_option fst \<circ> (\<lambda>c. parse_one_dgram c None)) cs"
  have one: "map_option fst (parse_one_dgram c None) = Some (the (map_option fst (parse_one_dgram c None))) \<and>
      ul_ecat_dgram_wire_size (d_len (the (map_option fst (parse_one_dgram c None)))) = length c"
    if "c \<in> set cs" for c
  proof -
    from that have "length c \<le> length p" using parts(1) by (auto simp: in_set_conv_decomp)
    then show ?thesis
      using parts(2) that assms(2)
      by (auto simp: parse_one_dgram_def raw_len_def Let_def ul_ecat_dgram_wire_size_def)
  qed
  have "sum_list (map (ul_ecat_dgram_wire_size \<circ> d_len) ds) = length (concat cs)"
    using one by (simp add: ds_def length_concat o_def cong: map_cong)
  moreover have "\<forall>i. ul_ecat_dgram_parse p i None = (if i < n then Some (ds ! i) else None)"
    using one by (auto simp: dgram_parse_split [OF cs(1)] cs(2) ds_def)
  moreover have "length ds = n" using cs(2) by (simp add: ds_def)
  ultimately show ?thesis using parts(1) by blast
qed

text \<open>
  A frame built around a payload of at most 1498 bytes parses back to that payload,
  whatever padding follows it on the wire, with both addresses in place; the builder writes 18
  bytes more than the payload and never more than the capacity it was given.
\<close>

theorem eth_frame_roundtrip:
  assumes "length p \<le> UL_ECAT_MAX_EC_PAYLOAD" "18 + length p \<le> cap" "length dst = 6" "length src = 6"
  shows "\<exists>f. ul_ecat_build_eth_frame dst src p cap = Some f \<and> length f = 18 + length p \<and>
    take 6 f = dst \<and> slice 6 6 f = src \<and> ul_ecat_parse_eth_frame (f @ pad) = Some p"
proof -
  obtain f where f: "ul_ecat_build_eth_frame dst src p cap = Some f"
    using assms by (auto simp: ul_ecat_build_eth_frame_def Let_def)
  with build_parse_frame [OF f assms(3,4)] show ?thesis by auto
qed

text \<open>
  The length word loses nothing up to 2047 and saturates above, and carries no
  interrupt bits whatever interrupt value is passed.
\<close>

theorem len_word_saturates:
  "unat (ul_ecat_unpack_len (ul_ecat_pack_len_irq l irq)) = min (unat l) 2047 \<and>
   ul_ecat_pack_len_irq l irq AND 0xF800 = 0 \<and>
   ul_ecat_pack_len_irq l irq = ul_ecat_pack_len_irq l irq'"
proof -
  have "(w AND 0x7FF) AND 0xF800 = 0" for w :: u16
    by (simp only: word_bw_assocs) simp
  then have "ul_ecat_pack_len_irq l irq AND 0xF800 = 0"
    "ul_ecat_pack_len_irq l irq = ul_ecat_pack_len_irq l irq'"
    by (simp_all add: ul_ecat_pack_len_irq_def)
  with unpack_pack show ?thesis by blast
qed

definition demo_dgrams :: "dgram list" where
  "demo_dgrams =
     [\<lparr>d_cmd = 5, d_index = 1, d_adp = 0x1000, d_ado = 0x120, d_len = 2, d_irq = 0, d_wkc = 0, d_data = [2, 0]\<rparr>,
      \<lparr>d_cmd = 4, d_index = 2, d_adp = 0x1000, d_ado = 0x130, d_len = 3, d_irq = 0, d_wkc = 0, d_data = [0, 0, 7]\<rparr>]"

lemma demo_dgrams_valid: "\<forall>d \<in> set demo_dgrams. valid_dgram d"
  by (simp add: demo_dgrams_def valid_dgram_def)

theorem dgram_encode_parse_roundtrip_witness:
  "ul_ecat_pdu_count_datagrams (concat (map dgram_bytes demo_dgrams)) = Some 2 \<and>
   ul_ecat_dgram_parse (concat (map dgram_bytes demo_dgrams)) 1 (Some 1498) = Some (demo_dgrams ! 1)"
proof -
  have "list_all2 (\<lambda>d e. ul_ecat_dgram_encode 100 (d_cmd d) (d_index d) (d_adp d) (d_ado d) (d_len d)
      (d_irq d) (d_wkc d) (Some (d_data d)) = Some e) demo_dgrams (map dgram_bytes demo_dgrams)"
    using demo_dgrams_valid
    by (simp add: demo_dgrams_def encode_dgram_bytes [simplified, of "demo_dgrams ! 0", simplified demo_dgrams_def, simplified]
      ul_ecat_dgram_encode_def Let_def ul_ecat_dgram_wire_size_def dgram_bytes_def)
  from dgram_encode_parse_roundtrip [OF demo_dgrams_valid this, of 1] show ?thesis
    by (simp add: demo_dgrams_def)
qed

theorem pdu_walks_agree_witness:
  "\<exists>ds. length ds = 2 \<and> sum_list (map (ul_ecat_dgram_wire_size \<circ> d_len) ds) = 29 \<and>
     ul_ecat_dgram_parse (concat (map dgram_bytes demo_dgrams)) 0 None = Some (ds ! 0)"
proof -
  have "length demo_dgrams = 2" "length (concat (map dgram_bytes demo_dgrams)) = 29"
    by (simp_all add: demo_dgrams_def length_dgram_bytes)
  then show ?thesis
    using pdu_walks_agree [of "concat (map dgram_bytes demo_dgrams)" 2]
      pdu_split_dgrams [OF demo_dgrams_valid]
    by (auto simp: count_datagrams_split)
qed

theorem eth_frame_roundtrip_witness:
  "\<exists>f. ul_ecat_build_eth_frame [1, 2, 3, 4, 5, 6] [7, 8, 9, 10, 11, 12] [0xAA, 0xBB] 60 = Some f \<and>
     length f = 20 \<and> ul_ecat_parse_eth_frame (f @ replicate 40 0) = Some [0xAA, 0xBB]"
  using eth_frame_roundtrip [of "[0xAA, 0xBB]" 60 "[1, 2, 3, 4, 5, 6]" "[7, 8, 9, 10, 11, 12]" "replicate 40 0"]
  by auto

end
