(* ===== verification/Esc.thy ===== *)
theory Esc
  imports Prelude
begin

text \<open>
  The slave's register file: \<open>src/slave/ul_ecat_esc.c\<close> with the register map of
  \<open>include/ul_ecat_esc_regs.h\<close>, the AL word helpers of \<open>src/common/ul_ecat_al.c\<close>, and the
  initialisation and reset of \<open>src/slave/ul_ecat_slave.c\<close>.

  The 4096-byte mirror \<open>esc[]\<close> is a \<^typ>\<open>mem\<close>. The C array has no byte at or above
  \<open>UL_ECAT_SLAVE_ESC_SIZE\<close>; the model's function is total, and every write of the model is shown
  to leave those addresses alone (\<open>same_above\<close>), which is the array-bounds safety of the writes.
  The contract of a bounded register file is the locale \<open>reg_file\<close>.
\<close>

section \<open>Register map\<close>

abbreviation UL_ECAT_SLAVE_ESC_SIZE :: nat where "UL_ECAT_SLAVE_ESC_SIZE \<equiv> 4096"
abbreviation UL_ECAT_ESC_REG_STADR :: nat where "UL_ECAT_ESC_REG_STADR \<equiv> 0x0010"
abbreviation UL_ECAT_ESC_REG_VENDOR :: nat where "UL_ECAT_ESC_REG_VENDOR \<equiv> 0x0012"
abbreviation UL_ECAT_ESC_REG_PRODUCT :: nat where "UL_ECAT_ESC_REG_PRODUCT \<equiv> 0x0016"
abbreviation UL_ECAT_ESC_REG_REV :: nat where "UL_ECAT_ESC_REG_REV \<equiv> 0x001A"
abbreviation UL_ECAT_ESC_REG_SERIAL :: nat where "UL_ECAT_ESC_REG_SERIAL \<equiv> 0x001E"
abbreviation UL_ECAT_ESC_REG_ALCTL :: nat where "UL_ECAT_ESC_REG_ALCTL \<equiv> 0x0120"
abbreviation UL_ECAT_ESC_REG_ALSTAT :: nat where "UL_ECAT_ESC_REG_ALSTAT \<equiv> 0x0130"
abbreviation UL_ECAT_ESC_REG_ALSTACODE :: nat where "UL_ECAT_ESC_REG_ALSTACODE \<equiv> 0x0134"
abbreviation UL_ECAT_ESC_REG_ALEVENT :: nat where "UL_ECAT_ESC_REG_ALEVENT \<equiv> 0x0220"
abbreviation UL_ECAT_ESC_REG_SM0 :: nat where "UL_ECAT_ESC_REG_SM0 \<equiv> 0x0800"
abbreviation UL_ECAT_ESC_SM_SIZE :: nat where "UL_ECAT_ESC_SM_SIZE \<equiv> 8"
abbreviation UL_ECAT_ESC_REG_DCSYS0 :: nat where "UL_ECAT_ESC_REG_DCSYS0 \<equiv> 0x0910"

abbreviation UL_ECAT_AL_MASK_STATE :: u16 where "UL_ECAT_AL_MASK_STATE \<equiv> 0x000F"
abbreviation UL_ECAT_AL_CTRL_ACK :: u16 where "UL_ECAT_AL_CTRL_ACK \<equiv> 0x0010"
abbreviation UL_ECAT_AL_STAT_ERR :: u16 where "UL_ECAT_AL_STAT_ERR \<equiv> 0x0010"

section \<open>AL control and status words\<close>

definition ul_ecat_al_control_word :: "byte \<Rightarrow> bool \<Rightarrow> u16" where
  "ul_ecat_al_control_word state_nibble ack =
     (let w = ucast state_nibble AND UL_ECAT_AL_MASK_STATE in
      if ack then w OR UL_ECAT_AL_CTRL_ACK else w)"

definition ul_ecat_al_status_state :: "u16 \<Rightarrow> byte" where
  "ul_ecat_al_status_state al_status = ucast (al_status AND UL_ECAT_AL_MASK_STATE)"

definition ul_ecat_al_status_error_indicated :: "u16 \<Rightarrow> bool" where
  "ul_ecat_al_status_error_indicated al_status \<longleftrightarrow> al_status AND UL_ECAT_AL_STAT_ERR \<noteq> 0"

section \<open>Identity and slave state\<close>

record slave_identity =
  vendor_id :: u32
  product_code :: u32
  revision :: u32
  serial :: u32

record slave =
  esc :: mem
  mac :: bytes
  logical_position :: u16

section \<open>Register access\<close>

definition ul_ecat_esc_apply_identity :: "mem \<Rightarrow> slave_identity \<Rightarrow> mem" where
  "ul_ecat_esc_apply_identity e ident =
     (let e1 = mem_write e UL_ECAT_ESC_REG_VENDOR (le32 (vendor_id ident));
          e2 = mem_write e1 UL_ECAT_ESC_REG_PRODUCT (le32 (product_code ident));
          e3 = mem_write e2 UL_ECAT_ESC_REG_REV (le32 (revision ident)) in
      mem_write e3 UL_ECAT_ESC_REG_SERIAL (le32 (serial ident)))"

definition ul_ecat_esc_set_al_status_init :: "mem \<Rightarrow> mem" where
  "ul_ecat_esc_set_al_status_init e =
     e(UL_ECAT_ESC_REG_ALSTAT := 0x01, UL_ECAT_ESC_REG_ALSTAT + 1 := 0x00,
       UL_ECAT_ESC_REG_ALSTACODE := 0x00, UL_ECAT_ESC_REG_ALSTACODE + 1 := 0x00)"

definition ul_ecat_esc_read :: "mem \<Rightarrow> u16 \<Rightarrow> nat \<Rightarrow> bytes option" where
  "ul_ecat_esc_read e ado len =
     (if unat ado + len > UL_ECAT_SLAVE_ESC_SIZE \<or> len = 0 then None
      else Some (mem_read e (unat ado) len))"

definition ul_ecat_esc_write :: "mem \<Rightarrow> u16 \<Rightarrow> bytes \<Rightarrow> mem option" where
  "ul_ecat_esc_write e ado src =
     (if unat ado + length src > UL_ECAT_SLAVE_ESC_SIZE \<or> length src = 0 then None
      else Some (mem_write e (unat ado) src))"

definition ul_ecat_esc_read_u16_le :: "mem \<Rightarrow> u16 \<Rightarrow> u16" where
  "ul_ecat_esc_read_u16_le e ado =
     (if unat ado + 2 > UL_ECAT_SLAVE_ESC_SIZE then 0
      else of_le16 (e (unat ado)) (e (unat ado + 1)))"

definition ul_ecat_slave_init :: "bytes \<Rightarrow> slave_identity \<Rightarrow> slave" where
  "ul_ecat_slave_init m ident =
     \<lparr>esc = ul_ecat_esc_set_al_status_init (ul_ecat_esc_apply_identity (\<lambda>_. 0) ident),
      mac = take 6 m, logical_position = 0\<rparr>"

definition ul_ecat_slave_reset :: "slave \<Rightarrow> slave_identity \<Rightarrow> slave" where
  "ul_ecat_slave_reset s ident =
     s\<lparr>esc := ul_ecat_esc_set_al_status_init (ul_ecat_esc_apply_identity (\<lambda>_. 0) ident)\<rparr>"

section \<open>Bounds\<close>

definition same_above :: "mem \<Rightarrow> mem \<Rightarrow> bool" where
  "same_above e e' \<longleftrightarrow> (\<forall>i \<ge> UL_ECAT_SLAVE_ESC_SIZE. e' i = e i)"

lemma same_above_refl [simp]: "same_above e e"
  by (simp add: same_above_def)

lemma same_above_trans: "same_above a b \<Longrightarrow> same_above b c \<Longrightarrow> same_above a c"
  by (simp add: same_above_def)

lemma same_above_upd [simp]: "a < UL_ECAT_SLAVE_ESC_SIZE \<Longrightarrow> same_above e (e(a := b))"
  by (simp add: same_above_def)

lemma same_above_write:
  "a + length bs \<le> UL_ECAT_SLAVE_ESC_SIZE \<Longrightarrow> same_above e (mem_write e a bs)"
  by (simp add: same_above_def mem_write_outside)

section \<open>The contract of a bounded register file\<close>

locale reg_file =
  fixes rd :: "'m \<Rightarrow> u16 \<Rightarrow> nat \<Rightarrow> bytes option"
    and wr :: "'m \<Rightarrow> u16 \<Rightarrow> bytes \<Rightarrow> 'm option"
    and size :: nat
  assumes rd_accepts: "rd m a n \<noteq> None \<longleftrightarrow> unat a + n \<le> size \<and> n \<noteq> 0"
    and wr_accepts: "wr m a bs \<noteq> None \<longleftrightarrow> unat a + length bs \<le> size \<and> bs \<noteq> []"
    and rd_length: "rd m a n = Some bs \<Longrightarrow> length bs = n"
    and rd_wr: "wr m a bs = Some m' \<Longrightarrow> rd m' a (length bs) = Some bs"
    and rd_wr_disjoint:
      "wr m a bs = Some m' \<Longrightarrow> unat b + n \<le> unat a \<or> unat a + length bs \<le> unat b \<Longrightarrow>
         rd m' b n = rd m b n"
begin

lemma rd_SomeD: "rd m a n = Some bs \<Longrightarrow> unat a + n \<le> size \<and> n \<noteq> 0 \<and> length bs = n"
  using rd_accepts [of m a n] rd_length [of m a n bs] by simp

lemma wr_SomeD: "wr m a bs = Some m' \<Longrightarrow> unat a + length bs \<le> size \<and> bs \<noteq> []"
  using wr_accepts [of m a bs] by simp

lemma write_then_read:
  "unat a + length bs \<le> size \<Longrightarrow> bs \<noteq> [] \<Longrightarrow> \<exists>m'. wr m a bs = Some m' \<and> rd m' a (length bs) = Some bs"
  using wr_accepts [of m a bs] rd_wr [of m a bs] by (cases "wr m a bs") auto

lemma last_write_wins:
  "wr m a bs = Some m1 \<Longrightarrow> wr m1 a cs = Some m2 \<Longrightarrow> length cs = length bs \<Longrightarrow>
     rd m2 a (length bs) = Some cs"
  using rd_wr [of m1 a cs m2] by simp

lemma writes_commute_read:
  "wr m a bs = Some m1 \<Longrightarrow> wr m1 b cs = Some m2 \<Longrightarrow>
     unat a + length bs \<le> unat b \<or> unat b + length cs \<le> unat a \<Longrightarrow>
     rd m2 a (length bs) = Some bs \<and> rd m2 b (length cs) = Some cs"
  using rd_wr [of m a bs m1] rd_wr [of m1 b cs m2] rd_wr_disjoint [of m1 b cs m2 a "length bs"]
  by auto

end

interpretation esc: reg_file ul_ecat_esc_read ul_ecat_esc_write UL_ECAT_SLAVE_ESC_SIZE
  by unfold_locales
     (auto simp: ul_ecat_esc_read_def ul_ecat_esc_write_def mem_write_same mem_write_disjoint
       split: if_splits)

lemma esc_write_mem: "ul_ecat_esc_write e a bs = Some e' \<Longrightarrow> e' = mem_write e (unat a) bs"
  by (simp add: ul_ecat_esc_write_def split: if_splits)

lemma esc_read_mem: "ul_ecat_esc_read e a n = Some bs \<Longrightarrow> bs = mem_read e (unat a) n"
  by (simp add: ul_ecat_esc_read_def split: if_splits)

lemma esc_write_same_above: "ul_ecat_esc_write e a bs = Some e' \<Longrightarrow> same_above e e'"
  using esc.wr_SomeD [of e a bs e'] by (auto dest: esc_write_mem intro: same_above_write)

lemma read_u16_reg:
  "unat a + 2 \<le> UL_ECAT_SLAVE_ESC_SIZE \<Longrightarrow>
     ul_ecat_esc_read_u16_le e a = of_le16 (e (unat a)) (e (Suc (unat a)))"
  by (simp add: ul_ecat_esc_read_u16_le_def)

section \<open>Facts about the AL words\<close>

lemma bit_state_mask: "bit (0xF :: int) n \<longleftrightarrow> n < 4"
proof -
  have "(0xF :: int) = mask 4" by (simp add: mask_eq_exp_minus_1)
  then show ?thesis by (simp only: bit_mask_iff) simp
qed

lemma bit_flag4: "bit (0x10 :: int) n \<longleftrightarrow> n = 4"
proof -
  have "(0x10 :: int) = 2 ^ 4" by simp
  then show ?thesis by (simp only: bit_exp_iff) auto
qed

lemma al_status_state_lt: "unat (ul_ecat_al_status_state w) < 16"
proof -
  have "w AND UL_ECAT_AL_MASK_STATE \<le> 15" by (rule word_and_le1)
  then have "unat (w AND UL_ECAT_AL_MASK_STATE) \<le> 15" by (simp add: word_le_nat_alt)
  then show ?thesis
    by (simp add: ul_ecat_al_status_state_def unsigned_ucast_eq take_bit_eq_mod)
qed

lemma control_word_state:
  "ul_ecat_al_status_state (ul_ecat_al_control_word n ack) = n AND 0xF"
  by (rule bit_word_eqI)
     (auto simp: ul_ecat_al_status_state_def ul_ecat_al_control_word_def Let_def
       bit_state_mask bit_flag4 bit_simps)

lemma flag4_set: "w AND (0x10 :: 'a::len word) \<noteq> 0 \<longleftrightarrow> bit w 4"
proof
  assume "w AND 0x10 \<noteq> 0"
  moreover have "\<not> bit w 4 \<Longrightarrow> w AND 0x10 = 0"
    by (rule bit_word_eqI) (auto simp: bit_simps bit_flag4)
  ultimately show "bit w 4" by blast
next
  assume b: "bit w 4"
  then have "bit (w AND 0x10) 4"
    by (simp add: bit_simps bit_flag4 bit_imp_le_length)
  then show "w AND 0x10 \<noteq> 0" by auto
qed

lemma control_word_ack: "ul_ecat_al_control_word n ack AND UL_ECAT_AL_CTRL_ACK \<noteq> 0 \<longleftrightarrow> ack"
  by (subst flag4_set)
     (simp add: ul_ecat_al_control_word_def Let_def bit_state_mask bit_flag4 bit_simps)

end
