(* ===== verification/SyncManager.thy ===== *)
theory SyncManager
  imports Esc
begin

text \<open>
  SyncManager configuration as read back from the register mirror: \<open>src/slave/ul_ecat_slave_sm.h\<close>.
  Each SyncManager \<open>i\<close> is an 8-byte register block at \<open>0x0800 + 8 * i\<close>.
\<close>

abbreviation UL_ECAT_SM_OFS_STATUS :: nat where "UL_ECAT_SM_OFS_STATUS \<equiv> 5"
abbreviation UL_ECAT_SM_CTRL_MODE_MASK :: byte where "UL_ECAT_SM_CTRL_MODE_MASK \<equiv> 0x03"
abbreviation UL_ECAT_SM_CTRL_MODE_MBX :: byte where "UL_ECAT_SM_CTRL_MODE_MBX \<equiv> 0x02"
abbreviation UL_ECAT_SM_STAT_MBX_FULL :: byte where "UL_ECAT_SM_STAT_MBX_FULL \<equiv> 0x08"

record sm_config =
  start_addr :: u16
  sm_length :: u16
  sm_control :: byte
  sm_status :: byte
  sm_activate :: byte
  sm_pdi_ctrl :: byte

definition ul_ecat_sm_base :: "nat \<Rightarrow> nat" where
  "ul_ecat_sm_base sm_index =
     unat (word_of_nat (UL_ECAT_ESC_REG_SM0 + sm_index * UL_ECAT_ESC_SM_SIZE) :: u16)"

definition ul_ecat_sm_read :: "mem \<Rightarrow> nat \<Rightarrow> sm_config" where
  "ul_ecat_sm_read e sm_index =
     (let base = ul_ecat_sm_base sm_index in
      if base + UL_ECAT_ESC_SM_SIZE > UL_ECAT_SLAVE_ESC_SIZE then
        \<lparr>start_addr = 0, sm_length = 0, sm_control = 0, sm_status = 0, sm_activate = 0,
         sm_pdi_ctrl = 0\<rparr>
      else
        \<lparr>start_addr = of_le16 (e base) (e (base + 1)), sm_length = of_le16 (e (base + 2)) (e (base + 3)),
         sm_control = e (base + 4), sm_status = e (base + 5), sm_activate = e (base + 6),
         sm_pdi_ctrl = e (base + 7)\<rparr>)"

definition ul_ecat_sm_is_active :: "sm_config \<Rightarrow> bool" where
  "ul_ecat_sm_is_active sm \<longleftrightarrow> sm_activate sm AND 0x01 \<noteq> 0"

definition ul_ecat_sm_is_mailbox :: "sm_config \<Rightarrow> bool" where
  "ul_ecat_sm_is_mailbox sm \<longleftrightarrow> sm_control sm AND UL_ECAT_SM_CTRL_MODE_MASK = UL_ECAT_SM_CTRL_MODE_MBX"

definition ul_ecat_sm_validate_mailbox_pair :: "mem \<Rightarrow> bool" where
  "ul_ecat_sm_validate_mailbox_pair e =
     (let sm0 = ul_ecat_sm_read e 0; sm1 = ul_ecat_sm_read e 1 in
      if \<not> ul_ecat_sm_is_active sm0 \<or> sm_length sm0 = 0 \<or> \<not> ul_ecat_sm_is_mailbox sm0 then False
      else if \<not> ul_ecat_sm_is_active sm1 \<or> sm_length sm1 = 0 \<or> \<not> ul_ecat_sm_is_mailbox sm1 then False
      else True)"

section \<open>Derived notions\<close>

definition mailbox_sm :: "sm_config \<Rightarrow> bool" where
  "mailbox_sm sm \<longleftrightarrow> ul_ecat_sm_is_active sm \<and> ul_ecat_sm_is_mailbox sm \<and> sm_length sm \<noteq> 0"

lemma validate_mailbox_pair_iff:
  "ul_ecat_sm_validate_mailbox_pair e \<longleftrightarrow>
     mailbox_sm (ul_ecat_sm_read e 0) \<and> mailbox_sm (ul_ecat_sm_read e 1)"
  by (auto simp: ul_ecat_sm_validate_mailbox_pair_def mailbox_sm_def Let_def)

lemma sm_base_eval [simp]: "ul_ecat_sm_base 0 = 0x800" "ul_ecat_sm_base 1 = 0x808"
  "ul_ecat_sm_base (Suc 0) = 0x808"
  by (simp_all add: ul_ecat_sm_base_def)

lemma sm_base_SM: "i < 4 \<Longrightarrow> ul_ecat_sm_base i = 0x800 + 8 * i"
  unfolding ul_ecat_sm_base_def by (subst unat_of_nat) simp

lemma sm_read_cong:
  "\<forall>j \<in> {ul_ecat_sm_base i ..< ul_ecat_sm_base i + 8}. e' j = e j \<Longrightarrow>
     ul_ecat_sm_read e' i = ul_ecat_sm_read e i"
  by (simp add: ul_ecat_sm_read_def Let_def)

lemma sm_read_status_upd:
  "i < 4 \<Longrightarrow> a = ul_ecat_sm_base i + UL_ECAT_SM_OFS_STATUS \<Longrightarrow>
     ul_ecat_sm_read (e(a := b)) i = (ul_ecat_sm_read e i)\<lparr>sm_status := b\<rparr>"
  by (simp add: ul_ecat_sm_read_def Let_def sm_base_SM)

lemma mailbox_sm_status [simp]: "mailbox_sm (sm\<lparr>sm_status := b\<rparr>) = mailbox_sm sm"
  by (simp add: mailbox_sm_def ul_ecat_sm_is_active_def ul_ecat_sm_is_mailbox_def)

end
