(* ===== verification/Mailbox.thy ===== *)
theory Mailbox
  imports SyncManager
begin

text \<open>
  The mailbox transport of the slave: \<open>src/slave/ul_ecat_slave_mailbox.c\<close>. A request is complete
  when a write ends exactly at the end of the SM0 buffer, a reply is stored in the SM1 buffer and
  taken when a read ends exactly at the end of it; the full flag of each direction is bit 3 of
  the SyncManager's status byte. The one-slot contract of the reply direction is the locale
  \<open>mailbox_slot\<close>, interpreted on SM1.

  A C \<open>int\<close> result of \<open>0\<close> or \<open>-1\<close> is \<^const>\<open>True\<close> or \<^const>\<open>False\<close>; the \<open>uint32_t\<close> sums of a
  16-bit start and a 16-bit length cannot wrap and are sums of naturals.
\<close>

section \<open>The mailbox header\<close>

record mbx_header =
  mh_length :: u16
  mh_address :: u16
  mh_channel :: byte
  mh_priority :: byte
  mh_type :: byte
  mh_counter :: byte

definition ul_ecat_mbx_header_decode :: "bytes \<Rightarrow> mbx_header" where
  "ul_ecat_mbx_header_decode frame =
     \<lparr>mh_length = of_le16 (frame ! 0) (frame ! 1), mh_address = of_le16 (frame ! 2) (frame ! 3),
      mh_channel = frame ! 4 AND 0x3F, mh_priority = drop_bit 6 (frame ! 4) AND 0x03,
      mh_type = frame ! 5 AND 0x0F, mh_counter = drop_bit 4 (frame ! 5) AND 0x0F\<rparr>"

definition ul_ecat_mbx_header_encode :: "mbx_header \<Rightarrow> bytes" where
  "ul_ecat_mbx_header_encode hdr =
     [ucast (mh_length hdr AND 0xFF), ucast (drop_bit 8 (mh_length hdr) AND 0xFF),
      ucast (mh_address hdr AND 0xFF), ucast (drop_bit 8 (mh_address hdr) AND 0xFF),
      (mh_channel hdr AND 0x3F) OR push_bit 6 (mh_priority hdr AND 0x03),
      (mh_type hdr AND 0x0F) OR push_bit 4 (mh_counter hdr AND 0x0F)]"

section \<open>Status flags\<close>

definition sm_set_status_bit :: "mem \<Rightarrow> nat \<Rightarrow> byte \<Rightarrow> mem" where
  "sm_set_status_bit e sm_index bit_mask =
     (let base = ul_ecat_sm_base sm_index in
      e(base + UL_ECAT_SM_OFS_STATUS := e (base + UL_ECAT_SM_OFS_STATUS) OR bit_mask))"

definition sm_clear_status_bit :: "mem \<Rightarrow> nat \<Rightarrow> byte \<Rightarrow> mem" where
  "sm_clear_status_bit e sm_index bit_mask =
     (let base = ul_ecat_sm_base sm_index in
      e(base + UL_ECAT_SM_OFS_STATUS := e (base + UL_ECAT_SM_OFS_STATUS) AND NOT bit_mask))"

section \<open>Operations\<close>

definition ul_ecat_slave_mailbox_write_sm1 :: "slave \<Rightarrow> bytes \<Rightarrow> bool \<times> slave" where
  "ul_ecat_slave_mailbox_write_sm1 s frame =
     (if length frame = 0 then (False, s)
      else
        let sm1 = ul_ecat_sm_read (esc s) 1 in
        if \<not> ul_ecat_sm_is_active sm1 \<or> \<not> ul_ecat_sm_is_mailbox sm1 \<or> sm_length sm1 = 0 then (False, s)
        else if length frame > unat (sm_length sm1) then (False, s)
        else if unat (start_addr sm1) + unat (sm_length sm1) > UL_ECAT_SLAVE_ESC_SIZE then (False, s)
        else
          let dst = unat (start_addr sm1);
              e1 = mem_write (esc s) dst frame;
              e2 = (if length frame < unat (sm_length sm1)
                    then mem_write e1 (dst + length frame)
                           (replicate (unat (sm_length sm1) - length frame) 0)
                    else e1) in
          (True, s\<lparr>esc := sm_set_status_bit e2 1 UL_ECAT_SM_STAT_MBX_FULL\<rparr>))"

definition ul_ecat_slave_mailbox_on_sm0_write :: "slave \<Rightarrow> u16 \<Rightarrow> u16 \<Rightarrow> bool \<times> slave" where
  "ul_ecat_slave_mailbox_on_sm0_write s write_ado write_len =
     (if write_len = 0 then (False, s)
      else
        let sm0 = ul_ecat_sm_read (esc s) 0 in
        if \<not> ul_ecat_sm_is_active sm0 \<or> \<not> ul_ecat_sm_is_mailbox sm0 \<or> sm_length sm0 = 0 then (False, s)
        else
          let sm0_end = unat (start_addr sm0) + unat (sm_length sm0);
              write_end = unat write_ado + unat write_len in
          if write_end \<noteq> sm0_end then (False, s)
          else if write_ado < start_addr sm0 then (False, s)
          else (True, s\<lparr>esc := sm_set_status_bit (esc s) 0 UL_ECAT_SM_STAT_MBX_FULL\<rparr>))"

definition ul_ecat_slave_mailbox_on_sm1_read :: "slave \<Rightarrow> u16 \<Rightarrow> u16 \<Rightarrow> slave" where
  "ul_ecat_slave_mailbox_on_sm1_read s read_ado read_len =
     (if read_len = 0 then s
      else
        let sm1 = ul_ecat_sm_read (esc s) 1 in
        if \<not> ul_ecat_sm_is_active sm1 \<or> \<not> ul_ecat_sm_is_mailbox sm1 \<or> sm_length sm1 = 0 then s
        else
          let sm1_end = unat (start_addr sm1) + unat (sm_length sm1);
              read_end = unat read_ado + unat read_len in
          if read_end \<noteq> sm1_end then s
          else if read_ado < start_addr sm1 then s
          else s\<lparr>esc := sm_clear_status_bit (esc s) 1 UL_ECAT_SM_STAT_MBX_FULL\<rparr>)"

section \<open>Header facts\<close>

definition mbx_header_wf :: "mbx_header \<Rightarrow> bool" where
  "mbx_header_wf h \<longleftrightarrow> mh_channel h < 64 \<and> mh_priority h < 4 \<and> mh_type h < 16 \<and> mh_counter h < 16"

lemma low_bits_byte:
  "(b :: byte) AND 0x3F = take_bit 6 b" "b AND 0x03 = take_bit 2 b" "b AND 0x0F = take_bit 4 b"
  by (simp_all add: take_bit_eq_mask mask_eq_exp_minus_1)

lemma less_take_bit: "unat (b :: byte) < 2 ^ n \<Longrightarrow> take_bit n b = b"
  by (simp add: word_unat_eq_iff unsigned_take_bit_eq take_bit_nat_eq_self_iff)

lemma header_decode_encode:
  assumes "mbx_header_wf h"
  shows "ul_ecat_mbx_header_decode (ul_ecat_mbx_header_encode h @ body) = h"
proof -
  have small: "take_bit 6 (mh_channel h) = mh_channel h" "take_bit 2 (mh_priority h) = mh_priority h"
    "take_bit 4 (mh_type h) = mh_type h" "take_bit 4 (mh_counter h) = mh_counter h"
    using assms by (simp_all add: mbx_header_wf_def less_take_bit word_less_nat_alt)
  have split: "take_bit 6 (take_bit 6 a OR push_bit 6 (take_bit 2 b)) = take_bit 6 a"
    "take_bit 2 (drop_bit 6 (take_bit 6 a OR push_bit 6 (take_bit 2 b))) = take_bit 2 b"
    "take_bit 4 (take_bit 4 a OR push_bit 4 (take_bit 4 b)) = take_bit 4 a"
    "take_bit 4 (drop_bit 4 (take_bit 4 a OR push_bit 4 (take_bit 4 b))) = take_bit 4 b"
    for a b :: byte
    by (rule bit_word_eqI; auto simp: bit_simps)+
  show ?thesis
    using small split [of "mh_channel h" "mh_priority h"] split [of "mh_type h" "mh_counter h"]
    by (cases h) (simp add: ul_ecat_mbx_header_decode_def ul_ecat_mbx_header_encode_def
        low_bits_byte of_le16_bytes)
qed

lemma header_encode_decode:
  assumes "6 \<le> length frame"
  shows "ul_ecat_mbx_header_encode (ul_ecat_mbx_header_decode frame) = take 6 frame"
proof -
  have join: "take_bit 6 (take_bit 6 b) OR push_bit 6 (take_bit 2 (take_bit 2 (drop_bit 6 b))) = b"
    "take_bit 4 (take_bit 4 b) OR push_bit 4 (take_bit 4 (take_bit 4 (drop_bit 4 b))) = b" for b :: byte
    by (rule bit_word_eqI; auto simp: bit_simps)+
  have le: "le16 (of_le16 x y) = [x, y]" for x y by (rule le16_of_le16)
  have six: "take 6 frame = [frame ! 0, frame ! 1, frame ! 2, frame ! 3, frame ! 4, frame ! 5]"
    using assms by (simp add: list_eq_iff_nth_eq nth_Cons' less_Suc_eq numeral_eq_Suc)
  show ?thesis
    unfolding six
    using join [of "frame ! 4"] join [of "frame ! 5"] le [of "frame ! 0" "frame ! 1"]
      le [of "frame ! 2" "frame ! 3"]
    by (simp add: ul_ecat_mbx_header_decode_def ul_ecat_mbx_header_encode_def low_bits_byte le16_def)
qed

section \<open>Flag facts\<close>

definition mbx_full :: "mem \<Rightarrow> nat \<Rightarrow> bool" where
  "mbx_full e i \<longleftrightarrow> e (ul_ecat_sm_base i + UL_ECAT_SM_OFS_STATUS) AND UL_ECAT_SM_STAT_MBX_FULL \<noteq> 0"

lemma bit_flag3: "bit (0x8 :: int) n \<longleftrightarrow> n = 3"
proof -
  have "(0x8 :: int) = 2 ^ 3" by simp
  then show ?thesis by (simp only: bit_exp_iff) auto
qed

lemma flag3_set: "b AND (0x8 :: byte) \<noteq> 0 \<longleftrightarrow> bit b 3"
proof
  assume "b AND 0x8 \<noteq> 0"
  moreover have "\<not> bit b 3 \<Longrightarrow> b AND 0x8 = 0"
    by (rule bit_word_eqI) (auto simp: bit_simps bit_flag3)
  ultimately show "bit b 3" by blast
next
  assume "bit b 3"
  then have "bit (b AND 0x8) 3" by (simp add: bit_simps bit_flag3)
  then show "b AND 0x8 \<noteq> 0" by auto
qed

lemma mbx_full_set [simp]: "mbx_full (sm_set_status_bit e i UL_ECAT_SM_STAT_MBX_FULL) i"
  by (simp add: mbx_full_def sm_set_status_bit_def Let_def flag3_set bit_simps bit_flag3)

lemma mbx_full_clear [simp]: "\<not> mbx_full (sm_clear_status_bit e i UL_ECAT_SM_STAT_MBX_FULL) i"
  by (simp add: mbx_full_def sm_clear_status_bit_def Let_def and.assoc)

lemma status_bit_frame:
  "j \<noteq> ul_ecat_sm_base i + UL_ECAT_SM_OFS_STATUS \<Longrightarrow> sm_set_status_bit e i m j = e j"
  "j \<noteq> ul_ecat_sm_base i + UL_ECAT_SM_OFS_STATUS \<Longrightarrow> sm_clear_status_bit e i m j = e j"
  by (simp_all add: sm_set_status_bit_def sm_clear_status_bit_def Let_def)

lemma status_bit_same_above:
  "i < 4 \<Longrightarrow> same_above e (sm_set_status_bit e i m)"
  "i < 4 \<Longrightarrow> same_above e (sm_clear_status_bit e i m)"
  by (simp_all add: same_above_def status_bit_frame sm_base_SM)

lemma sm_read_status_bit:
  "i < 4 \<Longrightarrow> ul_ecat_sm_read (sm_set_status_bit e i m) i
     = (ul_ecat_sm_read e i)\<lparr>sm_status := e (ul_ecat_sm_base i + 5) OR m\<rparr>"
  "i < 4 \<Longrightarrow> ul_ecat_sm_read (sm_clear_status_bit e i m) i
     = (ul_ecat_sm_read e i)\<lparr>sm_status := e (ul_ecat_sm_base i + 5) AND NOT m\<rparr>"
  by (simp_all add: sm_set_status_bit_def sm_clear_status_bit_def Let_def sm_read_status_upd)

section \<open>The reply slot\<close>

text \<open>
  A one-slot mailbox: a frame put into a ready slot is what the other side reads, padded with
  zeros to the slot's size; the slot is then full until a complete read takes the frame.
\<close>

locale mailbox_slot =
  fixes put :: "'s \<Rightarrow> bytes \<Rightarrow> bool \<times> 's"
    and get :: "'s \<Rightarrow> 's"
    and capacity :: "'s \<Rightarrow> nat"
    and content :: "'s \<Rightarrow> bytes"
    and full :: "'s \<Rightarrow> bool"
    and ready :: "'s \<Rightarrow> bool"
  assumes put_accepts: "ready s \<Longrightarrow> fst (put s f) \<longleftrightarrow> f \<noteq> [] \<and> length f \<le> capacity s"
    and put_rejects: "put s f = (False, s') \<Longrightarrow> s' = s"
    and put_content: "ready s \<Longrightarrow> put s f = (True, s') \<Longrightarrow>
      content s' = f @ replicate (capacity s - length f) 0 \<and> full s'"
    and put_keeps: "ready s \<Longrightarrow> put s f = (True, s') \<Longrightarrow> ready s' \<and> capacity s' = capacity s"
    and get_empties: "ready s \<Longrightarrow> \<not> full (get s)"
    and get_keeps: "ready s \<Longrightarrow>
      ready (get s) \<and> capacity (get s) = capacity s \<and> content (get s) = content s"
begin

lemma put_then_content:
  assumes "ready s" "f \<noteq> []" "length f \<le> capacity s"
  obtains s' where "put s f = (True, s')" "take (length f) (content s') = f" "full s'" "ready s'"
proof -
  obtain ok s' where p: "put s f = (ok, s')" by (cases "put s f")
  then have "ok" using put_accepts [OF assms(1), of f] assms by simp
  with p have p: "put s f = (True, s')" by simp
  with assms show ?thesis
    using put_content [OF assms(1) p] put_keeps [OF assms(1) p] that by simp
qed

lemma put_put_last:
  "ready s \<Longrightarrow> put s f = (True, s1) \<Longrightarrow> put s1 g = (True, s2) \<Longrightarrow>
     content s2 = g @ replicate (capacity s - length g) 0"
  using put_keeps [of s f s1] put_content [of s1 g s2] by simp

lemma put_get_put:
  "ready s \<Longrightarrow> put s f = (True, s1) \<Longrightarrow> g \<noteq> [] \<Longrightarrow> length g \<le> capacity s \<Longrightarrow>
     fst (put (get s1) g)"
  using put_keeps [of s f s1] get_keeps [of s1] put_accepts [of "get s1" g] by simp

end

definition sm_buffer :: "mem \<Rightarrow> nat \<Rightarrow> bytes" where
  "sm_buffer e i =
     (let sm = ul_ecat_sm_read e i in mem_read e (unat (start_addr sm)) (unat (sm_length sm)))"

definition sm_buffer_clear :: "mem \<Rightarrow> nat \<Rightarrow> bool" where
  "sm_buffer_clear e i =
     (let sm = ul_ecat_sm_read e i in
      unat (start_addr sm) + unat (sm_length sm) \<le> 0x800 \<or> 0x820 \<le> unat (start_addr sm))"

definition sm_slot_ready :: "nat \<Rightarrow> slave \<Rightarrow> bool" where
  "sm_slot_ready i s =
     (let sm = ul_ecat_sm_read (esc s) i in
      mailbox_sm sm \<and> unat (start_addr sm) + unat (sm_length sm) \<le> UL_ECAT_SLAVE_ESC_SIZE
      \<and> sm_buffer_clear (esc s) i)"

definition sm_capacity :: "nat \<Rightarrow> slave \<Rightarrow> nat" where
  "sm_capacity i s = unat (sm_length (ul_ecat_sm_read (esc s) i))"

definition sm1_read_all :: "slave \<Rightarrow> slave" where
  "sm1_read_all s =
     (let sm1 = ul_ecat_sm_read (esc s) 1 in
      ul_ecat_slave_mailbox_on_sm1_read s (start_addr sm1) (sm_length sm1))"

lemma write_sm1_eq:
  "ul_ecat_slave_mailbox_write_sm1 s f =
     (let sm1 = ul_ecat_sm_read (esc s) 1; dst = unat (start_addr sm1); n = unat (sm_length sm1) in
      if f \<noteq> [] \<and> mailbox_sm sm1 \<and> length f \<le> n \<and> dst + n \<le> UL_ECAT_SLAVE_ESC_SIZE then
        (True, s\<lparr>esc := sm_set_status_bit
           (mem_write (esc s) dst (f @ replicate (n - length f) 0)) 1 UL_ECAT_SM_STAT_MBX_FULL\<rparr>)
      else (False, s))"
  by (auto simp: ul_ecat_slave_mailbox_write_sm1_def mailbox_sm_def Let_def mem_write_append)

lemma write_sm1_same_above: "same_above (esc s) (esc (snd (ul_ecat_slave_mailbox_write_sm1 s f)))"
  by (auto simp: write_sm1_eq Let_def
      intro!: same_above_trans [OF same_above_write status_bit_same_above(1)])

lemma on_sm0_write_eq:
  "ul_ecat_slave_mailbox_on_sm0_write s ado len =
     (let sm0 = ul_ecat_sm_read (esc s) 0 in
      if len \<noteq> 0 \<and> mailbox_sm sm0 \<and> start_addr sm0 \<le> ado
         \<and> unat ado + unat len = unat (start_addr sm0) + unat (sm_length sm0)
      then (True, s\<lparr>esc := sm_set_status_bit (esc s) 0 UL_ECAT_SM_STAT_MBX_FULL\<rparr>)
      else (False, s))"
  by (auto simp: ul_ecat_slave_mailbox_on_sm0_write_def mailbox_sm_def Let_def)

lemma on_sm1_read_eq:
  "ul_ecat_slave_mailbox_on_sm1_read s ado len =
     (let sm1 = ul_ecat_sm_read (esc s) 1 in
      if len \<noteq> 0 \<and> mailbox_sm sm1 \<and> start_addr sm1 \<le> ado
         \<and> unat ado + unat len = unat (start_addr sm1) + unat (sm_length sm1)
      then s\<lparr>esc := sm_clear_status_bit (esc s) 1 UL_ECAT_SM_STAT_MBX_FULL\<rparr>
      else s)"
  by (auto simp: ul_ecat_slave_mailbox_on_sm1_read_def mailbox_sm_def Let_def)

lemma sm_buffer_write:
  assumes "i < 4" and "sm_slot_ready i s" and "length bs = sm_capacity i s"
  defines "sm \<equiv> ul_ecat_sm_read (esc s) i"
  defines "e \<equiv> mem_write (esc s) (unat (start_addr sm)) bs"
  shows "ul_ecat_sm_read e i = sm" "sm_buffer e i = bs"
proof -
  have clear: "unat (start_addr sm) + length bs \<le> 0x800 \<or> 0x820 \<le> unat (start_addr sm)"
    using assms(2,3) by (simp add: sm_slot_ready_def sm_buffer_clear_def Let_def sm_def sm_capacity_def)
  show r: "ul_ecat_sm_read e i = sm"
    unfolding sm_def
  proof (rule sm_read_cong, rule ballI)
    fix j assume "j \<in> {ul_ecat_sm_base i ..< ul_ecat_sm_base i + 8}"
    then have "0x800 \<le> j" "j < 0x820" using assms(1) by (auto simp: sm_base_SM)
    then show "e j = esc s j"
      using clear by (auto simp: e_def mem_write_outside)
  qed
  show "sm_buffer e i = bs"
    using assms(3) mem_write_same [of "esc s" "unat (start_addr sm)" bs]
    unfolding sm_buffer_def r Let_def by (simp add: e_def sm_capacity_def sm_def)
qed

lemma sm_buffer_status_bit:
  assumes "i < 4" "sm_buffer_clear e i" "e' = sm_set_status_bit e i m \<or> e' = sm_clear_status_bit e i m"
  shows "sm_buffer e' i = sm_buffer e i"
proof -
  let ?sm = "ul_ecat_sm_read e i"
  have "start_addr (ul_ecat_sm_read e' i) = start_addr ?sm"
    "sm_length (ul_ecat_sm_read e' i) = sm_length ?sm"
    using assms(1,3) by (auto simp: sm_read_status_bit)
  moreover have "mem_read e' (unat (start_addr ?sm)) (unat (sm_length ?sm))
      = mem_read e (unat (start_addr ?sm)) (unat (sm_length ?sm))"
    using assms by (intro mem_read_cong)
      (auto simp: sm_buffer_clear_def Let_def status_bit_frame sm_base_SM)
  ultimately show ?thesis by (simp add: sm_buffer_def Let_def)
qed

lemma sm_slot_ready_status_bit:
  assumes "i < 4" "e' = sm_set_status_bit (esc s) i m \<or> e' = sm_clear_status_bit (esc s) i m"
  shows "sm_slot_ready i (s\<lparr>esc := e'\<rparr>) = sm_slot_ready i s"
    and "sm_capacity i (s\<lparr>esc := e'\<rparr>) = sm_capacity i s"
  using assms by (auto simp: sm_slot_ready_def sm_capacity_def sm_buffer_clear_def Let_def
      sm_read_status_bit)

lemmas sm_flag_keeps =
  sm_slot_ready_status_bit [OF _ disjI1 [OF refl]] sm_slot_ready_status_bit [OF _ disjI2 [OF refl]]
  sm_buffer_status_bit [OF _ _ disjI1 [OF refl]] sm_buffer_status_bit [OF _ _ disjI2 [OF refl]]

lemma sm_slot_ready_write:
  assumes "i < 4" "sm_slot_ready i s" "length bs = sm_capacity i s"
  shows "sm_slot_ready i (s\<lparr>esc := mem_write (esc s) (unat (start_addr (ul_ecat_sm_read (esc s) i))) bs\<rparr>)"
    and "sm_capacity i (s\<lparr>esc := mem_write (esc s) (unat (start_addr (ul_ecat_sm_read (esc s) i))) bs\<rparr>)
      = sm_capacity i s"
  using assms(2) sm_buffer_write(1) [OF assms]
  by (simp_all add: sm_slot_ready_def sm_capacity_def sm_buffer_clear_def Let_def)

text \<open>The effect of an accepted reply on a ready slot, in one step.\<close>

lemma write_sm1_ready:
  assumes "sm_slot_ready 1 s" "f \<noteq> []" "length f \<le> sm_capacity 1 s"
  defines "m \<equiv> mem_write (esc s) (unat (start_addr (ul_ecat_sm_read (esc s) 1)))
                 (f @ replicate (sm_capacity 1 s - length f) 0)"
  shows "ul_ecat_slave_mailbox_write_sm1 s f =
    (True, s\<lparr>esc := sm_set_status_bit m 1 UL_ECAT_SM_STAT_MBX_FULL\<rparr>)"
  using assms by (simp add: write_sm1_eq Let_def sm_slot_ready_def sm_capacity_def m_def)

lemma sm1_read_all_ready:
  "sm_slot_ready 1 s \<Longrightarrow>
     sm1_read_all s = s\<lparr>esc := sm_clear_status_bit (esc s) 1 UL_ECAT_SM_STAT_MBX_FULL\<rparr>"
  by (simp add: sm1_read_all_def on_sm1_read_eq Let_def sm_slot_ready_def mailbox_sm_def)

lemma sm_slot_ready_clear: "sm_slot_ready i s \<Longrightarrow> sm_buffer_clear (esc s) i"
  by (simp add: sm_slot_ready_def Let_def)

interpretation sm1: mailbox_slot ul_ecat_slave_mailbox_write_sm1 sm1_read_all "sm_capacity 1"
  "\<lambda>s. sm_buffer (esc s) 1" "\<lambda>s. mbx_full (esc s) 1" "sm_slot_ready 1"
proof unfold_locales
  fix s s' :: slave and f :: bytes
  let ?m = "mem_write (esc s) (unat (start_addr (ul_ecat_sm_read (esc s) 1)))
              (f @ replicate (sm_capacity 1 s - length f) 0)"
  show accepts: "fst (ul_ecat_slave_mailbox_write_sm1 s f) = (f \<noteq> [] \<and> length f \<le> sm_capacity 1 s)"
    if "sm_slot_ready 1 s"
    using that by (auto simp: write_sm1_eq Let_def sm_slot_ready_def sm_capacity_def)
  show "s' = s" if "ul_ecat_slave_mailbox_write_sm1 s f = (False, s')"
    using that by (auto simp: write_sm1_eq Let_def split: if_splits)
  assume ready: "sm_slot_ready 1 s"
  show "\<not> mbx_full (esc (sm1_read_all s)) 1"
    "sm_slot_ready 1 (sm1_read_all s) \<and> sm_capacity 1 (sm1_read_all s) = sm_capacity 1 s \<and>
     sm_buffer (esc (sm1_read_all s)) 1 = sm_buffer (esc s) 1"
    using ready sm_slot_ready_clear [OF ready]
    by (simp_all add: sm1_read_all_ready sm_flag_keeps del: One_nat_def)
  assume put: "ul_ecat_slave_mailbox_write_sm1 s f = (True, s')"
  with accepts [OF ready] have f: "f \<noteq> []" "length f \<le> sm_capacity 1 s" by simp_all
  with put write_sm1_ready [OF ready f]
  have s': "s' = s\<lparr>esc := sm_set_status_bit ?m 1 UL_ECAT_SM_STAT_MBX_FULL\<rparr>" by simp
  have len: "length (f @ replicate (sm_capacity 1 s - length f) 0) = sm_capacity 1 s"
    using f by simp
  note w = sm_slot_ready_write [OF _ ready len, simplified]
  have "sm_buffer_clear ?m 1" using w(1) by (simp add: sm_slot_ready_def Let_def)
  then show "sm_buffer (esc s') 1 = f @ replicate (sm_capacity 1 s - length f) 0 \<and> mbx_full (esc s') 1"
    using sm_buffer_write(2) [OF _ ready len] s' by (simp add: sm_flag_keeps)
  show "sm_slot_ready 1 s' \<and> sm_capacity 1 s' = sm_capacity 1 s"
    using w s' sm_flag_keeps(1,2) [of 1 "s\<lparr>esc := ?m\<rparr>"] by simp
qed

section \<open>Properties\<close>

text \<open>
  The mailbox header codec is a bijection between headers whose fields fit their
  bit widths and six-byte strings: decoding an encoded header gives it back, whatever follows it
  in the frame, and encoding a decoded header gives the six bytes back.
\<close>

theorem mbx_header_roundtrip:
  "(mbx_header_wf h \<longrightarrow>
      ul_ecat_mbx_header_decode (ul_ecat_mbx_header_encode h @ body) = h) \<and>
   (6 \<le> length frame \<longrightarrow>
      ul_ecat_mbx_header_encode (ul_ecat_mbx_header_decode frame) = take 6 frame)"
  by (simp add: header_decode_encode header_encode_decode)

theorem mbx_header_roundtrip_witness:
  "ul_ecat_mbx_header_decode (ul_ecat_mbx_header_encode
       \<lparr>mh_length = 0x123, mh_address = 7, mh_channel = 5, mh_priority = 2, mh_type = 3, mh_counter = 9\<rparr>
       @ [0xAA])
     = \<lparr>mh_length = 0x123, mh_address = 7, mh_channel = 5, mh_priority = 2, mh_type = 3, mh_counter = 9\<rparr>
   \<and> ul_ecat_mbx_header_encode (ul_ecat_mbx_header_decode [1, 2, 3, 4, 5, 6, 7]) = [1, 2, 3, 4, 5, 6]"
  using mbx_header_roundtrip [of "\<lparr>mh_length = 0x123, mh_address = 7, mh_channel = 5, mh_priority = 2,
      mh_type = 3, mh_counter = 9\<rparr>" "[0xAA]" "[1, 2, 3, 4, 5, 6, 7]"]
  by (simp add: mbx_header_wf_def)

text \<open>
  On a configured SM1 whose buffer lies inside the mirror and off the SyncManager
  registers, a non-empty reply that fits is accepted, is what the buffer then holds, padded with
  zeros to the configured length, and raises the full flag; a read of the whole buffer lowers the
  flag, leaves the content, and the slot accepts the next reply.
\<close>

theorem mailbox_reply_delivered:
  assumes "sm_slot_ready 1 s" "f \<noteq> []" "length f \<le> sm_capacity 1 s"
  shows "\<exists>s'. ul_ecat_slave_mailbox_write_sm1 s f = (True, s') \<and>
           sm_buffer (esc s') 1 = f @ replicate (sm_capacity 1 s - length f) 0 \<and>
           mbx_full (esc s') 1 \<and>
           \<not> mbx_full (esc (sm1_read_all s')) 1 \<and>
           sm_buffer (esc (sm1_read_all s')) 1 = sm_buffer (esc s') 1 \<and>
           (\<forall>g. g \<noteq> [] \<and> length g \<le> sm_capacity 1 s \<longrightarrow>
              fst (ul_ecat_slave_mailbox_write_sm1 (sm1_read_all s') g))"
proof -
  obtain s' where s': "ul_ecat_slave_mailbox_write_sm1 s f = (True, s')" "sm_slot_ready 1 s'"
    using sm1.put_then_content [OF assms] by metis
  show ?thesis
    using s' sm1.put_content [OF assms(1) s'(1)] sm1.get_empties [OF s'(2)]
      sm1.get_keeps [OF s'(2)] sm1.put_get_put [OF assms(1) s'(1)] by auto
qed

text \<open>A slave with both mailbox SyncManagers configured (SM0 at 0x0E00, SM1 at 0x0E80, 128 bytes).\<close>

definition mailbox_slave :: slave where
  "mailbox_slave =
     (ul_ecat_slave_init [2, 0, 0, 0, 0, 1]
        \<lparr>vendor_id = 2, product_code = 0x1C213052, revision = 1, serial = 1\<rparr>)
     \<lparr>esc := mem_write (mem_write (esc (ul_ecat_slave_init [2, 0, 0, 0, 0, 1]
        \<lparr>vendor_id = 2, product_code = 0x1C213052, revision = 1, serial = 1\<rparr>)) 0x10 [0x00, 0x10])
        0x800 [0x00, 0x0E, 0x80, 0x00, 0x26, 0x00, 0x01, 0x00,
               0x80, 0x0E, 0x80, 0x00, 0x22, 0x00, 0x01, 0x00]\<rparr>"

lemma mailbox_slave_sm:
  "ul_ecat_sm_read (esc mailbox_slave) 0 =
     \<lparr>start_addr = 0xE00, sm_length = 128, sm_control = 0x26, sm_status = 0, sm_activate = 1, sm_pdi_ctrl = 0\<rparr>"
  "ul_ecat_sm_read (esc mailbox_slave) 1 =
     \<lparr>start_addr = 0xE80, sm_length = 128, sm_control = 0x22, sm_status = 0, sm_activate = 1, sm_pdi_ctrl = 0\<rparr>"
  by (simp_all add: mailbox_slave_def ul_ecat_sm_read_def Let_def of_le16_def)

lemma mailbox_slave_ready: "sm_slot_ready 0 mailbox_slave" "sm_slot_ready 1 mailbox_slave"
  by (simp_all add: sm_slot_ready_def sm_buffer_clear_def mailbox_slave_sm [simplified] Let_def
      mailbox_slave_sm mailbox_sm_def ul_ecat_sm_is_active_def ul_ecat_sm_is_mailbox_def)

theorem mailbox_reply_delivered_witness:
  "\<exists>s'. ul_ecat_slave_mailbox_write_sm1 mailbox_slave [7, 8, 9] = (True, s') \<and>
     take 3 (sm_buffer (esc s') 1) = [7, 8, 9] \<and> mbx_full (esc s') 1"
  using mailbox_reply_delivered [OF mailbox_slave_ready(2), of "[7, 8, 9]"]
  by (auto simp: sm_capacity_def mailbox_slave_sm [simplified])

text \<open>
  A write is a complete mailbox request exactly when SM0 is a configured, active
  mailbox and the write starts inside its buffer and ends at its last byte; it then raises the
  SM0 full flag and changes nothing else, and otherwise the mirror is unchanged.
\<close>

theorem mailbox_request_complete:
  "fst (ul_ecat_slave_mailbox_on_sm0_write s ado len) \<longleftrightarrow>
     (let sm0 = ul_ecat_sm_read (esc s) 0 in
      len \<noteq> 0 \<and> mailbox_sm sm0 \<and> start_addr sm0 \<le> ado \<and>
      unat ado + unat len = unat (start_addr sm0) + unat (sm_length sm0)) \<and>
   snd (ul_ecat_slave_mailbox_on_sm0_write s ado len) =
     (if fst (ul_ecat_slave_mailbox_on_sm0_write s ado len)
      then s\<lparr>esc := sm_set_status_bit (esc s) 0 UL_ECAT_SM_STAT_MBX_FULL\<rparr> else s)"
  by (auto simp: on_sm0_write_eq Let_def)

end
