(* ===== verification/SlaveAl.thy ===== *)
theory SlaveAl
  imports SyncManager
begin

text \<open>
  The AL state machine of the slave: \<open>src/slave/ul_ecat_slave_al.c\<close>, run when a datagram has
  written AL Control in the mirror. The reference is an abstract machine over the four supported
  states (\<open>al_spec\<close>), with the error indication and the AL status code beside the state; the
  refinement lemma relates the register bytes to it on every branch.
\<close>

abbreviation AL_INIT :: byte where "AL_INIT \<equiv> 1"
abbreviation AL_PREOP :: byte where "AL_PREOP \<equiv> 2"
abbreviation AL_BOOT :: byte where "AL_BOOT \<equiv> 3"
abbreviation AL_SAFEOP :: byte where "AL_SAFEOP \<equiv> 4"
abbreviation AL_OP :: byte where "AL_OP \<equiv> 8"

abbreviation UL_ECAT_AL_ERR_NONE :: u16 where "UL_ECAT_AL_ERR_NONE \<equiv> 0x0000"
abbreviation UL_ECAT_AL_ERR_INVALID_STATE_CHANGE :: u16 where
  "UL_ECAT_AL_ERR_INVALID_STATE_CHANGE \<equiv> 0x0011"
abbreviation UL_ECAT_AL_ERR_BOOTSTRAP_NOT_SUPPORTED :: u16 where
  "UL_ECAT_AL_ERR_BOOTSTRAP_NOT_SUPPORTED \<equiv> 0x0013"
abbreviation UL_ECAT_AL_ERR_INVALID_MAILBOX_CFG :: u16 where
  "UL_ECAT_AL_ERR_INVALID_MAILBOX_CFG \<equiv> 0x0016"

section \<open>The code\<close>

definition is_valid_transition :: "byte \<Rightarrow> byte \<Rightarrow> bool" where
  "is_valid_transition s t =
     (if t = AL_INIT then True
      else if s = AL_INIT then t = AL_PREOP
      else if s = AL_PREOP then t = AL_SAFEOP
      else if s = AL_SAFEOP then t = AL_OP \<or> t = AL_PREOP
      else if s = AL_OP then t = AL_SAFEOP
      else False)"

definition write_al_status :: "mem \<Rightarrow> u16 \<Rightarrow> u16 \<Rightarrow> mem" where
  "write_al_status e status code =
     e(UL_ECAT_ESC_REG_ALSTAT := ucast (status AND 0xFF),
       UL_ECAT_ESC_REG_ALSTAT + 1 := ucast (drop_bit 8 status AND 0xFF),
       UL_ECAT_ESC_REG_ALSTACODE := ucast (code AND 0xFF),
       UL_ECAT_ESC_REG_ALSTACODE + 1 := ucast (drop_bit 8 code AND 0xFF))"

definition ul_ecat_slave_al_on_control_write :: "slave \<Rightarrow> slave" where
  "ul_ecat_slave_al_on_control_write s =
     (let alctl = ul_ecat_esc_read_u16_le (esc s) 0x0120;
          alstat = ul_ecat_esc_read_u16_le (esc s) 0x0130;
          req = ucast (alctl AND UL_ECAT_AL_MASK_STATE) :: byte;
          cur = ul_ecat_al_status_state alstat in
      if alctl AND UL_ECAT_AL_CTRL_ACK \<noteq> 0 then
        (if req = cur then s\<lparr>esc := write_al_status (esc s) (ucast cur) UL_ECAT_AL_ERR_NONE\<rparr>
         else s)
      else if req = cur then s
      else if req = AL_BOOT then
        s\<lparr>esc := write_al_status (esc s) (ucast cur OR UL_ECAT_AL_STAT_ERR)
                   UL_ECAT_AL_ERR_BOOTSTRAP_NOT_SUPPORTED\<rparr>
      else if \<not> is_valid_transition cur req then
        s\<lparr>esc := write_al_status (esc s) (ucast cur OR UL_ECAT_AL_STAT_ERR)
                   UL_ECAT_AL_ERR_INVALID_STATE_CHANGE\<rparr>
      else if cur = AL_INIT \<and> req = AL_PREOP \<and> \<not> ul_ecat_sm_validate_mailbox_pair (esc s) then
        s\<lparr>esc := write_al_status (esc s) (ucast cur OR UL_ECAT_AL_STAT_ERR)
                   UL_ECAT_AL_ERR_INVALID_MAILBOX_CFG\<rparr>
      else s\<lparr>esc := write_al_status (esc s) (ucast req) UL_ECAT_AL_ERR_NONE\<rparr>)"

section \<open>The abstract machine\<close>

datatype al_state = Init | Preop | Safeop | Op

fun al_code :: "al_state \<Rightarrow> byte" where
  "al_code Init = 1"
| "al_code Preop = 2"
| "al_code Safeop = 4"
| "al_code Op = 8"

definition al_decode :: "byte \<Rightarrow> al_state option" where
  "al_decode b = (if b = 1 then Some Init else if b = 2 then Some Preop
                  else if b = 4 then Some Safeop else if b = 8 then Some Op else None)"

inductive al_edge :: "al_state \<Rightarrow> al_state \<Rightarrow> bool" where
  to_init: "al_edge s Init"
| init_preop: "al_edge Init Preop"
| preop_safeop: "al_edge Preop Safeop"
| safeop_op: "al_edge Safeop Op"
| safeop_preop: "al_edge Safeop Preop"
| op_safeop: "al_edge Op Safeop"

code_pred al_edge .

inductive_cases al_edge_to_op: "al_edge s Op"
inductive_cases al_edge_to_safeop: "al_edge s Safeop"
inductive_cases al_edge_to_preop: "al_edge s Preop"
inductive_simps al_edge_simps: "al_edge s t"

record al_view =
  al_st :: al_state
  al_err :: bool
  al_status_code :: u16

definition al_reject :: "al_view \<Rightarrow> u16 \<Rightarrow> al_view" where
  "al_reject v code = v\<lparr>al_err := True, al_status_code := code\<rparr>"

text \<open>
  \<open>al_spec mbx v req ack\<close>: the view after the master asks for the state nibble \<open>req\<close>;
  \<open>mbx\<close> says whether both mailbox SyncManagers are configured.
\<close>

definition al_spec :: "bool \<Rightarrow> al_view \<Rightarrow> byte \<Rightarrow> bool \<Rightarrow> al_view" where
  "al_spec mbx v req ack =
     (if ack then
        if req = al_code (al_st v) then v\<lparr>al_err := False, al_status_code := 0\<rparr> else v
      else if req = al_code (al_st v) then v
      else if req = 3 then al_reject v 0x13
      else case al_decode req of
             None \<Rightarrow> al_reject v 0x11
           | Some t \<Rightarrow>
               if \<not> al_edge (al_st v) t then al_reject v 0x11
               else if al_st v = Init \<and> t = Preop \<and> \<not> mbx then al_reject v 0x16
               else \<lparr>al_st = t, al_err = False, al_status_code = 0\<rparr>)"

definition al_word :: "al_state \<Rightarrow> bool \<Rightarrow> u16" where
  "al_word st er = ucast (al_code st) OR (if er then UL_ECAT_AL_STAT_ERR else 0)"

text \<open>The registers show the view \<open>v\<close>.\<close>

definition al_shows :: "mem \<Rightarrow> al_view \<Rightarrow> bool" where
  "al_shows e v \<longleftrightarrow>
     ul_ecat_esc_read_u16_le e 0x0130 = al_word (al_st v) (al_err v) \<and>
     ul_ecat_esc_read_u16_le e 0x0134 = al_status_code v"

definition al_ctl :: "mem \<Rightarrow> u16" where
  "al_ctl e = ul_ecat_esc_read_u16_le e 0x0120"

definition ident0 :: slave_identity where
  "ident0 = \<lparr>vendor_id = 1, product_code = 2, revision = 3, serial = 4\<rparr>"

section \<open>Refinement\<close>

lemma al_code_inj [simp]: "al_code s = al_code t \<longleftrightarrow> s = t"
  by (cases s; cases t) simp_all

lemma al_decode_code [simp]: "al_decode (al_code s) = Some s"
  by (cases s) (simp_all add: al_decode_def)

lemma al_decode_eval [simp]: "al_decode 1 = Some Init" "al_decode 2 = Some Preop"
  "al_decode 4 = Some Safeop" "al_decode 8 = Some Op"
  by (simp_all add: al_decode_def)

lemma al_decode_Some: "al_decode b = Some s \<longleftrightarrow> b = al_code s"
  by (cases s) (auto simp: al_decode_def split: if_splits)

lemma al_code_eq: "al_code s = 1 \<longleftrightarrow> s = Init" "al_code s = 2 \<longleftrightarrow> s = Preop"
  "al_code s = 4 \<longleftrightarrow> s = Safeop" "al_code s = 8 \<longleftrightarrow> s = Op"
  by (cases s; simp)+

lemma al_code_not_boot [simp]: "al_code s \<noteq> 3" "3 \<noteq> al_code s"
  by (cases s; simp)+

lemma is_valid_transition_edge:
  "is_valid_transition (al_code s) b \<longleftrightarrow> (\<exists>t. al_decode b = Some t \<and> al_edge s t)"
  by (cases s) (auto simp: is_valid_transition_def al_decode_def al_edge_simps)

lemma al_status_word [simp]:
  "ul_ecat_al_status_state (al_word s er) = al_code s"
  "al_word s False = ucast (al_code s)"
  "ucast (al_code s) OR UL_ECAT_AL_STAT_ERR = al_word s True"
  by (cases s; cases er; simp add: al_word_def ul_ecat_al_status_state_def)+

lemma al_word_error: "ul_ecat_al_status_error_indicated (al_word s er) = er"
  by (cases s; cases er; simp add: al_word_def ul_ecat_al_status_error_indicated_def)

lemma write_al_status_reads:
  "ul_ecat_esc_read_u16_le (write_al_status e st c) 0x0130 = st"
  "ul_ecat_esc_read_u16_le (write_al_status e st c) 0x0134 = c"
  by (simp_all add: write_al_status_def read_u16_reg of_le16_bytes)

lemma write_al_status_frame:
  "i \<notin> {0x130, 0x131, 0x134, 0x135} \<Longrightarrow> write_al_status e st c i = e i"
  by (simp add: write_al_status_def)

lemma write_al_status_same_above: "same_above e (write_al_status e st c)"
  by (simp add: same_above_def write_al_status_def)

lemmas al_on_control_write_def =
  ul_ecat_slave_al_on_control_write_def Let_def

lemma on_control_write_frame:
  "i \<notin> {0x130, 0x131, 0x134, 0x135} \<Longrightarrow> esc (ul_ecat_slave_al_on_control_write s) i = esc s i"
  "mac (ul_ecat_slave_al_on_control_write s) = mac s"
  "logical_position (ul_ecat_slave_al_on_control_write s) = logical_position s"
  by (simp_all add: al_on_control_write_def write_al_status_frame)

lemma on_control_write_same_above:
  "same_above (esc s) (esc (ul_ecat_slave_al_on_control_write s))"
  by (simp add: al_on_control_write_def write_al_status_same_above)

lemma al_on_control_write_eq:
  assumes "ul_ecat_al_status_state (ul_ecat_esc_read_u16_le (esc s) 0x0130) = al_code st"
  shows "ul_ecat_slave_al_on_control_write s =
     (let req = ucast (al_ctl (esc s) AND UL_ECAT_AL_MASK_STATE) in
      if al_ctl (esc s) AND UL_ECAT_AL_CTRL_ACK \<noteq> 0 then
        (if req = al_code st then s\<lparr>esc := write_al_status (esc s) (ucast (al_code st)) 0\<rparr> else s)
      else if req = al_code st then s
      else if req = 3 then s\<lparr>esc := write_al_status (esc s) (al_word st True) 0x13\<rparr>
      else if \<not> (\<exists>t. al_decode req = Some t \<and> al_edge st t) then
        s\<lparr>esc := write_al_status (esc s) (al_word st True) 0x11\<rparr>
      else if st = Init \<and> req = 2 \<and> \<not> ul_ecat_sm_validate_mailbox_pair (esc s) then
        s\<lparr>esc := write_al_status (esc s) (al_word st True) 0x16\<rparr>
      else s\<lparr>esc := write_al_status (esc s) (ucast req) 0\<rparr>)"
  unfolding ul_ecat_slave_al_on_control_write_def Let_def al_ctl_def [symmetric] assms
    is_valid_transition_edge al_code_eq
  by (simp only: al_status_word)

lemma al_shows_write:
  "al_shows (write_al_status e (ucast (al_code st)) 0) \<lparr>al_st = st, al_err = False, al_status_code = 0\<rparr>"
  "al_shows (write_al_status e (al_word st True) c) \<lparr>al_st = st, al_err = True, al_status_code = c\<rparr>"
  by (simp_all add: al_shows_def write_al_status_reads)

lemma al_on_control_write_shows:
  assumes "al_shows (esc s) v"
  shows "al_shows (esc (ul_ecat_slave_al_on_control_write s))
           (al_spec (ul_ecat_sm_validate_mailbox_pair (esc s)) v
              (ucast (al_ctl (esc s) AND UL_ECAT_AL_MASK_STATE))
              (al_ctl (esc s) AND UL_ECAT_AL_CTRL_ACK \<noteq> 0))"
proof -
  obtain st er c where v: "v = \<lparr>al_st = st, al_err = er, al_status_code = c\<rparr>"
    by (cases v) auto
  define req where "req = (ucast (al_ctl (esc s) AND UL_ECAT_AL_MASK_STATE) :: byte)"
  define mbx where "mbx = ul_ecat_sm_validate_mailbox_pair (esc s)"
  define ack where "ack \<longleftrightarrow> al_ctl (esc s) AND UL_ECAT_AL_CTRL_ACK \<noteq> 0"
  have cur: "ul_ecat_al_status_state (ul_ecat_esc_read_u16_le (esc s) 0x0130) = al_code st"
    using assms v by (simp add: al_shows_def)
  note eq = al_on_control_write_eq [OF cur, folded req_def mbx_def ack_def]
  show ?thesis
    unfolding req_def [symmetric] mbx_def [symmetric] ack_def [symmetric] eq al_spec_def v
    using assms v al_shows_write
    by (auto simp: al_reject_def al_decode_Some al_code_eq simp del: al_code.simps
        split: option.split)
qed

lemma slave_init_al:
  "al_shows (esc (ul_ecat_slave_init m ident)) \<lparr>al_st = Init, al_err = False, al_status_code = 0\<rparr>"
  by (simp add: al_shows_def read_u16_reg ul_ecat_slave_init_def ul_ecat_esc_set_al_status_init_def
      of_le16_def al_word_def)

text \<open>
  Property C12. The slave's AL handler implements the abstract AL machine: when AL Status and AL
  Status Code show the view \<open>v\<close>, then after a write of AL Control they show \<open>al_spec\<close> of it, for
  every requested nibble and both values of the acknowledge bit.
\<close>

theorem al_on_control_write_refines:
  assumes "al_shows (esc s) v"
  shows "al_shows (esc (ul_ecat_slave_al_on_control_write s))
           (al_spec (ul_ecat_sm_validate_mailbox_pair (esc s)) v
              (ucast (al_ctl (esc s) AND UL_ECAT_AL_MASK_STATE))
              (al_ctl (esc s) AND UL_ECAT_AL_CTRL_ACK \<noteq> 0))"
  by (rule al_on_control_write_shows [OF assms])

theorem al_on_control_write_refines_witness:
  "al_shows (esc (ul_ecat_slave_al_on_control_write
       ((ul_ecat_slave_init [] ident0)\<lparr>esc := mem_write (esc (ul_ecat_slave_init [] ident0)) 0x120 [8, 0]\<rparr>)))
     \<lparr>al_st = Init, al_err = True, al_status_code = 0x11\<rparr>"
proof -
  let ?s = "(ul_ecat_slave_init [] ident0)\<lparr>esc := mem_write (esc (ul_ecat_slave_init [] ident0)) 0x120 [8, 0]\<rparr>"
  have v: "al_shows (esc ?s) \<lparr>al_st = Init, al_err = False, al_status_code = 0\<rparr>"
    using slave_init_al [of "[]" ident0] by (simp add: al_shows_def read_u16_reg mem_write_outside)
  moreover have "al_ctl (esc ?s) = 8" by (simp add: al_ctl_def read_u16_reg of_le16_def)
  ultimately show ?thesis
    using al_on_control_write_refines [OF v]
    by (simp add: al_spec_def al_reject_def al_edge_simps)
qed

end
