(* ===== verification/SlavePdu.thy ===== *)
theory SlavePdu
  imports Wire Mailbox SlaveAl
begin

text \<open>
  Datagram processing of the slave: \<open>src/slave/ul_ecat_slave_pdu.c\<close> and the Ethernet wrapper of
  \<open>src/slave/ul_ecat_slave.c\<close>. Each datagram of the area is parsed into a 256-byte buffer, executed
  against the mirror (\<open>process_one\<close>), and encoded again into the reply with its new working
  counter. The reference is \<open>serve\<close>, which executes a list of decoded datagrams; the refinement
  lemma covers accepted and rejected areas, including the state a rejected area leaves behind.
\<close>

abbreviation DG_DATA_MAX :: nat where "DG_DATA_MAX \<equiv> 256"

section \<open>The code\<close>

definition ado_range_overlaps :: "u16 \<Rightarrow> u16 \<Rightarrow> nat \<Rightarrow> bool" where
  "ado_range_overlaps ado dlen reg \<longleftrightarrow> unat ado \<le> reg \<and> unat ado + unat dlen > reg"

definition process_one ::
  "slave \<Rightarrow> byte \<Rightarrow> u16 \<Rightarrow> u16 \<Rightarrow> u16 \<Rightarrow> bytes option \<Rightarrow> bytes \<Rightarrow> u16 \<times> bytes \<times> slave" where
  "process_one s cmd adp ado dlen data_in data_out =
     (if cmd = UL_ECAT_CMD_FPRD then
        let st = ul_ecat_esc_read_u16_le (esc s) 0x0010 in
        if st \<noteq> 0 \<and> adp = st then
          case (if dlen > 0 then ul_ecat_esc_read (esc s) ado (unat dlen) else None) of
            Some out \<Rightarrow> (1, out, ul_ecat_slave_mailbox_on_sm1_read s ado dlen)
          | None \<Rightarrow> (0, data_out, s)
        else (0, data_out, s)
      else if cmd = UL_ECAT_CMD_FPWR then
        let st = ul_ecat_esc_read_u16_le (esc s) 0x0010 in
        if st \<noteq> 0 \<and> adp = st then
          case (case data_in of
                  Some d \<Rightarrow> if dlen > 0 then ul_ecat_esc_write (esc s) ado (take (unat dlen) d) else None
                | None \<Rightarrow> None) of
            Some e \<Rightarrow>
              let s1 = s\<lparr>esc := e\<rparr>;
                  s2 = (if ado_range_overlaps ado dlen UL_ECAT_ESC_REG_ALCTL
                        then ul_ecat_slave_al_on_control_write s1 else s1) in
              (1, data_out, snd (ul_ecat_slave_mailbox_on_sm0_write s2 ado dlen))
          | None \<Rightarrow> (0, data_out, s)
        else (0, data_out, s)
      else if cmd = UL_ECAT_CMD_APWR then
        case (case data_in of
                Some d \<Rightarrow> if adp = logical_position s \<and> dlen > 0
                           then ul_ecat_esc_write (esc s) ado (take (unat dlen) d) else None
              | None \<Rightarrow> None) of
          Some e \<Rightarrow>
            let s1 = s\<lparr>esc := e\<rparr> in
            (1, data_out, if ado_range_overlaps ado dlen UL_ECAT_ESC_REG_ALCTL
                          then ul_ecat_slave_al_on_control_write s1 else s1)
        | None \<Rightarrow> (0, data_out, s)
      else (0, data_out, s))"

fun process_dgrams :: "slave \<Rightarrow> bytes \<Rightarrow> nat \<Rightarrow> nat \<Rightarrow> bytes \<Rightarrow> nat \<Rightarrow> bytes option \<times> slave" where
  "process_dgrams s pdu_in i 0 pdu_out cap = (Some pdu_out, s)"
| "process_dgrams s pdu_in i (Suc left) pdu_out cap =
     (case ul_ecat_dgram_parse pdu_in i (Some DG_DATA_MAX) of
        None \<Rightarrow> (None, s)
      | Some d \<Rightarrow>
          if unat (d_len d) > DG_DATA_MAX then (None, s)
          else
            let din = (if d_len d > 0 then Some (d_data d) else None);
                (wkc, datab, s') = process_one s (d_cmd d) (d_adp d) (d_ado d) (d_len d) din (d_data d) in
            case ul_ecat_dgram_encode (cap - length pdu_out) (d_cmd d) (d_index d) (d_adp d) (d_ado d)
                   (d_len d) (d_irq d) wkc (Some datab) of
              None \<Rightarrow> (None, s')
            | Some enc \<Rightarrow> process_dgrams s' pdu_in (i + 1) left (pdu_out @ enc) cap)"

definition ul_ecat_slave_process_pdu :: "slave \<Rightarrow> bytes \<Rightarrow> nat \<Rightarrow> bytes option \<times> slave" where
  "ul_ecat_slave_process_pdu s pdu_in cap =
     (case ul_ecat_pdu_count_datagrams pdu_in of
        None \<Rightarrow> (None, s)
      | Some nd \<Rightarrow> process_dgrams s pdu_in 0 nd [] cap)"

definition ul_ecat_slave_process_ethernet :: "slave \<Rightarrow> bytes \<Rightarrow> nat \<Rightarrow> bytes option \<times> slave" where
  "ul_ecat_slave_process_ethernet s rx tx_cap =
     (case ul_ecat_parse_eth_frame rx of
        None \<Rightarrow> (None, s)
      | Some pdu \<Rightarrow>
          if length pdu > UL_ECAT_MAX_EC_PAYLOAD then (None, s)
          else
            case ul_ecat_slave_process_pdu s pdu UL_ECAT_MAX_EC_PAYLOAD of
              (None, s') \<Rightarrow> (None, s')
            | (Some out, s') \<Rightarrow> (ul_ecat_build_eth_frame (slice 6 6 rx) (mac s') out tx_cap, s'))"

section \<open>The reference: executing decoded datagrams\<close>

definition serve1 :: "slave \<Rightarrow> dgram \<Rightarrow> dgram \<times> slave" where
  "serve1 s d =
     (let (wkc, out, s') = process_one s (d_cmd d) (d_adp d) (d_ado d) (d_len d)
                             (if d_len d > 0 then Some (d_data d) else None) (d_data d) in
      (d\<lparr>d_wkc := wkc, d_data := out\<rparr>, s'))"

fun serve :: "slave \<Rightarrow> dgram list \<Rightarrow> dgram list \<times> slave" where
  "serve s [] = ([], s)"
| "serve s (d # ds) =
     (let (r, s') = serve1 s d; (rs, s'') = serve s' ds in (r # rs, s''))"

definition slave_decode :: "bytes \<Rightarrow> dgram option" where
  "slave_decode c = map_option fst (parse_one_dgram c (Some DG_DATA_MAX))"

text \<open>The datagrams of an area up to the first one the slave cannot take.\<close>

fun decodable_prefix :: "bytes list \<Rightarrow> dgram list" where
  "decodable_prefix [] = []"
| "decodable_prefix (c # cs) =
     (case slave_decode c of None \<Rightarrow> [] | Some d \<Rightarrow> d # decodable_prefix cs)"

lemma decodable_prefix_le: "length (decodable_prefix cs) \<le> length cs"
  by (induction cs) (auto split: option.split)

lemma decodable_prefix_all:
  "length (decodable_prefix cs) = length cs \<longleftrightarrow> (\<forall>c \<in> set cs. slave_decode c \<noteq> None)"
proof (induction cs)
  case (Cons c cs)
  then show ?case using decodable_prefix_le [of cs] by (auto split: option.split)
qed simp

lemma slave_decode_valid:
  "slave_decode c = Some d \<Longrightarrow> raw_len c = length c \<Longrightarrow>
     valid_dgram d \<and> unat (d_len d) \<le> DG_DATA_MAX \<and> length (dgram_bytes d) = length c"
  using length_dgram_bytes
  by (auto simp: slave_decode_def parse_one_dgram_def valid_dgram_def raw_len_def Let_def
      ul_ecat_dgram_wire_size_def length_slice dgram_bytes_def word_gt_0 split: if_splits)

section \<open>Shape of one step\<close>

lemma process_one_out:
  assumes "process_one s cmd adp ado dlen din out = (wkc, out', s')"
  shows "wkc = 0 \<or> wkc = 1" and "length out = unat dlen \<Longrightarrow> length out' = unat dlen"
    and "mac s' = mac s" "logical_position s' = logical_position s"
  using assms
  by (auto simp: process_one_def Let_def on_control_write_frame on_sm0_write_eq on_sm1_read_eq
      dest!: esc.rd_SomeD split: if_splits option.splits)

lemma serve1_shape:
  assumes "serve1 s d = (r, s')" and "valid_dgram d"
  shows "valid_dgram r" "d_len r = d_len d" "d_cmd r = d_cmd d" "d_index r = d_index d"
    "d_adp r = d_adp d" "d_ado r = d_ado d" "d_irq r = d_irq d" "d_wkc r = 0 \<or> d_wkc r = 1"
    "length (dgram_bytes r) = length (dgram_bytes d)" "mac s' = mac s"
    "logical_position s' = logical_position s"
proof -
  obtain wkc out where p: "process_one s (d_cmd d) (d_adp d) (d_ado d) (d_len d)
      (if d_len d > 0 then Some (d_data d) else None) (d_data d) = (wkc, out, s')"
    and r: "r = d\<lparr>d_wkc := wkc, d_data := out\<rparr>"
    using assms(1) by (auto simp: serve1_def split: prod.splits)
  from process_one_out [OF p] r assms(2)
  show "valid_dgram r" "d_len r = d_len d" "d_cmd r = d_cmd d" "d_index r = d_index d"
    "d_adp r = d_adp d" "d_ado r = d_ado d" "d_irq r = d_irq d" "d_wkc r = 0 \<or> d_wkc r = 1"
    "length (dgram_bytes r) = length (dgram_bytes d)" "mac s' = mac s"
    "logical_position s' = logical_position s"
    by (auto simp: valid_dgram_def length_dgram_bytes)
qed

lemma serve_shape:
  "serve s ds = (rs, s') \<Longrightarrow> \<forall>d \<in> set ds. valid_dgram d \<Longrightarrow>
     (\<forall>r \<in> set rs. valid_dgram r \<and> (d_wkc r = 0 \<or> d_wkc r = 1)) \<and>
     length (concat (map dgram_bytes rs)) = length (concat (map dgram_bytes ds)) \<and>
     list_all2 (\<lambda>d r. d_cmd r = d_cmd d \<and> d_index r = d_index d \<and> d_adp r = d_adp d
        \<and> d_ado r = d_ado d \<and> d_len r = d_len d \<and> d_irq r = d_irq d) ds rs \<and>
     mac s' = mac s \<and> logical_position s' = logical_position s"
proof (induction ds arbitrary: s rs)
  case Nil
  then show ?case by simp
next
  case (Cons d ds)
  obtain r s1 rs1 where step: "serve1 s d = (r, s1)" "serve s1 ds = (rs1, s')" "rs = r # rs1"
    using Cons.prems(1) by (auto simp: Let_def split: prod.splits)
  from serve1_shape [OF step(1)] Cons.IH [OF step(2)] step(3) Cons.prems(2)
  show ?case by auto
qed

section \<open>Refinement\<close>

lemma process_dgrams_step:
  assumes "ul_ecat_dgram_parse p i (Some DG_DATA_MAX) = Some d" "valid_dgram d"
    "unat (d_len d) \<le> DG_DATA_MAX" "serve1 s d = (r, s')"
    "length out + length (dgram_bytes d) \<le> cap"
  shows "process_dgrams s p i (Suc n) out cap = process_dgrams s' p (i + 1) n (out @ dgram_bytes r) cap"
proof -
  obtain wkc o' where po: "process_one s (d_cmd d) (d_adp d) (d_ado d) (d_len d)
      (if d_len d > 0 then Some (d_data d) else None) (d_data d) = (wkc, o', s')"
    and r: "r = d\<lparr>d_wkc := wkc, d_data := o'\<rparr>"
    using assms(4) by (auto simp: serve1_def split: prod.splits)
  from serve1_shape(1,9) [OF assms(4,2)] encode_dgram_bytes [of r "cap - length out"] assms(5)
  have "ul_ecat_dgram_encode (cap - length out) (d_cmd d) (d_index d) (d_adp d) (d_ado d)
      (d_len d) (d_irq d) wkc (Some o') = Some (dgram_bytes r)"
    by (simp add: r)
  with assms(1,3) po show ?thesis by simp
qed

lemma process_dgrams_serve:
  assumes "pdu_split p = Some cs"
  shows "length out + length (concat (drop i cs)) \<le> cap \<Longrightarrow> i + n = length cs \<Longrightarrow>
    process_dgrams s p i n out cap =
      (let ds = decodable_prefix (drop i cs); (rs, s') = serve s ds in
       (if length ds = n then Some (out @ concat (map dgram_bytes rs)) else None, s'))"
proof (induction n arbitrary: s i out)
  case 0
  then show ?case by simp
next
  case (Suc n)
  then have i: "i < length cs" by simp
  then have cs_i: "drop i cs = cs ! i # drop (Suc i) cs" by (simp add: Cons_nth_drop_Suc)
  have parse: "ul_ecat_dgram_parse p i (Some DG_DATA_MAX) = slave_decode (cs ! i)"
    using dgram_parse_split [OF assms] i by (simp add: slave_decode_def)
  have raw: "raw_len (cs ! i) = length (cs ! i)"
    using pdu_split_parts [OF assms] i by (simp add: nth_mem)
  show ?case
  proof (cases "slave_decode (cs ! i)")
    case None
    then show ?thesis by (simp add: parse cs_i)
  next
    case (Some d)
    note v = slave_decode_valid [OF Some raw]
    obtain r s1 where step: "serve1 s d = (r, s1)" by (cases "serve1 s d")
    have fit: "length out + length (dgram_bytes d) \<le> cap"
      using Suc.prems(1) v cs_i by simp
    have len: "length (out @ dgram_bytes r) + length (concat (drop (i + 1) cs)) \<le> cap"
      using Suc.prems(1) v cs_i serve1_shape(9) [OF step] by simp
    have "process_dgrams s p i (Suc n) out cap = process_dgrams s1 p (i + 1) n (out @ dgram_bytes r) cap"
      using process_dgrams_step [OF _ _ _ step fit] v parse Some by simp
    also have "\<dots> = (let ds = decodable_prefix (drop (i + 1) cs); (rs, s') = serve s1 ds in
       (if length ds = n then Some ((out @ dgram_bytes r) @ concat (map dgram_bytes rs)) else None, s'))"
      using Suc.IH [OF len] Suc.prems(2) by simp
    finally show ?thesis
      using Some step cs_i by (simp add: Let_def split: prod.split)
  qed
qed

lemma process_pdu_serve:
  assumes "pdu_split p = Some cs" "length p \<le> cap"
  shows "ul_ecat_slave_process_pdu s p cap =
    (let ds = decodable_prefix cs; (rs, s') = serve s ds in
     (if length ds = length cs then Some (concat (map dgram_bytes rs)) else None, s'))"
  using process_dgrams_serve [OF assms(1), of "[]" 0 cap "length cs" s] assms
    pdu_split_parts [OF assms(1)]
  by (simp add: ul_ecat_slave_process_pdu_def count_datagrams_split Let_def split: prod.splits)

lemma process_pdu_malformed:
  "pdu_split p = None \<Longrightarrow> ul_ecat_slave_process_pdu s p cap = (None, s)"
  by (simp add: ul_ecat_slave_process_pdu_def count_datagrams_split)

lemma decodable_prefix_encoded:
  "\<forall>d \<in> set ds. valid_dgram d \<and> unat (d_len d) \<le> DG_DATA_MAX \<Longrightarrow>
     decodable_prefix (map dgram_bytes ds) = ds"
  by (induction ds) (auto simp: slave_decode_def parse_dgram_bytes, auto simp: valid_dgram_def)

lemma process_pdu_encoded:
  assumes "\<forall>d \<in> set ds. valid_dgram d \<and> unat (d_len d) \<le> DG_DATA_MAX"
    and "length (concat (map dgram_bytes ds)) \<le> cap" "serve s ds = (rs, s')"
  shows "ul_ecat_slave_process_pdu s (concat (map dgram_bytes ds)) cap =
    (Some (concat (map dgram_bytes rs)), s')"
  using process_pdu_serve [OF pdu_split_dgrams assms(2), of s] assms(1,3)
    decodable_prefix_encoded [OF assms(1)] by simp

section \<open>What a datagram can change\<close>

text \<open>Whether the datagram is a write, and the addresses it then writes itself.\<close>

definition is_write :: "dgram \<Rightarrow> bool" where
  "is_write d \<longleftrightarrow> d_cmd d = UL_ECAT_CMD_FPWR \<or> d_cmd d = UL_ECAT_CMD_APWR"

definition covers :: "dgram \<Rightarrow> nat \<Rightarrow> bool" where
  "covers d i \<longleftrightarrow> unat (d_ado d) \<le> i \<and> i < unat (d_ado d) + unat (d_len d)"

text \<open>The registers the slave updates on its own: AL Status and its code, the two mailbox flags.\<close>

definition slave_owned :: "nat set" where
  "slave_owned = {0x130, 0x131, 0x134, 0x135, 0x805, 0x80D}"

definition addressed :: "slave \<Rightarrow> dgram \<Rightarrow> bool" where
  "addressed s d \<longleftrightarrow>
     (if d_cmd d = UL_ECAT_CMD_APWR then d_adp d = logical_position s
      else (d_cmd d = UL_ECAT_CMD_FPRD \<or> d_cmd d = UL_ECAT_CMD_FPWR)
        \<and> ul_ecat_esc_read_u16_le (esc s) 0x0010 \<noteq> 0
        \<and> d_adp d = ul_ecat_esc_read_u16_le (esc s) 0x0010)"

definition in_mirror :: "dgram \<Rightarrow> bool" where
  "in_mirror d \<longleftrightarrow> d_len d \<noteq> 0 \<and> unat (d_ado d) + unat (d_len d) \<le> UL_ECAT_SLAVE_ESC_SIZE"

lemma not_in_mirror:
  assumes "\<not> in_mirror d"
  shows "d_len d = 0 \<or> ul_ecat_esc_read e (d_ado d) (unat (d_len d)) = None"
    and "valid_dgram d \<Longrightarrow>
      d_len d = 0 \<or> ul_ecat_esc_write e (d_ado d) (take (unat (d_len d)) (d_data d)) = None"
  using assms by (auto simp: in_mirror_def valid_dgram_def ul_ecat_esc_read_def ul_ecat_esc_write_def)

lemma serve1_unaddressed:
  assumes "\<not> addressed s d \<or> \<not> in_mirror d" "valid_dgram d"
  shows "serve1 s d = (d\<lparr>d_wkc := 0\<rparr>, s)"
proof -
  have "process_one s (d_cmd d) (d_adp d) (d_ado d) (d_len d)
      (if d_len d > 0 then Some (d_data d) else None) (d_data d) = (0, d_data d, s)"
  proof (cases "addressed s d")
    case False
    then show ?thesis
      by (auto simp: process_one_def addressed_def Let_def)
  next
    case True
    with assms have "\<not> in_mirror d" by simp
    note rw = not_in_mirror [OF this, of "esc s"]
    show ?thesis
      using rw(1) rw(2) [OF assms(2)]
      by (auto simp: process_one_def Let_def word_gt_0)
  qed
  then show ?thesis by (simp add: serve1_def)
qed

lemma serve1_read:
  assumes "d_cmd d = UL_ECAT_CMD_FPRD" "addressed s d" "in_mirror d"
  shows "serve1 s d =
    (d\<lparr>d_wkc := 1, d_data := mem_read (esc s) (unat (d_ado d)) (unat (d_len d))\<rparr>,
     ul_ecat_slave_mailbox_on_sm1_read s (d_ado d) (d_len d))"
  using assms
  by (simp add: serve1_def process_one_def addressed_def in_mirror_def Let_def
      ul_ecat_esc_read_def word_gt_0 unat_eq_zero)

lemma serve1_write:
  assumes "is_write d" "addressed s d" "in_mirror d" "valid_dgram d"
  defines "s1 \<equiv> s\<lparr>esc := mem_write (esc s) (unat (d_ado d)) (d_data d)\<rparr>"
  defines "s2 \<equiv> (if covers d UL_ECAT_ESC_REG_ALCTL then ul_ecat_slave_al_on_control_write s1 else s1)"
  shows "serve1 s d = (d\<lparr>d_wkc := 1\<rparr>,
     if d_cmd d = UL_ECAT_CMD_FPWR
     then snd (ul_ecat_slave_mailbox_on_sm0_write s2 (d_ado d) (d_len d)) else s2)"
proof -
  have len: "length (d_data d) = unat (d_len d)" "d_len d > 0" "0 < unat (d_len d)"
    using assms(3,4) unat_eq_zero [of "d_len d"]
    by (auto simp: in_mirror_def valid_dgram_def word_gt_0 simp del: unat_eq_zero)
  then have "d_data d \<noteq> []" by auto
  with len have w: "ul_ecat_esc_write (esc s) (d_ado d) (take (unat (d_len d)) (d_data d))
      = Some (mem_write (esc s) (unat (d_ado d)) (d_data d))"
    using assms(3) by (simp add: ul_ecat_esc_write_def in_mirror_def)
  have c: "covers d 0x120 \<longleftrightarrow> ado_range_overlaps (d_ado d) (d_len d) 0x120"
    by (auto simp: covers_def ado_range_overlaps_def)
  show ?thesis
    using assms(1,2) w \<open>d_len d > 0\<close>
    by (auto simp: serve1_def process_one_def addressed_def is_write_def Let_def s2_def s1_def c)
qed

lemma addressed_cases:
  assumes "valid_dgram d"
  obtains "\<not> addressed s d \<or> \<not> in_mirror d"
  | "d_cmd d = UL_ECAT_CMD_FPRD" "addressed s d" "in_mirror d"
  | "is_write d" "addressed s d" "in_mirror d"
proof (cases "addressed s d \<and> in_mirror d")
  case True
  then have "d_cmd d = UL_ECAT_CMD_FPRD \<or> is_write d"
    by (auto simp: addressed_def is_write_def split: if_splits)
  with True that show thesis by blast
next
  case False
  with that show thesis by blast
qed

lemma on_sm0_write_frame:
  "j \<noteq> 0x805 \<Longrightarrow> esc (snd (ul_ecat_slave_mailbox_on_sm0_write s a n)) j = esc s j"
  by (simp add: on_sm0_write_eq Let_def status_bit_frame)

lemma on_sm1_read_frame: "j \<noteq> 0x80D \<Longrightarrow> esc (ul_ecat_slave_mailbox_on_sm1_read s a n) j = esc s j"
  by (simp add: on_sm1_read_eq Let_def status_bit_frame)

lemma serve1_frame:
  assumes "serve1 s d = (r, s')" "valid_dgram d" "j \<notin> slave_owned"
    and "\<not> (is_write d \<and> covers d j)"
  shows "esc s' j = esc s j"
proof (cases rule: addressed_cases [OF assms(2), of s])
  case 1
  then show ?thesis using assms(1) serve1_unaddressed [OF 1 assms(2)] by simp
next
  case 2
  then show ?thesis
    using assms(1,3) serve1_read [OF 2] on_sm1_read_frame by (auto simp: slave_owned_def)
next
  case 3
  have "length (d_data d) = unat (d_len d)" using assms(2) by (simp add: valid_dgram_def)
  then have "mem_write (esc s) (unat (d_ado d)) (d_data d) j = esc s j"
    using 3(1) assms(4) by (auto simp: covers_def mem_write_outside)
  then show ?thesis
    using assms(1,3) serve1_write [OF 3 assms(2)]
    by (auto simp: slave_owned_def on_sm0_write_frame on_control_write_frame)
qed

lemma serve1_same_above:
  assumes "serve1 s d = (r, s')" "valid_dgram d"
  shows "same_above (esc s) (esc s')"
proof (cases "in_mirror d")
  case False
  then show ?thesis using assms serve1_unaddressed [of s d] by simp
next
  case True
  then show ?thesis
    using serve1_frame [OF assms]
    by (auto simp: same_above_def slave_owned_def covers_def in_mirror_def)
qed

lemma serve_same_above:
  "serve s ds = (rs, s') \<Longrightarrow> \<forall>d \<in> set ds. valid_dgram d \<Longrightarrow> same_above (esc s) (esc s')"
proof (induction ds arbitrary: s rs)
  case Nil
  then show ?case by simp
next
  case (Cons d ds)
  then obtain r s1 rs1 where "serve1 s d = (r, s1)" "serve s1 ds = (rs1, s')"
    by (auto simp: Let_def split: prod.splits)
  with Cons show ?case
    by (auto intro: same_above_trans [OF serve1_same_above])
qed

end
