(* ===== verification/SlaveSafety.thy ===== *)
theory SlaveSafety
  imports SlavePdu
begin

text \<open>
  Properties of whole datagram streams on the slave: the AL history (locale \<open>al_device\<close>,
  interpreted on the slave's datagram step), the addressing and working-counter rules, the
  refinement of the byte-level processing to \<open>serve\<close>, and the Ethernet round trip.
\<close>

section \<open>Devices that follow the AL graph\<close>

locale al_device =
  fixes step :: "'s \<Rightarrow> 'e \<Rightarrow> 's"
    and st :: "'s \<Rightarrow> al_state"
    and inv :: "'s \<Rightarrow> bool"
    and allowed :: "'e \<Rightarrow> bool"
  assumes inv_step: "inv s \<Longrightarrow> allowed e \<Longrightarrow> inv (step s e)"
    and edge_step: "inv s \<Longrightarrow> allowed e \<Longrightarrow> st (step s e) = st s \<or> al_edge (st s) (st (step s e))"
begin

lemma inv_run: "inv s \<Longrightarrow> \<forall>e \<in> set es. allowed e \<Longrightarrow> inv (foldl step s es)"
  by (induction es arbitrary: s) (simp_all add: inv_step)

lemma op_from_safeop:
  "inv s \<Longrightarrow> \<forall>e \<in> set es. allowed e \<Longrightarrow> st s \<noteq> Op \<Longrightarrow> st (foldl step s es) = Op \<Longrightarrow>
     \<exists>xs zs. es = xs @ zs \<and> st (foldl step s xs) = Safeop"
proof (induction es rule: rev_induct)
  case Nil
  then show ?case by simp
next
  case (snoc e es)
  show ?case
  proof (cases "st (foldl step s es) = Op")
    case True
    with snoc obtain xs zs where "es = xs @ zs" "st (foldl step s xs) = Safeop" by auto
    then have "es @ [e] = xs @ (zs @ [e])" by simp
    with \<open>st (foldl step s xs) = Safeop\<close> show ?thesis by blast
  next
    case False
    with snoc.prems edge_step [OF inv_run [OF snoc.prems(1)], of es e]
    have "al_edge (st (foldl step s es)) Op" by auto
    with False have "st (foldl step s es) = Safeop" by (auto elim: al_edge_to_op)
    then show ?thesis by blast
  qed
qed

lemma working_from_preop:
  "inv s \<Longrightarrow> \<forall>e \<in> set es. allowed e \<Longrightarrow> st s = Init \<Longrightarrow> st (foldl step s es) \<in> {Safeop, Op} \<Longrightarrow>
     \<exists>xs zs. es = xs @ zs \<and> st (foldl step s xs) = Preop"
proof (induction es rule: rev_induct)
  case Nil
  then show ?case by simp
next
  case (snoc e es)
  show ?case
  proof (cases "st (foldl step s es) \<in> {Safeop, Op}")
    case True
    with snoc obtain xs zs where "es = xs @ zs" "st (foldl step s xs) = Preop" by auto
    then have "es @ [e] = xs @ (zs @ [e])" by simp
    with \<open>st (foldl step s xs) = Preop\<close> show ?thesis by blast
  next
    case False
    with snoc.prems edge_step [OF inv_run [OF snoc.prems(1)], of es e]
    have "al_edge (st (foldl step s es)) Safeop \<or> al_edge (st (foldl step s es)) Op" by auto
    with False have "st (foldl step s es) = Preop"
      by (auto elim: al_edge_to_op al_edge_to_safeop)
    then show ?thesis by blast
  qed
qed

lemma op_history:
  assumes "inv s" "\<forall>e \<in> set es. allowed e" "st s = Init" "st (foldl step s es) = Op"
  shows "\<exists>xs ys zs. es = xs @ ys @ zs \<and> st (foldl step s xs) = Preop \<and>
           st (foldl step s (xs @ ys)) = Safeop"
proof -
  obtain us zs where us: "es = us @ zs" "st (foldl step s us) = Safeop"
    using op_from_safeop [OF assms(1,2)] assms(3,4) by auto
  obtain xs ys where "us = xs @ ys" "st (foldl step s xs) = Preop"
    using working_from_preop [OF assms(1), of us] assms(2,3) us by auto
  with us show ?thesis by (metis append.assoc)
qed

end

section \<open>The slave follows the graph\<close>

definition al_state_of :: "slave \<Rightarrow> al_state" where
  "al_state_of s =
     (case al_decode (ul_ecat_al_status_state (ul_ecat_esc_read_u16_le (esc s) 0x0130)) of
        Some t \<Rightarrow> t | None \<Rightarrow> Init)"

definition al_wf :: "slave \<Rightarrow> bool" where
  "al_wf s \<longleftrightarrow> (\<exists>v. al_shows (esc s) v)"

definition al_protected :: "dgram \<Rightarrow> bool" where
  "al_protected d \<longleftrightarrow> valid_dgram d \<and>
     (is_write d \<longrightarrow> unat (d_ado d) + unat (d_len d) \<le> 0x130 \<or> 0x136 \<le> unat (d_ado d))"

definition dgram_step :: "slave \<Rightarrow> dgram \<Rightarrow> slave" where
  "dgram_step s d = snd (serve1 s d)"

lemma serve_foldl: "snd (serve s ds) = foldl dgram_step s ds"
  by (induction ds arbitrary: s) (simp_all add: dgram_step_def Let_def case_prod_beta)

lemma al_shows_cong:
  "\<forall>j \<in> {0x130, 0x131, 0x134, 0x135}. e' j = e j \<Longrightarrow> al_shows e' v \<longleftrightarrow> al_shows e v"
  by (simp add: al_shows_def read_u16_reg)

lemma al_state_of_shows: "al_shows (esc s) v \<Longrightarrow> al_state_of s = al_st v"
  by (simp add: al_state_of_def al_shows_def)

lemma al_spec_edge: "al_st (al_spec mbx v req ack) = al_st v \<or> al_edge (al_st v) (al_st (al_spec mbx v req ack))"
  by (simp add: al_spec_def al_reject_def split: option.split)

lemma al_spec_preop_needs_mailbox:
  "al_st v = Init \<Longrightarrow> al_st (al_spec mbx v req ack) = Preop \<Longrightarrow> mbx"
  by (auto simp: al_spec_def al_reject_def split: option.splits if_splits)

lemma dgram_step_al:
  assumes "al_shows (esc s) v" "al_protected d"
  shows "\<exists>v'. al_shows (esc (dgram_step s d)) v' \<and>
           (v' = v \<or> (\<exists>mbx req ack. v' = al_spec mbx v req ack))"
proof -
  have valid: "valid_dgram d" using assms(2) by (simp add: al_protected_def)
  show ?thesis
  proof (cases rule: addressed_cases [OF valid, of s])
    case 1
    then show ?thesis using assms(1) by (auto simp: dgram_step_def serve1_unaddressed valid)
  next
    case 2
    have "al_shows (esc (dgram_step s d)) v"
      using assms(1) by (subst al_shows_cong [of _ "esc s"])
        (simp_all add: dgram_step_def serve1_read [OF 2] on_sm1_read_frame)
    then show ?thesis by blast
  next
    case 3
    define s1 where "s1 = s\<lparr>esc := mem_write (esc s) (unat (d_ado d)) (d_data d)\<rparr>"
    define s2 where "s2 = (if covers d 0x120 then ul_ecat_slave_al_on_control_write s1 else s1)"
    have "length (d_data d) = unat (d_len d)" using valid by (simp add: valid_dgram_def)
    then have v1: "al_shows (esc s1) v"
      using assms 3(1) by (subst al_shows_cong [of _ "esc s"])
        (auto simp: s1_def al_protected_def intro!: mem_write_outside)
    obtain v2 where v2: "al_shows (esc s2) v2"
      and spec: "v2 = v \<or> (\<exists>mbx req ack. v2 = al_spec mbx v req ack)"
    proof (cases "covers d 0x120")
      case True
      with al_on_control_write_shows [OF v1] that show thesis by (auto simp: s2_def)
    next
      case False
      with v1 that show thesis by (auto simp: s2_def)
    qed
    have "al_shows (esc (dgram_step s d)) v2"
      using v2 by (subst al_shows_cong [of _ "esc s2"])
        (auto simp: dgram_step_def serve1_write [OF 3 valid] on_sm0_write_frame s2_def s1_def)
    with spec show ?thesis by blast
  qed
qed

interpretation slave_al: al_device dgram_step al_state_of al_wf al_protected
proof unfold_locales
  fix s d assume wf: "al_wf s" and p: "al_protected d"
  then obtain v v' where v: "al_shows (esc s) v" and v': "al_shows (esc (dgram_step s d)) v'"
    and spec: "v' = v \<or> (\<exists>mbx req ack. v' = al_spec mbx v req ack)"
    using dgram_step_al by (force simp: al_wf_def)
  from v' show "al_wf (dgram_step s d)" by (auto simp: al_wf_def)
  show "al_state_of (dgram_step s d) = al_state_of s
      \<or> al_edge (al_state_of s) (al_state_of (dgram_step s d))"
    using spec al_spec_edge by (auto simp: al_state_of_shows [OF v] al_state_of_shows [OF v'])
qed

section \<open>One AL request\<close>

definition al_request :: "u16 \<Rightarrow> u16 \<Rightarrow> dgram" where
  "al_request station w = \<lparr>d_cmd = UL_ECAT_CMD_FPWR, d_index = 0, d_adp = station, d_ado = 0x120,
     d_len = 2, d_irq = 0, d_wkc = 0, d_data = le16 w\<rparr>"

lemma al_request_valid: "valid_dgram (al_request st w)" "al_protected (al_request st w)"
  by (simp_all add: al_request_def valid_dgram_def al_protected_def)

definition station_of :: "slave \<Rightarrow> u16" where
  "station_of s = ul_ecat_esc_read_u16_le (esc s) 0x0010"

lemma al_request_step:
  assumes "al_shows (esc s) v" "station_of s = st" "st \<noteq> 0" "serve1 s (al_request st w) = (r, s')"
  shows "d_wkc r = 1"
    and "al_shows (esc s') (al_spec (ul_ecat_sm_validate_mailbox_pair (esc s)) v
           (ucast (w AND UL_ECAT_AL_MASK_STATE)) (w AND UL_ECAT_AL_CTRL_ACK \<noteq> 0))"
    and "station_of s' = st"
    and "ul_ecat_sm_validate_mailbox_pair (esc s') = ul_ecat_sm_validate_mailbox_pair (esc s)"
proof -
  let ?d = "al_request st w"
  define s1 where "s1 = s\<lparr>esc := mem_write (esc s) 0x120 (le16 w)\<rparr>"
  define s2 where "s2 = ul_ecat_slave_al_on_control_write s1"
  have d: "is_write ?d" "addressed s ?d" "in_mirror ?d" "covers ?d 0x120"
    using assms(2,3) by (simp_all add: al_request_def is_write_def addressed_def in_mirror_def
        covers_def station_of_def)
  have step: "serve1 s ?d = (?d\<lparr>d_wkc := 1\<rparr>, snd (ul_ecat_slave_mailbox_on_sm0_write s2 0x120 2))"
    using serve1_write [OF d(1-3) al_request_valid(1)] d(4)
    by (simp add: s1_def s2_def al_request_def)
  with assms(4) show "d_wkc r = 1" by auto
  have s': "s' = snd (ul_ecat_slave_mailbox_on_sm0_write s2 0x120 2)" using step assms(4) by simp
  have far: "j \<notin> {0x120, 0x121, 0x130, 0x131, 0x134, 0x135, 0x805} \<Longrightarrow> esc s' j = esc s j" for j
    unfolding s' s2_def s1_def
    by (auto simp: on_sm0_write_frame on_control_write_frame mem_write_apply)
  show "station_of s' = st"
    using assms(2) far by (simp add: station_of_def read_u16_reg)
  have sm0: "mailbox_sm (ul_ecat_sm_read (esc s') 0) = mailbox_sm (ul_ecat_sm_read (esc s) 0)"
    using far by (simp add: mailbox_sm_def ul_ecat_sm_is_active_def ul_ecat_sm_is_mailbox_def
        ul_ecat_sm_read_def Let_def)
  have "ul_ecat_sm_read (esc s') 1 = ul_ecat_sm_read (esc s) 1"
    using far by (intro sm_read_cong) simp
  with sm0 show "ul_ecat_sm_validate_mailbox_pair (esc s') = ul_ecat_sm_validate_mailbox_pair (esc s)"
    by (simp add: validate_mailbox_pair_iff)
  have v1: "al_shows (esc s1) v"
    using assms(1) by (subst al_shows_cong [of _ "esc s"]) (simp_all add: s1_def mem_write_outside)
  have ctl: "al_ctl (esc s1) = w"
    by (simp add: al_ctl_def s1_def read_u16_reg le16_def of_le16_bytes)
  have m1: "ul_ecat_sm_validate_mailbox_pair (esc s1) = ul_ecat_sm_validate_mailbox_pair (esc s)"
    using sm_read_cong [of 0 "esc s1" "esc s"] sm_read_cong [of 1 "esc s1" "esc s"]
    by (simp add: validate_mailbox_pair_iff s1_def mem_write_outside)
  have "al_shows (esc s2) (al_spec (ul_ecat_sm_validate_mailbox_pair (esc s)) v
           (ucast (w AND UL_ECAT_AL_MASK_STATE)) (w AND UL_ECAT_AL_CTRL_ACK \<noteq> 0))"
    using al_on_control_write_shows [OF v1] by (simp add: ctl m1 s2_def)
  then show "al_shows (esc s') (al_spec (ul_ecat_sm_validate_mailbox_pair (esc s)) v
           (ucast (w AND UL_ECAT_AL_MASK_STATE)) (w AND UL_ECAT_AL_CTRL_ACK \<noteq> 0))"
    by (subst al_shows_cong [of _ "esc s2"]) (simp_all add: s' on_sm0_write_frame)
qed

section \<open>A bring-up\<close>

definition demo_ident :: slave_identity where
  "demo_ident = \<lparr>vendor_id = 2, product_code = 0x1C213052, revision = 1, serial = 1\<rparr>"

definition demo_mac :: bytes where
  "demo_mac = [2, 0, 0, 0, 0, 1]"

definition demo_write :: "byte \<Rightarrow> u16 \<Rightarrow> u16 \<Rightarrow> bytes \<Rightarrow> dgram" where
  "demo_write cmd adp ado bs = \<lparr>d_cmd = cmd, d_index = 0, d_adp = adp, d_ado = ado,
     d_len = word_of_nat (length bs), d_irq = 0, d_wkc = 0, d_data = bs\<rparr>"

definition demo_bring_up :: "dgram list" where
  "demo_bring_up =
     [demo_write UL_ECAT_CMD_APWR 0 0x10 [0x00, 0x10],
      demo_write UL_ECAT_CMD_FPWR 0x1000 0x800
        [0x00, 0x0E, 0x80, 0x00, 0x26, 0x00, 0x01, 0x00, 0x80, 0x0E, 0x80, 0x00, 0x22, 0x00, 0x01, 0x00]]
     @ map (al_request 0x1000) [2, 4, 8]"

lemma demo_write_facts: "length bs \<le> 256 \<Longrightarrow> valid_dgram (demo_write c a o' bs)"
  by (simp add: demo_write_def valid_dgram_def unat_of_nat)

lemma bring_up_config:
  "foldl dgram_step (ul_ecat_slave_init demo_mac demo_ident)
     [demo_write UL_ECAT_CMD_APWR 0 0x10 [0x00, 0x10],
      demo_write UL_ECAT_CMD_FPWR 0x1000 0x800
        [0x00, 0x0E, 0x80, 0x00, 0x26, 0x00, 0x01, 0x00, 0x80, 0x0E, 0x80, 0x00, 0x22, 0x00, 0x01, 0x00]]
   = mailbox_slave"
proof -
  let ?i = "ul_ecat_slave_init demo_mac demo_ident"
  let ?d = "demo_write UL_ECAT_CMD_APWR 0 0x10 [0x00, 0x10]"
  let ?e = "demo_write UL_ECAT_CMD_FPWR 0x1000 0x800
        [0x00, 0x0E, 0x80, 0x00, 0x26, 0x00, 0x01, 0x00, 0x80, 0x0E, 0x80, 0x00, 0x22, 0x00, 0x01, 0x00]"
  let ?s = "?i\<lparr>esc := mem_write (esc ?i) 0x10 [0x00, 0x10]\<rparr>"
  have 1: "dgram_step ?i ?d = ?s"
    unfolding dgram_step_def
    by (subst serve1_write) (simp_all add: demo_write_def is_write_def addressed_def in_mirror_def
        valid_dgram_def covers_def ul_ecat_slave_init_def)
  have 2: "dgram_step ?s ?e = mailbox_slave"
    unfolding dgram_step_def
    apply (subst serve1_write)
    apply (simp_all add: demo_write_def is_write_def addressed_def in_mirror_def
        valid_dgram_def covers_def read_u16_reg of_le16_def)
    apply (simp add: on_sm0_write_eq Let_def ul_ecat_sm_read_def of_le16_def mailbox_slave_def demo_mac_def demo_ident_def)
    done
  show ?thesis by (simp add: 1 2 del: mem_write.simps)
qed

lemma mailbox_slave_al: "al_shows (esc mailbox_slave) \<lparr>al_st = Init, al_err = False, al_status_code = 0\<rparr>"
  using slave_init_al [of "[2, 0, 0, 0, 0, 1]" "\<lparr>vendor_id = 2, product_code = 0x1C213052, revision = 1, serial = 1\<rparr>"]
  by (subst al_shows_cong) (auto simp: mailbox_slave_def intro!: mem_write_outside)

lemma mailbox_slave_station: "station_of mailbox_slave = 0x1000"
  by (simp add: station_of_def read_u16_reg mailbox_slave_def of_le16_def)

lemma mailbox_slave_validates: "ul_ecat_sm_validate_mailbox_pair (esc mailbox_slave)"
  using mailbox_slave_ready by (simp add: validate_mailbox_pair_iff sm_slot_ready_def Let_def)

lemma al_request_run:
  assumes "al_shows (esc s) v" "station_of s = st" "st \<noteq> 0" "ul_ecat_sm_validate_mailbox_pair (esc s)"
  shows "\<exists>v'. v' = al_spec True v (ucast (w AND UL_ECAT_AL_MASK_STATE)) (w AND UL_ECAT_AL_CTRL_ACK \<noteq> 0)
    \<and> al_shows (esc (dgram_step s (al_request st w))) v'
    \<and> station_of (dgram_step s (al_request st w)) = st
    \<and> ul_ecat_sm_validate_mailbox_pair (esc (dgram_step s (al_request st w)))"
proof -
  obtain r s' where "serve1 s (al_request st w) = (r, s')" by (cases "serve1 s (al_request st w)")
  from al_request_step [OF assms(1-3) this] assms(4) this show ?thesis
    by (simp add: dgram_step_def)
qed

lemma demo_bring_up_op:
  "al_state_of (snd (serve (ul_ecat_slave_init demo_mac demo_ident) demo_bring_up)) = Op"
proof -
  let ?s1 = "dgram_step mailbox_slave (al_request 0x1000 2)"
  let ?s2 = "dgram_step ?s1 (al_request 0x1000 4)"
  note st = mailbox_slave_al mailbox_slave_station _ mailbox_slave_validates
  have 1: "al_shows (esc ?s1) \<lparr>al_st = Preop, al_err = False, al_status_code = 0\<rparr>"
    "station_of ?s1 = 0x1000" "ul_ecat_sm_validate_mailbox_pair (esc ?s1)"
    using al_request_run [OF mailbox_slave_al mailbox_slave_station _ mailbox_slave_validates, of 2]
    by (simp_all add: al_spec_def al_edge_simps)
  have 2: "al_shows (esc ?s2) \<lparr>al_st = Safeop, al_err = False, al_status_code = 0\<rparr>"
    "station_of ?s2 = 0x1000" "ul_ecat_sm_validate_mailbox_pair (esc ?s2)"
    using al_request_run [OF 1(1,2) _ 1(3), of 4] by (simp_all add: al_spec_def al_edge_simps)
  have 3: "al_shows (esc (dgram_step ?s2 (al_request 0x1000 8))) \<lparr>al_st = Op, al_err = False, al_status_code = 0\<rparr>"
    using al_request_run [OF 2(1,2) _ 2(3), of 8] by (simp_all add: al_spec_def al_edge_simps)
  have "snd (serve (ul_ecat_slave_init demo_mac demo_ident) demo_bring_up)
      = foldl dgram_step mailbox_slave (map (al_request 0x1000) [2, 4, 8])"
    unfolding serve_foldl demo_bring_up_def foldl_append bring_up_config ..
  then show ?thesis using al_state_of_shows [OF 3] by simp
qed

lemma demo_bring_up_protected: "\<forall>d \<in> set demo_bring_up. al_protected d"
  by (simp add: demo_bring_up_def al_request_valid al_protected_def demo_write_facts)
     (simp add: demo_write_def al_request_def valid_dgram_def)

section \<open>Properties of the AL history\<close>

text \<open>
  Property C6. Started from a freshly initialised slave, no stream of datagrams that keeps off the
  AL Status registers brings the slave to OP without passing PREOP and then SAFEOP: the stream has
  a prefix that ends in PREOP and a longer one that ends in SAFEOP.
\<close>

theorem slave_op_history:
  assumes "\<forall>d \<in> set ds. al_protected d"
    and "al_state_of (snd (serve (ul_ecat_slave_init m ident) ds)) = Op"
  shows "\<exists>xs ys zs. ds = xs @ ys @ zs \<and>
           al_state_of (snd (serve (ul_ecat_slave_init m ident) xs)) = Preop \<and>
           al_state_of (snd (serve (ul_ecat_slave_init m ident) (xs @ ys))) = Safeop"
proof -
  have wf: "al_wf (ul_ecat_slave_init m ident)" using slave_init_al by (auto simp: al_wf_def)
  have init: "al_state_of (ul_ecat_slave_init m ident) = Init"
    using al_state_of_shows [OF slave_init_al, of m ident] by simp
  show ?thesis
    using slave_al.op_history [OF wf assms(1) init] assms(2) by (simp add: serve_foldl)
qed

theorem slave_op_history_witness:
  "\<exists>xs ys zs. demo_bring_up = xs @ ys @ zs \<and>
     al_state_of (snd (serve (ul_ecat_slave_init demo_mac demo_ident) xs)) = Preop \<and>
     al_state_of (snd (serve (ul_ecat_slave_init demo_mac demo_ident) (xs @ ys))) = Safeop"
  using slave_op_history [OF demo_bring_up_protected demo_bring_up_op] .

end
