(* ===== verification/SlaveProps.thy ===== *)
theory SlaveProps
  imports SlaveSafety
begin

text \<open>
  Properties of whole datagram areas and frames on the slave: the refinement of the byte-level
  processing to \<open>serve\<close>, the shape of the answers, addressing and working counters, memory safety,
  and the Ethernet round trip, with witnesses on the configured slave \<open>mailbox_slave\<close>.
\<close>

section \<open>Decoding what the slave answers\<close>

lemma parse_cap_mono:
  "parse_one_dgram c (Some m) = Some r \<Longrightarrow> m \<le> n \<Longrightarrow> parse_one_dgram c (Some n) = Some r"
  by (auto simp: parse_one_dgram_def Let_def split: if_splits)

lemma decode_of_slave_decode: "slave_decode c = Some d \<Longrightarrow> decode_dgram c = Some d"
  using parse_cap_mono [of c DG_DATA_MAX _ UL_ECAT_DGRAM_MAX_DATA]
  by (force simp: slave_decode_def decode_dgram_def)

lemma decodable_prefix_those:
  "length (decodable_prefix cs) = length cs \<Longrightarrow> those (map decode_dgram cs) = Some (decodable_prefix cs)"
proof (induction cs)
  case (Cons c cs)
  then show ?case
    by (auto split: option.splits dest: decode_of_slave_decode)
qed simp

lemma decodable_prefix_valid:
  "\<forall>c \<in> set cs. raw_len c = length c \<Longrightarrow>
     \<forall>d \<in> set (decodable_prefix cs). valid_dgram d \<and> unat (d_len d) \<le> DG_DATA_MAX"
  using slave_decode_valid by (induction cs) (fastforce split: option.splits)+

lemma decodable_prefix_bytes:
  "\<forall>c \<in> set cs. raw_len c = length c \<Longrightarrow> length (decodable_prefix cs) = length cs \<Longrightarrow>
     length (concat (map dgram_bytes (decodable_prefix cs))) = length (concat cs)"
  by (induction cs) (auto split: option.splits dest: slave_decode_valid)

text \<open>An accepted area, with its datagrams and their answers.\<close>

lemma process_pdu_accepted:
  assumes "ul_ecat_slave_process_pdu s p cap = (Some out, s')" "length p \<le> cap"
  obtains ds rs where "wire.decode_area p = Some ds" "serve s ds = (rs, s')"
    "out = concat (map dgram_bytes rs)" "\<forall>d \<in> set ds. valid_dgram d \<and> unat (d_len d) \<le> DG_DATA_MAX"
    "length p = length (concat (map dgram_bytes ds))"
proof -
  obtain cs where cs: "pdu_split p = Some cs"
    using assms(1) process_pdu_malformed [of p s cap] by (cases "pdu_split p") auto
  obtain rs where rs: "serve s (decodable_prefix cs) = (rs, s')"
    "length (decodable_prefix cs) = length cs" "out = concat (map dgram_bytes rs)"
    using process_pdu_serve [OF cs assms(2), of s] assms(1)
    by (auto simp: Let_def split: prod.splits if_splits)
  have dec: "wire.decode_area p = Some (decodable_prefix cs)"
    using cs decodable_prefix_those [OF rs(2)] by (simp add: wire.decode_area_def)
  have len: "length p = length (concat (map dgram_bytes (decodable_prefix cs)))"
    using pdu_split_parts [OF cs] decodable_prefix_bytes [OF _ rs(2)] by auto
  show thesis
    by (rule that [OF dec rs(1,3) _ len]) (use pdu_split_parts [OF cs] decodable_prefix_valid in blast)
qed

text \<open>
  Property C1. Processing a datagram area in place, byte by byte, is executing the decoded list: a
  malformed area is refused untouched; otherwise the datagrams up to the first one that cannot be
  decoded are executed in order, and the answer is their re-encoding when that is all of them and
  a failure (with their effects kept) when it is not.
\<close>

theorem slave_pdu_refines:
  assumes "length p \<le> cap"
  shows "ul_ecat_slave_process_pdu s p cap =
    (case pdu_split p of
       None \<Rightarrow> (None, s)
     | Some cs \<Rightarrow>
         let ds = decodable_prefix cs; (rs, s') = serve s ds in
         (if length ds = length cs then Some (concat (map dgram_bytes rs)) else None, s'))"
  using process_pdu_serve [OF _ assms] process_pdu_malformed by (auto split: option.split)

text \<open>
  An accepted area is answered by an area of the same length that decodes to the same
  datagrams in the same order, with command, index, addresses, length and interrupt word echoed
  and every working counter 0 or 1; the slave's MAC address stays.
\<close>

theorem slave_reply_shape:
  assumes "ul_ecat_slave_process_pdu s p cap = (Some out, s')" "length p \<le> cap"
  shows "length out = length p \<and> mac s' = mac s \<and>
    (\<exists>ds rs. wire.decode_area p = Some ds \<and> wire.decode_area out = Some rs \<and>
       list_all2 (\<lambda>d r. d_cmd r = d_cmd d \<and> d_index r = d_index d \<and> d_adp r = d_adp d \<and>
         d_ado r = d_ado d \<and> d_len r = d_len d \<and> d_irq r = d_irq d \<and> d_wkc r \<in> {0, 1}) ds rs)"
proof -
  obtain ds rs where *: "wire.decode_area p = Some ds" "serve s ds = (rs, s')"
    "out = concat (map dgram_bytes rs)" "\<forall>d \<in> set ds. valid_dgram d \<and> unat (d_len d) \<le> DG_DATA_MAX"
    "length p = length (concat (map dgram_bytes ds))"
    using process_pdu_accepted [OF assms] .
  with serve_shape [OF *(2)] have sh: "\<forall>r \<in> set rs. valid_dgram r \<and> (d_wkc r = 0 \<or> d_wkc r = 1)"
    "length out = length p" "mac s' = mac s"
    "list_all2 (\<lambda>d r. d_cmd r = d_cmd d \<and> d_index r = d_index d \<and> d_adp r = d_adp d
        \<and> d_ado r = d_ado d \<and> d_len r = d_len d \<and> d_irq r = d_irq d) ds rs"
    by auto
  then have "wire.decode_area out = Some rs" using *(3) wire.decode_area_enc by simp
  moreover have "list_all2 (\<lambda>d r. d_cmd r = d_cmd d \<and> d_index r = d_index d \<and> d_adp r = d_adp d \<and>
         d_ado r = d_ado d \<and> d_len r = d_len d \<and> d_irq r = d_irq d \<and> d_wkc r \<in> {0, 1}) ds rs"
    using sh(1,4) by (auto simp: list_all2_conv_all_nth)
  ultimately show ?thesis using *(1) sh by blast
qed

lemma process_ethernet_eq:
  assumes "ul_ecat_build_eth_frame dst src p c = Some f" "length dst = 6" "length src = 6"
  shows "ul_ecat_slave_process_ethernet s (f @ pad) tx_cap =
    (case ul_ecat_slave_process_pdu s p UL_ECAT_MAX_EC_PAYLOAD of
       (None, s') \<Rightarrow> (None, s')
     | (Some out, s') \<Rightarrow> (ul_ecat_build_eth_frame src (mac s') out tx_cap, s'))"
proof -
  have "length p \<le> 1498"
    using assms(1) by (simp add: ul_ecat_build_eth_frame_def Let_def split: if_splits)
  moreover have "slice 6 6 (f @ pad) = slice 6 6 f"
    using build_parse_frame(4) [OF assms] by (simp add: slice_def)
  ultimately show ?thesis
    using build_parse_frame [OF assms]
    by (simp add: ul_ecat_slave_process_ethernet_def split: prod.split option.split)
qed

text \<open>
  A well-formed EtherCAT frame, padded or not, whose area is accepted is answered by
  a frame of the same unpadded length from the slave's MAC address to the sender's, and that frame
  parses back to the answered area whatever padding follows it.
\<close>

theorem slave_ethernet_reply:
  assumes "ul_ecat_build_eth_frame dst src p c = Some f" "length dst = 6" "length src = 6"
    and "ul_ecat_slave_process_pdu s p UL_ECAT_MAX_EC_PAYLOAD = (Some out, s')"
    and "length (mac s) = 6" "length f \<le> tx_cap"
  shows "\<exists>g. ul_ecat_slave_process_ethernet s (f @ pad) tx_cap = (Some g, s') \<and>
    take 6 g = src \<and> slice 6 6 g = mac s \<and> length g = length f \<and>
    ul_ecat_parse_eth_frame (g @ pad') = Some out"
proof -
  have p: "length p \<le> 1498" "length f = 18 + length p"
    using assms(1) build_parse_frame(4) [OF assms(1-3)]
    by (simp_all add: ul_ecat_build_eth_frame_def Let_def split: if_splits)
  obtain ds rs where *: "serve s ds = (rs, s')" "out = concat (map dgram_bytes rs)"
    "\<forall>d \<in> set ds. valid_dgram d \<and> unat (d_len d) \<le> DG_DATA_MAX"
    "length p = length (concat (map dgram_bytes ds))"
    using process_pdu_accepted [OF assms(4) p(1)] .
  with serve_shape [OF *(1)] have len: "length out = length p" and mac: "mac s' = mac s" by auto
  then obtain g where g: "ul_ecat_build_eth_frame src (mac s) out tx_cap = Some g"
    using p assms(5,6) by (auto simp: ul_ecat_build_eth_frame_def Let_def)
  show ?thesis
    using build_parse_frame [OF g assms(3,5)] g process_ethernet_eq [OF assms(1-3)] assms(4) mac len p
    by simp
qed

text \<open>
  A well-formed area with a datagram of more than 256 data bytes in it is not
  answered at all, but the datagrams before that one have been executed and their effects on the
  slave stay.
\<close>

theorem slave_reject_keeps_effects:
  assumes "\<forall>d \<in> set ds. valid_dgram d \<and> unat (d_len d) \<le> DG_DATA_MAX"
    and "valid_dgram b" "DG_DATA_MAX < unat (d_len b)" "\<forall>d \<in> set es. valid_dgram d"
    and "length (concat (map dgram_bytes (ds @ b # es))) \<le> cap"
  shows "ul_ecat_slave_process_pdu s (concat (map dgram_bytes (ds @ b # es))) cap
    = (None, snd (serve s ds))"
proof -
  have "slave_decode (dgram_bytes b) = None"
    using assms(2,3) by (simp add: slave_decode_def parse_dgram_bytes) (simp add: valid_dgram_def)
  then have pre: "decodable_prefix (map dgram_bytes (ds @ b # es)) = ds"
    using assms(1)
    by (induction ds) (auto simp: slave_decode_def parse_dgram_bytes, auto simp: valid_dgram_def)
  have "\<forall>d \<in> set (ds @ b # es). valid_dgram d" using assms by auto
  from process_pdu_serve [OF pdu_split_dgrams [OF this] assms(5), of s] pre show ?thesis
    by (simp add: Let_def split: prod.split)
qed

section \<open>Several slaves on one wire\<close>

lemma serve_unaddressed:
  "\<forall>d \<in> set ds. valid_dgram d \<and> \<not> addressed s d \<Longrightarrow> serve s ds = (map (\<lambda>d. d\<lparr>d_wkc := 0\<rparr>) ds, s)"
  by (induction ds) (simp_all add: serve1_unaddressed Let_def)

lemma addressed_cong: "d_cmd r = d_cmd d \<Longrightarrow> d_adp r = d_adp d \<Longrightarrow> addressed s r = addressed s d"
  by (simp add: addressed_def)

text \<open>
  The working counter is set, not added to: when an area that one slave has answered
  passes a second slave that none of its datagrams address, the second slave's state is unchanged
  but every working counter in the frame is back at 0, so the first slave's answers look
  unanswered.
\<close>

theorem second_slave_clears_wkc:
  assumes "\<forall>d \<in> set ds. valid_dgram d \<and> unat (d_len d) \<le> DG_DATA_MAX \<and> \<not> addressed s2 d"
    and "length (concat (map dgram_bytes ds)) \<le> cap" "serve s1 ds = (rs, s1')"
  shows "\<exists>out. ul_ecat_slave_process_pdu s1 (concat (map dgram_bytes ds)) cap = (Some out, s1') \<and>
    wire.decode_area out = Some rs \<and>
    ul_ecat_slave_process_pdu s2 out cap
      = (Some (concat (map (dgram_bytes \<circ> d_wkc_update (\<lambda>_. 0)) rs)), s2)"
proof -
  have sh: "\<forall>r \<in> set rs. valid_dgram r" "length (concat (map dgram_bytes rs)) = length (concat (map dgram_bytes ds))"
    "list_all2 (\<lambda>d r. d_cmd r = d_cmd d \<and> d_index r = d_index d \<and> d_adp r = d_adp d
        \<and> d_ado r = d_ado d \<and> d_len r = d_len d \<and> d_irq r = d_irq d) ds rs"
    using serve_shape [OF assms(3)] assms(1) by auto
  have rs: "\<forall>r \<in> set rs. valid_dgram r \<and> unat (d_len r) \<le> DG_DATA_MAX \<and> \<not> addressed s2 r"
  proof
    fix r assume r: "r \<in> set rs"
    then obtain d where "d \<in> set ds" "d_cmd r = d_cmd d" "d_adp r = d_adp d" "d_len r = d_len d"
      using sh(3) by (force simp: list_all2_conv_all_nth in_set_conv_nth)
    with r sh(1) assms(1) addressed_cong [of r d s2]
    show "valid_dgram r \<and> unat (d_len r) \<le> DG_DATA_MAX \<and> \<not> addressed s2 r" by auto
  qed
  have "ul_ecat_slave_process_pdu s1 (concat (map dgram_bytes ds)) cap
      = (Some (concat (map dgram_bytes rs)), s1')"
    using assms by (intro process_pdu_encoded) auto
  moreover have "ul_ecat_slave_process_pdu s2 (concat (map dgram_bytes rs)) cap
      = (Some (concat (map dgram_bytes (map (\<lambda>d. d\<lparr>d_wkc := 0\<rparr>) rs))), s2)"
    using rs sh(2) assms(2) by (intro process_pdu_encoded serve_unaddressed) auto
  ultimately show ?thesis using wire.decode_area_enc [OF sh(1)] by (simp add: comp_def)
qed

section \<open>Writing and reading registers through datagrams\<close>

lemma foldl_frame:
  "\<forall>d \<in> set ds. valid_dgram d \<and> \<not> (is_write d \<and> covers d j) \<Longrightarrow> j \<notin> slave_owned \<Longrightarrow>
     esc (foldl dgram_step s ds) j = esc s j"
proof (induction ds arbitrary: s)
  case (Cons d ds)
  then have "esc (dgram_step s d) j = esc s j"
    using serve1_frame [of s d "fst (serve1 s d)" "snd (serve1 s d)" j] by (simp add: dgram_step_def)
  with Cons show ?case by simp
qed simp

text \<open>
  A register byte outside the AL Status, AL Status Code and mailbox status bytes
  keeps its value through any stream of datagrams none of which writes over it.
\<close>

theorem register_keeps_value:
  assumes "\<forall>d \<in> set ds. valid_dgram d \<and> \<not> (is_write d \<and> covers d j)" "j \<notin> slave_owned"
  shows "esc (snd (serve s ds)) j = esc s j"
  using foldl_frame [OF assms] by (simp add: serve_foldl)

text \<open>An FPWR lands in the mirror, bytes the slave owns excepted.\<close>

lemma serve1_write_lands:
  assumes "is_write d" "addressed s d" "in_mirror d" "valid_dgram d" "covers d j" "j \<notin> slave_owned"
  shows "esc (snd (serve1 s d)) j = d_data d ! (j - unat (d_ado d))"
proof -
  have "mem_write (esc s) (unat (d_ado d)) (d_data d) j = d_data d ! (j - unat (d_ado d))"
    using assms(4,5) by (simp add: mem_write_apply covers_def valid_dgram_def)
  then show ?thesis
    using serve1_write [OF assms(1-4)] assms(6)
    by (auto simp: slave_owned_def on_sm0_write_frame on_control_write_frame)
qed

text \<open>
  Property C18. What an accepted FPWR writes is what a later FPRD of the same range returns, both
  with working counter 1, whatever datagrams run in between, provided the range holds no register
  the slave updates itself, the station address is not rewritten, and nothing in between writes
  into the range.
\<close>

theorem fpwr_fprd_roundtrip:
  assumes "valid_dgram w" "d_cmd w = UL_ECAT_CMD_FPWR" "addressed s w" "in_mirror w"
    and "\<forall>j. covers w j \<longrightarrow> j \<notin> slave_owned \<and> j \<noteq> 0x10 \<and> j \<noteq> 0x11"
    and "\<forall>d \<in> set ds. valid_dgram d \<and> \<not> (is_write d \<and> (covers d 0x10 \<or> covers d 0x11))"
    and "\<forall>d \<in> set ds. \<forall>j. covers w j \<longrightarrow> \<not> (is_write d \<and> covers d j)"
    and "serve s (w # ds @ [w\<lparr>d_cmd := UL_ECAT_CMD_FPRD, d_data := buf\<rparr>]) = (rs, s')"
  shows "d_wkc (hd rs) = 1 \<and> d_wkc (last rs) = 1 \<and> d_data (last rs) = d_data w"
proof -
  let ?r = "w\<lparr>d_cmd := UL_ECAT_CMD_FPRD, d_data := buf\<rparr>"
  define s1 where "s1 = snd (serve1 s w)"
  define s2 where "s2 = foldl dgram_step s1 ds"
  have w: "is_write w" using assms(2) by (simp add: is_write_def)
  have keep: "esc s2 j = esc s1 j" if "covers w j \<or> j = 0x10 \<or> j = 0x11" for j
    unfolding s2_def using assms(5,6,7) that by (intro foldl_frame) (auto simp: slave_owned_def)
  have st1: "esc s1 j = esc s j" if "j = 0x10 \<or> j = 0x11" for j
  proof -
    have "\<not> covers w j" "j \<notin> slave_owned" using assms(5) that by (auto simp: slave_owned_def)
    then show ?thesis
      using serve1_frame [of s w "fst (serve1 s w)" s1 j] assms(1) by (simp add: s1_def)
  qed
  have ad: "addressed s2 ?r"
    using assms(2,3) by (simp add: addressed_def read_u16_reg keep st1)
  have im: "in_mirror ?r" using assms(4) by (simp add: in_mirror_def)
  have len: "length (d_data w) = unat (d_len w)" using assms(1) by (simp add: valid_dgram_def)
  have data: "mem_read (esc s2) (unat (d_ado w)) (unat (d_len w)) = d_data w"
  proof (rule nth_equalityI)
    fix i assume "i < length (mem_read (esc s2) (unat (d_ado w)) (unat (d_len w)))"
    then have i: "covers w (unat (d_ado w) + i)" "i < unat (d_len w)" by (simp_all add: covers_def)
    with serve1_write_lands [OF w assms(3,4,1) i(1)] keep [of "unat (d_ado w) + i"] assms(5)
    show "mem_read (esc s2) (unat (d_ado w)) (unat (d_len w)) ! i = d_data w ! i"
      by (simp add: nth_mem_read s1_def)
  qed (simp add: len)
  have last: "fst (serve1 s2 ?r) = ?r\<lparr>d_wkc := 1, d_data := d_data w\<rparr>"
    using serve1_read [OF _ ad im] data by simp
  have first: "fst (serve1 s w) = w\<lparr>d_wkc := 1\<rparr>"
    using serve1_write [OF w assms(3,4,1)] by simp
  have "\<exists>ms. rs = fst (serve1 s w) # ms @ [fst (serve1 s2 ?r)]"
  proof -
    have app: "serve s0 (xs @ [y]) = (fst (serve s0 xs) @ [fst (serve1 (foldl dgram_step s0 xs) y)],
        snd (serve1 (foldl dgram_step s0 xs) y))" for s0 xs y
      by (induction xs arbitrary: s0) (simp_all add: Let_def case_prod_beta dgram_step_def)
    show ?thesis
      using assms(8) app [of s1 ds ?r] by (auto simp: Let_def case_prod_beta s1_def s2_def)
  qed
  then show ?thesis using first last by auto
qed

section \<open>Memory safety of a whole frame\<close>

lemma process_pdu_safe:
  fixes s :: slave
  assumes "length p \<le> cap"
  defines "s' \<equiv> snd (ul_ecat_slave_process_pdu s p cap)"
  shows "same_above (esc s) (esc s') \<and> mac s' = mac s \<and> logical_position s' = logical_position s"
proof (cases "pdu_split p")
  case None
  then show ?thesis by (simp add: s'_def process_pdu_malformed)
next
  case (Some cs)
  have v: "\<forall>d \<in> set (decodable_prefix cs). valid_dgram d"
    using pdu_split_parts [OF Some] decodable_prefix_valid by blast
  obtain rs where rs: "serve s (decodable_prefix cs) = (rs, s')"
    using process_pdu_serve [OF Some assms(1), of s] by (auto simp: s'_def Let_def split: prod.splits)
  from serve_same_above [OF rs v] serve_shape [OF rs v] show ?thesis by simp
qed

text \<open>
  Property C25. Whatever frame arrives, well-formed or hostile, processing it writes no byte beyond
  the 4096-byte mirror and changes neither the MAC address nor the logical position.
\<close>

theorem frame_stays_in_mirror:
  "let s' = snd (ul_ecat_slave_process_ethernet s rx tx_cap) in
   same_above (esc s) (esc s') \<and> mac s' = mac s \<and> logical_position s' = logical_position s"
proof (cases "ul_ecat_parse_eth_frame rx")
  case None
  then show ?thesis by (simp add: ul_ecat_slave_process_ethernet_def)
next
  case (Some pdu)
  show ?thesis
    using process_pdu_safe [of pdu UL_ECAT_MAX_EC_PAYLOAD s] Some
    by (cases "ul_ecat_slave_process_pdu s pdu UL_ECAT_MAX_EC_PAYLOAD")
       (auto simp: ul_ecat_slave_process_ethernet_def Let_def split: option.split)
qed

text \<open>
  An FPWR of AL Control to the slave's station address is answered with working
  counter 1 and moves the AL registers exactly as the abstract AL machine says.
\<close>

theorem al_request_by_datagram:
  assumes "al_shows (esc s) v" "station_of s = st" "st \<noteq> 0" "serve1 s (al_request st w) = (r, s')"
  shows "d_wkc r = 1 \<and>
    al_shows (esc s') (al_spec (ul_ecat_sm_validate_mailbox_pair (esc s)) v
      (ucast (w AND UL_ECAT_AL_MASK_STATE)) (w AND UL_ECAT_AL_CTRL_ACK \<noteq> 0))"
  using al_request_step [OF assms] by simp

section \<open>Witnesses\<close>

definition demo_fpwr :: dgram where
  "demo_fpwr = demo_write UL_ECAT_CMD_FPWR 0x1000 0xF80 [1, 2, 3]"

definition demo_slave' :: slave where
  "demo_slave' = mailbox_slave\<lparr>esc := mem_write (esc mailbox_slave) 0xF80 [1, 2, 3]\<rparr>"

definition far_slave :: slave where
  "far_slave = mailbox_slave\<lparr>esc := (esc mailbox_slave)(0x11 := 0x20)\<rparr>"

lemma demo_fpwr_facts:
  "valid_dgram demo_fpwr" "unat (d_len demo_fpwr) \<le> DG_DATA_MAX" "d_cmd demo_fpwr = UL_ECAT_CMD_FPWR"
  "addressed mailbox_slave demo_fpwr" "in_mirror demo_fpwr" "is_write demo_fpwr"
  "length (dgram_bytes demo_fpwr) = 15"
  using mailbox_slave_station
  by (simp_all add: demo_fpwr_def demo_write_def valid_dgram_def addressed_def in_mirror_def
      is_write_def station_of_def length_dgram_bytes)

lemma demo_fpwr_covers: "covers demo_fpwr j \<longleftrightarrow> 0xF80 \<le> j \<and> j < 0xF83"
  by (simp add: demo_fpwr_def demo_write_def covers_def)

lemma al_request_covers: "covers (al_request st w) j \<longleftrightarrow> 0x120 \<le> j \<and> j < 0x122"
  by (simp add: al_request_def covers_def)

lemma far_slave_unaddressed: "\<not> addressed far_slave demo_fpwr"
  by (simp add: demo_fpwr_def demo_write_def addressed_def far_slave_def read_u16_reg of_le16_def
      mailbox_slave_def)

lemma serve1_demo: "serve1 mailbox_slave demo_fpwr = (demo_fpwr\<lparr>d_wkc := 1\<rparr>, demo_slave')"
proof -
  have "\<not> covers demo_fpwr 0x120" by (simp add: demo_fpwr_covers)
  then show ?thesis
    using serve1_write [OF demo_fpwr_facts(6,4,5,1)]
    by (simp add: demo_fpwr_facts(3) on_sm0_write_eq Let_def)
       (simp add: demo_fpwr_def demo_write_def demo_slave'_def ul_ecat_sm_read_def Let_def
          mailbox_slave_def of_le16_def)
qed

lemma process_demo:
  "ul_ecat_slave_process_pdu mailbox_slave (dgram_bytes demo_fpwr) UL_ECAT_MAX_EC_PAYLOAD =
     (Some (dgram_bytes (demo_fpwr\<lparr>d_wkc := 1\<rparr>)), demo_slave')"
  using process_pdu_encoded [of "[demo_fpwr]" UL_ECAT_MAX_EC_PAYLOAD mailbox_slave] serve1_demo
    demo_fpwr_facts by simp

theorem slave_pdu_refines_witness:
  "ul_ecat_slave_process_pdu mailbox_slave (dgram_bytes demo_fpwr) UL_ECAT_MAX_EC_PAYLOAD =
     (Some (dgram_bytes (demo_fpwr\<lparr>d_wkc := 1\<rparr>)), demo_slave')"
  using slave_pdu_refines [of "dgram_bytes demo_fpwr" UL_ECAT_MAX_EC_PAYLOAD mailbox_slave]
    pdu_split_dgrams [of "[demo_fpwr]"] decodable_prefix_encoded [of "[demo_fpwr]"]
    demo_fpwr_facts serve1_demo by simp

theorem slave_reply_shape_witness:
  "length (dgram_bytes (demo_fpwr\<lparr>d_wkc := 1\<rparr>)) = length (dgram_bytes demo_fpwr)"
  using slave_reply_shape [OF process_demo] demo_fpwr_facts by simp

theorem slave_ethernet_reply_witness:
  "\<exists>f g. ul_ecat_build_eth_frame (replicate 6 0xFF) [2, 0, 0, 0, 0, 9] (dgram_bytes demo_fpwr) 1514 = Some f \<and>
     ul_ecat_slave_process_ethernet mailbox_slave (f @ replicate 27 0) 1514 = (Some g, demo_slave') \<and>
     take 6 g = [2, 0, 0, 0, 0, 9] \<and> length g = 33"
proof -
  obtain f where f: "ul_ecat_build_eth_frame (replicate 6 0xFF) [2, 0, 0, 0, 0, 9] (dgram_bytes demo_fpwr) 1514 = Some f"
    using demo_fpwr_facts(7) by (simp add: ul_ecat_build_eth_frame_def Let_def)
  have len: "length f = 33" using build_parse_frame(4) [OF f] demo_fpwr_facts(7) by simp
  have mac: "length (mac mailbox_slave) = 6" by (simp add: mailbox_slave_def ul_ecat_slave_init_def)
  show ?thesis
    using slave_ethernet_reply [OF f _ _ process_demo mac, of 1514 "replicate 27 0" "[]"] f len by auto
qed

theorem slave_reject_keeps_effects_witness:
  "ul_ecat_slave_process_pdu mailbox_slave
     (concat (map dgram_bytes [demo_fpwr, demo_write UL_ECAT_CMD_APWR 0 0x200 (replicate 300 0)]))
     UL_ECAT_MAX_EC_PAYLOAD = (None, demo_slave')"
proof -
  let ?b = "demo_write UL_ECAT_CMD_APWR 0 0x200 (replicate 300 0)"
  have b: "valid_dgram ?b" "DG_DATA_MAX < unat (d_len ?b)" "length (dgram_bytes ?b) = 312"
    by (simp_all add: demo_write_def valid_dgram_def length_dgram_bytes)
  show ?thesis
    using slave_reject_keeps_effects [of "[demo_fpwr]" ?b "[]" UL_ECAT_MAX_EC_PAYLOAD mailbox_slave]
      b demo_fpwr_facts serve1_demo by simp
qed

theorem second_slave_clears_wkc_witness:
  "\<exists>out. ul_ecat_slave_process_pdu mailbox_slave (dgram_bytes demo_fpwr) 1498 = (Some out, demo_slave') \<and>
     wire.decode_area out = Some [demo_fpwr\<lparr>d_wkc := 1\<rparr>] \<and>
     ul_ecat_slave_process_pdu far_slave out 1498 = (Some (dgram_bytes (demo_fpwr\<lparr>d_wkc := 0\<rparr>)), far_slave)"
  using second_slave_clears_wkc [of "[demo_fpwr]" far_slave 1498 mailbox_slave]
    demo_fpwr_facts far_slave_unaddressed serve1_demo by simp

theorem register_keeps_value_witness:
  "esc (snd (serve mailbox_slave [demo_fpwr, demo_fpwr])) 0x12 = esc mailbox_slave 0x12"
  using register_keeps_value [of "[demo_fpwr, demo_fpwr]" 18 mailbox_slave]
    demo_fpwr_facts demo_fpwr_covers by (simp add: slave_owned_def)

theorem fpwr_fprd_roundtrip_witness:
  "let r = fst (serve mailbox_slave [demo_fpwr, al_request 0x1000 2,
       demo_fpwr\<lparr>d_cmd := UL_ECAT_CMD_FPRD, d_data := [0, 0, 0]\<rparr>]) in
   d_wkc (hd r) = 1 \<and> d_wkc (last r) = 1 \<and> d_data (last r) = [1, 2, 3]"
proof -
  obtain rs s' where rs: "serve mailbox_slave (demo_fpwr # [al_request 0x1000 2] @
      [demo_fpwr\<lparr>d_cmd := UL_ECAT_CMD_FPRD, d_data := [0, 0, 0]\<rparr>]) = (rs, s')"
    by (metis surj_pair)
  have "d_wkc (hd rs) = 1 \<and> d_wkc (last rs) = 1 \<and> d_data (last rs) = d_data demo_fpwr"
    by (rule fpwr_fprd_roundtrip [OF demo_fpwr_facts(1,3,4,5) _ _ _ rs])
       (auto simp: demo_fpwr_covers slave_owned_def al_request_valid al_request_covers)
  with rs show ?thesis by (simp add: Let_def demo_fpwr_def demo_write_def)
qed

theorem al_request_by_datagram_witness:
  "al_shows (esc (snd (serve1 mailbox_slave (al_request 0x1000 2))))
     \<lparr>al_st = Preop, al_err = False, al_status_code = 0\<rparr>"
proof -
  obtain r s' where step: "serve1 mailbox_slave (al_request 0x1000 2) = (r, s')" by (metis surj_pair)
  show ?thesis
    using al_request_by_datagram [OF mailbox_slave_al mailbox_slave_station _ step] mailbox_slave_validates
    by (simp add: step al_spec_def al_edge_simps)
qed

end
