(* ===== verification/Od.thy ===== *)
theory Od
  imports Prelude
begin

text \<open>
  The object dictionary: \<open>src/slave/ul_ecat_slave_od.c\<close>, \<open>include/ul_ecat_slave_od.h\<close> and the table
  of \<open>generated/ul_ecat_slave_tables.c\<close>.

  An entry is a value (the C tables are \<open>const\<close>); its \<open>storage\<close> pointer is a handle into the store,
  a function from handles to the bytes behind the pointer, so that two entries with the same
  handle alias as they do in C. \<open>NULL\<close> is \<^const>\<open>None\<close>. The table has its array of entries and its
  element count as separate fields, as in C; \<open>od_table_ok\<close> says that the array has that many
  elements and that every storage has the entry's length, which the C code relies on.
\<close>

abbreviation UL_ECAT_OD_FLAG_R :: byte where "UL_ECAT_OD_FLAG_R \<equiv> 0x01"
abbreviation UL_ECAT_OD_FLAG_W :: byte where "UL_ECAT_OD_FLAG_W \<equiv> 0x02"

section \<open>Data\<close>

record od_entry =
  e_index :: u16
  e_subindex :: byte
  e_type :: byte
  e_flags :: byte
  e_length :: u16
  e_storage :: "nat option"

record od_table =
  entries :: "od_entry list option"
  entry_count :: nat

type_synonym od_store = "nat \<Rightarrow> bytes"

datatype od_error =
    OD_ERR_NOT_FOUND
  | OD_ERR_BAD_SUBINDEX
  | OD_ERR_NOT_READABLE
  | OD_ERR_NOT_WRITABLE
  | OD_ERR_LENGTH

section \<open>Operations\<close>

definition od_array :: "od_table option \<Rightarrow> od_entry list" where
  "od_array g_table =
     (case g_table of
        None \<Rightarrow> []
      | Some t \<Rightarrow> (case entries t of None \<Rightarrow> [] | Some es \<Rightarrow> take (entry_count t) es))"

definition ul_ecat_od_lookup :: "od_table option \<Rightarrow> u16 \<Rightarrow> byte \<Rightarrow> od_entry option" where
  "ul_ecat_od_lookup g_table index subindex =
     find (\<lambda>e. e_index e = index \<and> e_subindex e = subindex) (od_array g_table)"

text \<open>The pointer to the first element is the array it points to.\<close>

definition ul_ecat_od_first :: "od_table option \<Rightarrow> od_entry list option" where
  "ul_ecat_od_first g_table =
     (case g_table of
        None \<Rightarrow> None
      | Some t \<Rightarrow> (case entries t of
                    None \<Rightarrow> None
                  | Some es \<Rightarrow> if entry_count t = 0 then None else Some es))"

definition ul_ecat_od_entries_count :: "od_table option \<Rightarrow> nat" where
  "ul_ecat_od_entries_count g_table = (case g_table of None \<Rightarrow> 0 | Some t \<Rightarrow> entry_count t)"

definition ul_ecat_od_index_exists :: "od_table option \<Rightarrow> u16 \<Rightarrow> bool" where
  "ul_ecat_od_index_exists g_table index = list_ex (\<lambda>e. e_index e = index) (od_array g_table)"

definition ul_ecat_od_read :: "od_store \<Rightarrow> od_entry option \<Rightarrow> nat \<Rightarrow> od_error + bytes" where
  "ul_ecat_od_read st entry cap =
     (case entry of
        None \<Rightarrow> Inl OD_ERR_NOT_FOUND
      | Some e \<Rightarrow>
          if e_flags e AND UL_ECAT_OD_FLAG_R = 0 then Inl OD_ERR_NOT_READABLE
          else (case e_storage e of
                  None \<Rightarrow> Inl OD_ERR_LENGTH
                | Some h \<Rightarrow>
                    if e_length e = 0 then Inl OD_ERR_LENGTH
                    else if cap < unat (e_length e) then Inl OD_ERR_LENGTH
                    else Inr (take (unat (e_length e)) (st h))))"

definition ul_ecat_od_write :: "od_store \<Rightarrow> od_entry option \<Rightarrow> bytes \<Rightarrow> od_error + od_store" where
  "ul_ecat_od_write st entry src =
     (case entry of
        None \<Rightarrow> Inl OD_ERR_NOT_FOUND
      | Some e \<Rightarrow>
          if e_flags e AND UL_ECAT_OD_FLAG_W = 0 then Inl OD_ERR_NOT_WRITABLE
          else (case e_storage e of
                  None \<Rightarrow> Inl OD_ERR_LENGTH
                | Some h \<Rightarrow>
                    if e_length e = 0 then Inl OD_ERR_LENGTH
                    else if length src > unat (e_length e) then Inl OD_ERR_LENGTH
                    else Inr (st(h := src @ drop (length src) (st h)))))"

section \<open>Well-formed dictionaries\<close>

definition od_entry_ok :: "od_store \<Rightarrow> od_entry \<Rightarrow> bool" where
  "od_entry_ok st e \<longleftrightarrow>
     (case e_storage e of None \<Rightarrow> False | Some h \<Rightarrow> unat (e_length e) \<le> length (st h))"

definition od_table_ok :: "od_store \<Rightarrow> od_table option \<Rightarrow> bool" where
  "od_table_ok st g_table \<longleftrightarrow>
     (case g_table of
        None \<Rightarrow> True
      | Some t \<Rightarrow> (case entries t of
                    None \<Rightarrow> entry_count t = 0
                  | Some es \<Rightarrow> entry_count t \<le> length es \<and> list_all (od_entry_ok st) es))"

definition readable :: "od_entry \<Rightarrow> bool" where
  "readable e \<longleftrightarrow> e_flags e AND UL_ECAT_OD_FLAG_R \<noteq> 0"

definition writable :: "od_entry \<Rightarrow> bool" where
  "writable e \<longleftrightarrow> e_flags e AND UL_ECAT_OD_FLAG_W \<noteq> 0"

lemma lookup_in_array: "ul_ecat_od_lookup g i s = Some e \<Longrightarrow> e \<in> set (od_array g)"
  by (auto simp: ul_ecat_od_lookup_def find_Some_iff)

lemma lookup_keys: "ul_ecat_od_lookup g i s = Some e \<Longrightarrow> e_index e = i \<and> e_subindex e = s"
  by (auto simp: ul_ecat_od_lookup_def find_Some_iff)

lemma lookup_exists: "ul_ecat_od_lookup g i s = Some e \<Longrightarrow> ul_ecat_od_index_exists g i"
  by (auto simp: ul_ecat_od_index_exists_def list_ex_iff dest: lookup_in_array lookup_keys)

lemma table_ok_array: "od_table_ok st g \<Longrightarrow> e \<in> set (od_array g) \<Longrightarrow> od_entry_ok st e"
  by (auto simp: od_table_ok_def od_array_def list_all_iff split: option.splits dest: in_set_takeD)

lemma lookup_ok: "od_table_ok st g \<Longrightarrow> ul_ecat_od_lookup g i s = Some e \<Longrightarrow> od_entry_ok st e"
  by (rule table_ok_array [OF _ lookup_in_array])

lemma entry_okE:
  assumes "od_entry_ok st e"
  obtains h where "e_storage e = Some h" "unat (e_length e) \<le> length (st h)"
  using assms by (auto simp: od_entry_ok_def split: option.splits)

lemma first_count_array:
  "od_table_ok st g \<Longrightarrow>
     (case ul_ecat_od_first g of None \<Rightarrow> [] | Some es \<Rightarrow> take (ul_ecat_od_entries_count g) es) = od_array g"
  by (auto simp: ul_ecat_od_first_def ul_ecat_od_entries_count_def od_array_def od_table_ok_def
      split: option.splits)

lemma write_SomeD:
  assumes "ul_ecat_od_write st (Some e) src = Inr st'"
  obtains h where "writable e" "e_storage e = Some h" "length src \<le> unat (e_length e)"
    "st' = st(h := src @ drop (length src) (st h))"
  using assms that by (auto simp: ul_ecat_od_write_def writable_def split: if_splits option.splits)

lemma write_keeps_lengths:
  assumes "ul_ecat_od_write st (Some e) src = Inr st'" "od_entry_ok st e"
  shows "length (st' h) = length (st h)"
  using assms by (auto elim!: write_SomeD entry_okE)

lemma table_ok_lengths:
  assumes "od_table_ok st g" "\<And>h. length (st' h) = length (st h)"
  shows "od_table_ok st' g"
proof -
  have "od_entry_ok st' = od_entry_ok st"
    by (rule ext) (simp add: od_entry_ok_def assms(2) split: option.split)
  with assms(1) show ?thesis by (cases g) (simp_all add: od_table_ok_def split: option.splits)
qed

section \<open>The contract the SDO server relies on\<close>

locale object_store =
  fixes get :: "'s \<Rightarrow> 'e \<Rightarrow> nat \<Rightarrow> od_error + bytes"
    and put :: "'s \<Rightarrow> 'e \<Rightarrow> bytes \<Rightarrow> od_error + 's"
    and good :: "'s \<Rightarrow> 'e \<Rightarrow> bool"
    and can_read :: "'e \<Rightarrow> bool"
    and can_write :: "'e \<Rightarrow> bool"
    and capacity :: "'e \<Rightarrow> nat"
    and separate :: "'e \<Rightarrow> 'e \<Rightarrow> bool"
  assumes put_refuses: "\<not> can_write e \<Longrightarrow> put s e bs = Inl OD_ERR_NOT_WRITABLE"
    and get_refuses: "\<not> can_read e \<Longrightarrow> get s e n = Inl OD_ERR_NOT_READABLE"
    and put_accepts: "good s e \<Longrightarrow> can_write e \<Longrightarrow> capacity e \<noteq> 0 \<Longrightarrow> length bs \<le> capacity e \<Longrightarrow>
          \<exists>s'. put s e bs = Inr s'"
    and put_too_long: "can_write e \<Longrightarrow> capacity e < length bs \<Longrightarrow> put s e bs = Inl OD_ERR_LENGTH"
    and get_accepts: "good s e \<Longrightarrow> can_read e \<Longrightarrow> capacity e \<noteq> 0 \<Longrightarrow> capacity e \<le> n \<Longrightarrow>
          \<exists>bs. get s e n = Inr bs \<and> length bs = capacity e"
    and get_put: "good s e \<Longrightarrow> can_read e \<Longrightarrow> capacity e \<le> n \<Longrightarrow> put s e bs = Inr s' \<Longrightarrow>
          get s e n = Inr old \<Longrightarrow> get s' e n = Inr (bs @ drop (length bs) old)"
    and get_put_other: "separate e f \<Longrightarrow> put s e bs = Inr s' \<Longrightarrow> get s' f n = get s f n"
    and put_good: "good s e \<Longrightarrow> good s f \<Longrightarrow> put s e bs = Inr s' \<Longrightarrow> good s' f"
begin

lemma full_write_read:
  assumes "good s e" "can_read e" "can_write e" "length bs = capacity e" "bs \<noteq> []"
  shows "\<exists>s'. put s e bs = Inr s' \<and> get s' e (capacity e) = Inr bs \<and> good s' e"
proof -
  have nz: "capacity e \<noteq> 0" by (metis assms(4,5) length_0_conv)
  obtain s' where s': "put s e bs = Inr s'"
    using put_accepts [OF assms(1,3) nz] assms(4) by fastforce
  obtain old where old: "get s e (capacity e) = Inr old" "length old = capacity e"
    using get_accepts [OF assms(1,2) nz order_refl] by blast
  from get_put [OF assms(1,2) _ s' old(1)] old(2) s' assms(4) put_good [OF assms(1,1) s']
  show ?thesis by auto
qed

lemma put_Inr: "put s e bs = Inr s' \<Longrightarrow> can_write e \<and> length bs \<le> capacity e"
  using put_refuses [of e s bs] put_too_long [of e bs s] by (cases "can_write e") fastforce+

end

interpretation od: object_store
  "\<lambda>st e. ul_ecat_od_read st (Some e)" "\<lambda>st e. ul_ecat_od_write st (Some e)"
  od_entry_ok readable writable "\<lambda>e. unat (e_length e)" "\<lambda>e f. e_storage e \<noteq> e_storage f"
proof (unfold_locales, goal_cases)
  case (3 s e bs)
  then show ?case
    by (auto simp: ul_ecat_od_write_def writable_def od_entry_ok_def unat_eq_zero split: option.splits)
next
  case (5 s e n)
  then show ?case
    by (auto simp: ul_ecat_od_read_def readable_def od_entry_ok_def unat_eq_zero split: option.splits)
next
  case (6 s e n bs s' old)
  then show ?case
    by (auto simp: ul_ecat_od_read_def ul_ecat_od_write_def readable_def od_entry_ok_def drop_take
        split: option.splits if_splits)
next
  case (8 s e f bs s')
  then show ?case using write_keeps_lengths [of s e bs s'] by (simp add: od_entry_ok_def split: option.splits)
qed (auto simp: ul_ecat_od_write_def ul_ecat_od_read_def readable_def writable_def unat_eq_zero
      split: option.splits if_splits)

section \<open>The generated dictionary\<close>

definition od_ro :: "u16 \<Rightarrow> byte \<Rightarrow> byte \<Rightarrow> u16 \<Rightarrow> nat \<Rightarrow> od_entry" where
  "od_ro index subindex ty len h =
     \<lparr>e_index = index, e_subindex = subindex, e_type = ty, e_flags = UL_ECAT_OD_FLAG_R,
      e_length = len, e_storage = Some h\<rparr>"

definition ul_ecat_generated_od_entries :: "od_entry list" where
  "ul_ecat_generated_od_entries =
     [od_ro 0x1000 0x00 0x07 4 0, od_ro 0x1008 0x00 0x09 32 1, od_ro 0x1009 0x00 0x09 32 2,
      od_ro 0x100A 0x00 0x09 32 3, od_ro 0x1018 0x00 0x05 1 4, od_ro 0x1018 0x01 0x07 4 5,
      od_ro 0x1018 0x02 0x07 4 6, od_ro 0x1018 0x03 0x07 4 7, od_ro 0x1018 0x04 0x07 4 8]"

definition ul_ecat_generated_od_table :: od_table where
  "ul_ecat_generated_od_table =
     \<lparr>entries = Some ul_ecat_generated_od_entries, entry_count = length ul_ecat_generated_od_entries\<rparr>"

definition generated_store :: od_store where
  "generated_store h =
     (if h = 0 then le32 0x00000000
      else if h = 1 then [0x75, 0x6C, 0x5F, 0x65, 0x63, 0x61, 0x74, 0x20, 0x73, 0x6C, 0x61, 0x76, 0x65]
                          @ replicate 19 0
      else if h = 2 then [0x72, 0x65, 0x76, 0x31] @ replicate 28 0
      else if h = 3 then [0x30, 0x2E, 0x31] @ replicate 29 0
      else if h = 4 then [4]
      else if h = 5 then le32 0x00000002
      else if h = 6 then le32 0x1C213052
      else if h = 7 then le32 0x00000001
      else if h = 8 then le32 0x00000001
      else [])"

lemma generated_table_ok: "od_table_ok generated_store (Some ul_ecat_generated_od_table)"
  by (simp add: od_table_ok_def ul_ecat_generated_od_table_def ul_ecat_generated_od_entries_def
      od_ro_def od_entry_ok_def generated_store_def)

end
