(* ===== verification/Coe.thy ===== *)
theory Coe
  imports Od Mailbox
begin

text \<open>
  The CoE / SDO server: \<open>src/slave/ul_ecat_slave_coe.c\<close>. Its file-scope state is the record
  \<open>coe\<close>: the table the dictionary was given, the object storage, and the one segmented upload in
  progress. A handler maps the request frame, the capacity of the reply buffer and the state to
  the reply and the new state; the C result \<open>0\<close> (no reply) is the empty reply.

  \<open>source_bytes\<close> is what \<open>memcpy\<close> finds behind an entry's storage pointer. The C code does not
  test that pointer when it serves a segment, and copies from \<open>NULL\<close> if it is absent; the model
  then copies nothing, and the properties that speak of the data assume \<open>od_table_ok\<close>.
\<close>

abbreviation COE_FRAME_HDR_TOTAL :: nat where "COE_FRAME_HDR_TOTAL \<equiv> 16"
abbreviation UL_ECAT_MBX_TYPE_COE :: byte where "UL_ECAT_MBX_TYPE_COE \<equiv> 0x03"
abbreviation UL_ECAT_COE_SVC_SDO_REQ :: byte where "UL_ECAT_COE_SVC_SDO_REQ \<equiv> 0x02"
abbreviation UL_ECAT_COE_SVC_SDO_RESP :: byte where "UL_ECAT_COE_SVC_SDO_RESP \<equiv> 0x03"
abbreviation UL_ECAT_COE_SVC_SDO_INFO :: byte where "UL_ECAT_COE_SVC_SDO_INFO \<equiv> 0x08"
abbreviation UL_ECAT_SDO_INFO_OP_LIST_REQ :: byte where "UL_ECAT_SDO_INFO_OP_LIST_REQ \<equiv> 0x01"
abbreviation UL_ECAT_SDO_INFO_OP_LIST_RESP :: byte where "UL_ECAT_SDO_INFO_OP_LIST_RESP \<equiv> 0x02"
abbreviation UL_ECAT_SDO_INFO_LIST_ALL :: u16 where "UL_ECAT_SDO_INFO_LIST_ALL \<equiv> 0x01"
abbreviation UL_ECAT_SDO_CCS_DOWNLOAD_REQ_INIT :: byte where "UL_ECAT_SDO_CCS_DOWNLOAD_REQ_INIT \<equiv> 0x20"
abbreviation UL_ECAT_SDO_CCS_UPLOAD_REQ_INIT :: byte where "UL_ECAT_SDO_CCS_UPLOAD_REQ_INIT \<equiv> 0x40"
abbreviation UL_ECAT_SDO_CCS_UPLOAD_SEG_REQ :: byte where "UL_ECAT_SDO_CCS_UPLOAD_SEG_REQ \<equiv> 0x60"
abbreviation UL_ECAT_SDO_SCS_UPLOAD_SEG_RESP :: byte where "UL_ECAT_SDO_SCS_UPLOAD_SEG_RESP \<equiv> 0x00"
abbreviation UL_ECAT_SDO_SCS_UPLOAD_RESP_INIT :: byte where "UL_ECAT_SDO_SCS_UPLOAD_RESP_INIT \<equiv> 0x40"
abbreviation UL_ECAT_SDO_SCS_DOWNLOAD_RESP_INIT :: byte where "UL_ECAT_SDO_SCS_DOWNLOAD_RESP_INIT \<equiv> 0x60"
abbreviation UL_ECAT_SDO_CMD_ABORT :: byte where "UL_ECAT_SDO_CMD_ABORT \<equiv> 0x80"
abbreviation UL_ECAT_SDO_BIT_TOGGLE :: byte where "UL_ECAT_SDO_BIT_TOGGLE \<equiv> 0x10"
abbreviation UL_ECAT_SDO_BIT_LAST_SEG :: byte where "UL_ECAT_SDO_BIT_LAST_SEG \<equiv> 0x01"
abbreviation UL_ECAT_SDO_BIT_EXPEDITED :: byte where "UL_ECAT_SDO_BIT_EXPEDITED \<equiv> 0x02"
abbreviation UL_ECAT_SDO_BIT_SIZE_IND :: byte where "UL_ECAT_SDO_BIT_SIZE_IND \<equiv> 0x01"

abbreviation UL_ECAT_SDO_ABORT_TOGGLE_BIT :: u32 where "UL_ECAT_SDO_ABORT_TOGGLE_BIT \<equiv> 0x05030000"
abbreviation UL_ECAT_SDO_ABORT_WRITE_RO :: u32 where "UL_ECAT_SDO_ABORT_WRITE_RO \<equiv> 0x06010002"
abbreviation UL_ECAT_SDO_ABORT_READ_WO :: u32 where "UL_ECAT_SDO_ABORT_READ_WO \<equiv> 0x06010001"
abbreviation UL_ECAT_SDO_ABORT_OBJECT_GONE :: u32 where "UL_ECAT_SDO_ABORT_OBJECT_GONE \<equiv> 0x06020000"
abbreviation UL_ECAT_SDO_ABORT_BAD_SUBINDEX :: u32 where "UL_ECAT_SDO_ABORT_BAD_SUBINDEX \<equiv> 0x06090011"
abbreviation UL_ECAT_SDO_ABORT_LENGTH_MM :: u32 where "UL_ECAT_SDO_ABORT_LENGTH_MM \<equiv> 0x06070010"
abbreviation UL_ECAT_SDO_ABORT_GENERAL :: u32 where "UL_ECAT_SDO_ABORT_GENERAL \<equiv> 0x08000000"

section \<open>State\<close>

record upload =
  up_active :: bool
  up_entry :: "od_entry option"
  up_offset :: u16
  toggle_expected :: byte

record coe =
  g_table :: "od_table option"
  storage :: od_store
  g_upload :: upload

definition ul_ecat_od_set_table :: "coe \<Rightarrow> od_table option \<Rightarrow> coe" where
  "ul_ecat_od_set_table c table = c\<lparr>g_table := table\<rparr>"

definition cancel_upload :: "coe \<Rightarrow> coe" where
  "cancel_upload c = c\<lparr>g_upload := (g_upload c)\<lparr>up_active := False\<rparr>\<rparr>"

definition source_bytes :: "od_store \<Rightarrow> od_entry \<Rightarrow> bytes" where
  "source_bytes st e = (case e_storage e of None \<Rightarrow> [] | Some h \<Rightarrow> st h)"

section \<open>Building replies\<close>

definition coe_service :: "bytes \<Rightarrow> byte" where
  "coe_service coe_hdr = drop_bit 4 (coe_hdr ! 1) AND 0x0F"

definition build_reply_headers :: "bytes \<Rightarrow> u16 \<Rightarrow> bytes" where
  "build_reply_headers req body_len =
     le16 (2 + body_len) @ slice 2 4 req @ [0x00, push_bit 4 UL_ECAT_COE_SVC_SDO_RESP]"

definition build_abort :: "bytes \<Rightarrow> nat \<Rightarrow> u16 \<Rightarrow> byte \<Rightarrow> u32 \<Rightarrow> bytes" where
  "build_abort req reply_cap index subindex code =
     (if reply_cap < COE_FRAME_HDR_TOTAL then []
      else build_reply_headers req 8 @ [UL_ECAT_SDO_CMD_ABORT] @ le16 index @ [subindex] @ le32 code)"

section \<open>Handlers\<close>

definition handle_upload_init :: "coe \<Rightarrow> bytes \<Rightarrow> nat \<Rightarrow> u16 \<Rightarrow> byte \<Rightarrow> bytes \<times> coe" where
  "handle_upload_init c req reply_cap index subindex =
     (case ul_ecat_od_lookup (g_table c) index subindex of
        None \<Rightarrow>
          (build_abort req reply_cap index subindex
             (if ul_ecat_od_index_exists (g_table c) index then UL_ECAT_SDO_ABORT_BAD_SUBINDEX
              else UL_ECAT_SDO_ABORT_OBJECT_GONE),
           cancel_upload c)
      | Some entry \<Rightarrow>
          if e_flags entry AND UL_ECAT_OD_FLAG_R = 0 then
            (build_abort req reply_cap index subindex UL_ECAT_SDO_ABORT_READ_WO, cancel_upload c)
          else if e_length entry = 0 then
            (build_abort req reply_cap index subindex UL_ECAT_SDO_ABORT_GENERAL, cancel_upload c)
          else if reply_cap < COE_FRAME_HDR_TOTAL then ([], c)
          else if e_length entry \<le> 4 then
            let n = ucast ((4 - e_length entry) AND 0x03) :: byte;
                sdo0 = UL_ECAT_SDO_SCS_UPLOAD_RESP_INIT OR UL_ECAT_SDO_BIT_EXPEDITED
                         OR UL_ECAT_SDO_BIT_SIZE_IND OR push_bit 2 n;
                payload = (case ul_ecat_od_read (storage c) (Some entry) (unat (e_length entry)) of
                             Inr d \<Rightarrow> d @ replicate (4 - length d) 0
                           | Inl _ \<Rightarrow> replicate 4 0) in
            (build_reply_headers req 8 @ [sdo0] @ le16 index @ [subindex] @ payload, cancel_upload c)
          else
            (build_reply_headers req 8
               @ [UL_ECAT_SDO_SCS_UPLOAD_RESP_INIT OR UL_ECAT_SDO_BIT_SIZE_IND] @ le16 index @ [subindex]
               @ [ucast (e_length entry AND 0xFF), ucast (drop_bit 8 (e_length entry) AND 0xFF), 0, 0],
             c\<lparr>g_upload := \<lparr>up_active = True, up_entry = Some entry, up_offset = 0, toggle_expected = 0\<rparr>\<rparr>))"

definition handle_upload_segment :: "coe \<Rightarrow> bytes \<Rightarrow> nat \<Rightarrow> byte \<Rightarrow> bytes \<times> coe" where
  "handle_upload_segment c req reply_cap cmd_byte =
     (let up = g_upload c; toggle_in = cmd_byte AND UL_ECAT_SDO_BIT_TOGGLE in
      case (if up_active up then up_entry up else None) of
        None \<Rightarrow> (build_abort req reply_cap 0 0 UL_ECAT_SDO_ABORT_GENERAL, c)
      | Some entry \<Rightarrow>
          if toggle_in \<noteq> toggle_expected up then
            (build_abort req reply_cap (e_index entry) (e_subindex entry) UL_ECAT_SDO_ABORT_TOGGLE_BIT,
             cancel_upload c)
          else if reply_cap < COE_FRAME_HDR_TOTAL then ([], c)
          else
            let remaining = e_length entry - up_offset up;
                chunk = (if remaining > 7 then 7 else remaining);
                n_unused = ucast (7 - chunk) :: byte;
                last_seg = (if chunk = remaining then UL_ECAT_SDO_BIT_LAST_SEG else 0);
                sdo0 = UL_ECAT_SDO_SCS_UPLOAD_SEG_RESP OR toggle_in OR push_bit 1 n_unused OR last_seg;
                data = slice (unat (up_offset up)) (unat chunk) (source_bytes (storage c) entry) in
            (build_reply_headers req 8 @ [sdo0] @ data @ replicate (7 - length data) 0,
             c\<lparr>g_upload := up\<lparr>up_offset := up_offset up + chunk,
                            toggle_expected := xor (toggle_expected up) UL_ECAT_SDO_BIT_TOGGLE,
                            up_active := last_seg = 0\<rparr>\<rparr>))"

definition handle_download_init ::
  "coe \<Rightarrow> bytes \<Rightarrow> nat \<Rightarrow> bytes \<Rightarrow> u16 \<Rightarrow> byte \<Rightarrow> bytes \<times> coe" where
  "handle_download_init c req reply_cap sdo_req index subindex =
     (case ul_ecat_od_lookup (g_table c) index subindex of
        None \<Rightarrow>
          (build_abort req reply_cap index subindex
             (if ul_ecat_od_index_exists (g_table c) index then UL_ECAT_SDO_ABORT_BAD_SUBINDEX
              else UL_ECAT_SDO_ABORT_OBJECT_GONE), c)
      | Some entry \<Rightarrow>
          if e_flags entry AND UL_ECAT_OD_FLAG_W = 0 then
            (build_abort req reply_cap index subindex UL_ECAT_SDO_ABORT_WRITE_RO, c)
          else
            let cmd = sdo_req ! 0 in
            if cmd AND UL_ECAT_SDO_BIT_EXPEDITED = 0 then
              (build_abort req reply_cap index subindex UL_ECAT_SDO_ABORT_GENERAL, c)
            else
              let n = (if cmd AND UL_ECAT_SDO_BIT_SIZE_IND \<noteq> 0 then drop_bit 2 cmd AND 0x03 else 0);
                  payload_len = 4 - n in
              if payload_len = 0 \<or> ucast payload_len > e_length entry then
                (build_abort req reply_cap index subindex UL_ECAT_SDO_ABORT_LENGTH_MM, c)
              else
                case ul_ecat_od_write (storage c) (Some entry) (slice 4 (unat payload_len) sdo_req) of
                  Inl _ \<Rightarrow> (build_abort req reply_cap index subindex UL_ECAT_SDO_ABORT_GENERAL, c)
                | Inr st \<Rightarrow>
                    let c' = c\<lparr>storage := st\<rparr> in
                    if reply_cap < COE_FRAME_HDR_TOTAL then ([], c')
                    else
                      (build_reply_headers req 8 @ [UL_ECAT_SDO_SCS_DOWNLOAD_RESP_INIT] @ le16 index
                         @ [subindex] @ [0, 0, 0, 0], c'))"

text \<open>The loop of \<open>handle_sdo_info\<close> over the entries; \<open>resp\<close> is the part of \<open>info_resp\<close> filled so far.\<close>

fun add_indices :: "nat \<Rightarrow> u16 \<Rightarrow> od_entry list \<Rightarrow> bytes \<Rightarrow> bytes" where
  "add_indices reply_cap prev_index [] resp = resp"
| "add_indices reply_cap prev_index (e # es) resp =
     (if e_index e = prev_index then add_indices reply_cap prev_index es resp
      else if 8 + length resp + 2 > reply_cap then resp
      else add_indices reply_cap (e_index e) es (resp @ le16 (e_index e)))"

definition handle_sdo_info :: "coe \<Rightarrow> bytes \<Rightarrow> nat \<Rightarrow> bytes \<Rightarrow> bytes" where
  "handle_sdo_info c frame reply_cap info_req =
     (if info_req ! 0 \<noteq> UL_ECAT_SDO_INFO_OP_LIST_REQ then []
      else if reply_cap < 16 then []
      else
        let list_type = of_le16 (info_req ! 4) (info_req ! 5);
            hdr = [UL_ECAT_SDO_INFO_OP_LIST_RESP, 0, 0, 0,
                   ucast (list_type AND 0xFF), ucast (drop_bit 8 list_type AND 0xFF)];
            resp = (if list_type = UL_ECAT_SDO_INFO_LIST_ALL then
                      add_indices reply_cap 0xFFFF
                        (case ul_ecat_od_first (g_table c) of
                           None \<Rightarrow> []
                         | Some e0 \<Rightarrow> take (ul_ecat_od_entries_count (g_table c)) e0) hdr
                    else hdr);
            body_len = word_of_nat (length resp) :: u16 in
        le16 (2 + body_len) @ slice 2 4 frame @ [0x00, push_bit 4 UL_ECAT_COE_SVC_SDO_INFO] @ resp)"

definition ul_ecat_slave_coe_process :: "coe \<Rightarrow> bytes \<Rightarrow> nat \<Rightarrow> bytes \<times> coe" where
  "ul_ecat_slave_coe_process c frame reply_cap =
     (if length frame < COE_FRAME_HDR_TOTAL then ([], c)
      else if frame ! 5 AND 0x0F \<noteq> UL_ECAT_MBX_TYPE_COE then ([], c)
      else
        let svc = coe_service (drop 6 frame); sdo = drop 8 frame in
        if svc = UL_ECAT_COE_SVC_SDO_INFO then (handle_sdo_info c frame reply_cap sdo, c)
        else if svc \<noteq> UL_ECAT_COE_SVC_SDO_REQ then ([], c)
        else
          let cmd_bits = sdo ! 0 AND 0xE0;
              index = of_le16 (sdo ! 1) (sdo ! 2);
              subindex = sdo ! 3 in
          if cmd_bits = UL_ECAT_SDO_CCS_UPLOAD_REQ_INIT then
            handle_upload_init c frame reply_cap index subindex
          else if cmd_bits = UL_ECAT_SDO_CCS_DOWNLOAD_REQ_INIT then
            handle_download_init c frame reply_cap sdo index subindex
          else if cmd_bits = UL_ECAT_SDO_CCS_UPLOAD_SEG_REQ then
            handle_upload_segment c frame reply_cap (sdo ! 0)
          else if cmd_bits = UL_ECAT_SDO_CMD_ABORT then ([], cancel_upload c)
          else (build_abort frame reply_cap index subindex UL_ECAT_SDO_ABORT_GENERAL, c))"

end
