(* ===== verification/CoeProps.thy ===== *)
theory CoeProps
  imports Coe
begin

text \<open>
  Properties of the SDO server. \<open>sdo_frame\<close> and \<open>sdo_reply\<close> are the frames of a client that uses the
  four header bytes \<open>h\<close> (address, channel, type and counter); \<open>fetch_object\<close> is a client that reads an
  object, segment by segment where it must. The object storage behind the server is used through
  the contract \<open>object_store\<close> of the theory \<open>Od\<close>.
\<close>

section \<open>A client's view\<close>

definition coe_client :: "bytes \<Rightarrow> bool" where
  "coe_client h \<longleftrightarrow> length h = 4 \<and> h ! 3 AND 0x0F = UL_ECAT_MBX_TYPE_COE"

definition sdo_frame :: "bytes \<Rightarrow> bytes \<Rightarrow> bytes" where
  "sdo_frame h body = le16 10 @ h @ [0x00, push_bit 4 UL_ECAT_COE_SVC_SDO_REQ] @ body"

definition sdo_reply :: "bytes \<Rightarrow> bytes \<Rightarrow> bytes" where
  "sdo_reply h body = le16 10 @ h @ [0x00, push_bit 4 UL_ECAT_COE_SVC_SDO_RESP] @ body"

lemma reply_headers_frame: "coe_client h \<Longrightarrow> build_reply_headers (sdo_frame h body) 8 @ rest = sdo_reply h rest"
  by (simp add: build_reply_headers_def sdo_frame_def sdo_reply_def coe_client_def slice_def)

lemma drop_sdo_frame: "coe_client h \<Longrightarrow> drop 8 (sdo_frame h body) = body"
  by (simp add: sdo_frame_def coe_client_def)

lemma drop_sdo_reply: "coe_client h \<Longrightarrow> drop 8 (sdo_reply h body) = body"
  by (simp add: sdo_reply_def coe_client_def)

lemma sdo_reply_nth8: "coe_client h \<Longrightarrow> body \<noteq> [] \<Longrightarrow> sdo_reply h body ! 8 = body ! 0"
  using nth_drop [of 8 "sdo_reply h body" 0]
  by (simp add: drop_sdo_reply) (simp add: sdo_reply_def coe_client_def)

lemma length_sdo_reply: "coe_client h \<Longrightarrow> length (sdo_reply h body) = 8 + length body"
  by (simp add: sdo_reply_def coe_client_def)

lemma length_sdo_frame: "coe_client h \<Longrightarrow> length (sdo_frame h body) = 8 + length body"
  by (simp add: sdo_frame_def coe_client_def)

lemma abort_frame:
  "coe_client h \<Longrightarrow> 16 \<le> cap \<Longrightarrow> build_abort (sdo_frame h body) cap i s code
     = sdo_reply h (UL_ECAT_SDO_CMD_ABORT # le16 i @ [s] @ le32 code)"
  using reply_headers_frame [of h body "UL_ECAT_SDO_CMD_ABORT # le16 i @ [s] @ le32 code"]
  by (simp add: build_abort_def)

lemma coe_process_sdo:
  assumes "coe_client h" "length body = 8"
  shows "ul_ecat_slave_coe_process c (sdo_frame h body) cap =
    (let frame = sdo_frame h body; cmd_bits = body ! 0 AND 0xE0;
         index = of_le16 (body ! 1) (body ! 2); subindex = body ! 3 in
     if cmd_bits = UL_ECAT_SDO_CCS_UPLOAD_REQ_INIT then handle_upload_init c frame cap index subindex
     else if cmd_bits = UL_ECAT_SDO_CCS_DOWNLOAD_REQ_INIT then
       handle_download_init c frame cap body index subindex
     else if cmd_bits = UL_ECAT_SDO_CCS_UPLOAD_SEG_REQ then handle_upload_segment c frame cap (body ! 0)
     else if cmd_bits = UL_ECAT_SDO_CMD_ABORT then ([], cancel_upload c)
     else (build_abort frame cap index subindex UL_ECAT_SDO_ABORT_GENERAL, c))"
proof -
  obtain h0 h1 h2 h3 where h: "h = [h0, h1, h2, h3]"
    using assms(1) by (auto simp: coe_client_def numeral_eq_Suc length_Suc_conv)
  have svc: "coe_service (drop 6 (sdo_frame h body)) = UL_ECAT_COE_SVC_SDO_REQ"
    by (simp add: coe_service_def sdo_frame_def h)
  have ty: "sdo_frame h body ! 5 AND 0x0F = UL_ECAT_MBX_TYPE_COE"
    using assms(1) by (simp add: coe_client_def sdo_frame_def h le16_def)
  show ?thesis
    unfolding ul_ecat_slave_coe_process_def svc ty
    using assms by (simp add: Let_def length_sdo_frame drop_sdo_frame)
qed

definition upload_init_req :: "u16 \<Rightarrow> byte \<Rightarrow> bytes" where
  "upload_init_req index subindex =
     UL_ECAT_SDO_CCS_UPLOAD_REQ_INIT # le16 index @ [subindex, 0, 0, 0, 0]"

definition upload_seg_req :: "byte \<Rightarrow> bytes" where
  "upload_seg_req toggle = (UL_ECAT_SDO_CCS_UPLOAD_SEG_REQ OR toggle) # replicate 7 0"

fun fetch_segments :: "nat \<Rightarrow> nat \<Rightarrow> bytes \<Rightarrow> coe \<Rightarrow> byte \<Rightarrow> (bytes \<times> coe) option" where
  "fetch_segments 0 cap h c toggle = None"
| "fetch_segments (Suc n) cap h c toggle =
     (let (r, c') = ul_ecat_slave_coe_process c (sdo_frame h (upload_seg_req toggle)) cap;
          sdo = drop 8 r;
          data = take (7 - unat (drop_bit 1 (sdo ! 0) AND 7)) (drop 1 sdo) in
      if length r \<noteq> 16 \<or> sdo ! 0 AND 0xF0 \<noteq> toggle then None
      else if sdo ! 0 AND UL_ECAT_SDO_BIT_LAST_SEG \<noteq> 0 then Some (data, c')
      else map_option (map_prod ((@) data) id)
             (fetch_segments n cap h c' (xor toggle UL_ECAT_SDO_BIT_TOGGLE)))"

definition fetch_object :: "nat \<Rightarrow> nat \<Rightarrow> bytes \<Rightarrow> coe \<Rightarrow> u16 \<Rightarrow> byte \<Rightarrow> (bytes \<times> coe) option" where
  "fetch_object n cap h c index subindex =
     (let (r, c') = ul_ecat_slave_coe_process c (sdo_frame h (upload_init_req index subindex)) cap;
          sdo = drop 8 r in
      if length r \<noteq> 16 \<or> sdo ! 0 AND 0xE0 \<noteq> UL_ECAT_SDO_SCS_UPLOAD_RESP_INIT then None
      else if sdo ! 0 AND UL_ECAT_SDO_BIT_EXPEDITED \<noteq> 0 then
        Some (take (4 - unat (drop_bit 2 (sdo ! 0) AND 3)) (drop 4 sdo), c')
      else fetch_segments n cap h c' 0)"

section \<open>One segment\<close>

lemma seg_byte:
  assumes "k \<le> 7" "t \<in> {0, 0x10}" "l \<in> {0, 1}"
  shows "(t OR push_bit 1 (word_of_nat k) OR l) AND 0xF0 = (t :: byte)"
    "unat (drop_bit 1 (t OR push_bit 1 (word_of_nat k) OR l) AND 7) = k"
    "(t OR push_bit 1 (word_of_nat k) OR l) AND 1 = l"
proof -
  have "k = 0 \<or> k = 1 \<or> k = 2 \<or> k = 3 \<or> k = 4 \<or> k = 5 \<or> k = 6 \<or> k = 7" using assms(1) by linarith
  with assms(2,3) show "(t OR push_bit 1 (word_of_nat k) OR l) AND 0xF0 = (t :: byte)"
    "unat (drop_bit 1 (t OR push_bit 1 (word_of_nat k) OR l) AND 7) = k"
    "(t OR push_bit 1 (word_of_nat k) OR l) AND 1 = l"
    by auto
qed

lemma unused_bytes: "k \<le> 7 \<Longrightarrow> ucast (7 - word_of_nat k :: u16) = (word_of_nat (7 - k) :: byte)"
proof -
  assume "k \<le> 7"
  then have "k = 0 \<or> k = 1 \<or> k = 2 \<or> k = 3 \<or> k = 4 \<or> k = 5 \<or> k = 6 \<or> k = 7" by linarith
  then show ?thesis by auto
qed

definition uploading :: "coe \<Rightarrow> od_entry \<Rightarrow> nat \<Rightarrow> byte \<Rightarrow> bool" where
  "uploading c e off t \<longleftrightarrow>
     g_upload c = \<lparr>up_active = True, up_entry = Some e, up_offset = word_of_nat off, toggle_expected = t\<rparr>"

lemma segment_step:
  assumes "uploading c e off t" "off < unat (e_length e)" "t \<in> {0, 0x10}" "16 \<le> cap" "coe_client h"
    "e_storage e = Some hd'" "unat (e_length e) \<le> length (storage c hd')"
  defines "k \<equiv> min 7 (unat (e_length e) - off)"
  defines "l \<equiv> (if off + k = unat (e_length e) then 1 else 0)"
  shows "ul_ecat_slave_coe_process c (sdo_frame h (upload_seg_req t)) cap =
    (sdo_reply h ((t OR push_bit 1 (word_of_nat (7 - k)) OR l) # slice off k (storage c hd') @ replicate (7 - k) 0),
     c\<lparr>g_upload := \<lparr>up_active = (l = 0), up_entry = Some e, up_offset = word_of_nat (off + k),
                  toggle_expected = xor t 0x10\<rparr>\<rparr>)"
proof -
  let ?rem = "e_length e - word_of_nat off :: u16"
  have lt: "unat (e_length e) < 65536" by (rule unat_u16_less)
  have off: "unat (word_of_nat off :: u16) = off" using assms(2) lt by (simp add: unat_of_nat)
  have rem: "unat ?rem = unat (e_length e) - off"
    using assms(2) by (subst unat_sub) (simp_all add: off word_le_nat_alt)
  have k: "k \<le> 7" "k \<le> unat (e_length e) - off" by (simp_all add: k_def)
  have chunk: "(if ?rem > 7 then 7 else ?rem) = word_of_nat k"
    using rem by (auto simp: k_def word_less_nat_alt simp flip: rem)
  have nk: "unat (word_of_nat k :: u16) = k" using k by (simp add: unat_of_nat)
  have lst: "(word_of_nat k = ?rem) = (l = 1)"
  proof -
    have "(word_of_nat k = ?rem) = (k = unat (e_length e) - off)"
      by (simp add: word_unat_eq_iff nk rem)
    also have "\<dots> = (l = 1)" using k assms(2) by (auto simp: l_def)
    finally show ?thesis .
  qed
  have req0: "upload_seg_req t ! 0 = 0x60 OR t" "length (upload_seg_req t) = 8"
    by (simp_all add: upload_seg_req_def)
  have bits: "(0x60 OR t) AND 0xE0 = 0x60" "(0x60 OR t) AND 0x10 = t"
    using assms(3) by auto
  have n7: "ucast (7 - word_of_nat k :: u16) = (word_of_nat (7 - k) :: byte)"
    using k(1) by (rule unused_bytes)
  have data: "length (slice off k (storage c hd')) = k"
    using assms(2,7) k by (simp add: slice_def)
  have up: "g_upload c = \<lparr>up_active = True, up_entry = Some e, up_offset = word_of_nat off, toggle_expected = t\<rparr>"
    using assms(1) by (simp add: uploading_def)
  have "ul_ecat_slave_coe_process c (sdo_frame h (upload_seg_req t)) cap
      = handle_upload_segment c (sdo_frame h (upload_seg_req t)) cap (0x60 OR t)"
    by (simp add: coe_process_sdo [OF assms(5) req0(2)] req0(1) bits Let_def)
  also have "\<dots> = (build_reply_headers (sdo_frame h (upload_seg_req t)) 8
      @ ((t OR push_bit 1 (word_of_nat (7 - k)) OR l) # slice off k (storage c hd') @ replicate (7 - k) 0),
     c\<lparr>g_upload := \<lparr>up_active = (l = 0), up_entry = Some e, up_offset = word_of_nat (off + k),
                  toggle_expected = xor t 0x10\<rparr>\<rparr>)"
    unfolding handle_upload_segment_def up Let_def upload.select_convs if_True option.case bits chunk lst
      n7 off nk
    using assms(4,6) data by (simp add: source_bytes_def l_def)
  finally show ?thesis by (simp add: reply_headers_frame [OF assms(5)])
qed

section \<open>A whole upload\<close>

lemma slice_take_drop: "take k (drop off (take n xs)) = slice off (min k (n - off)) xs"
  by (simp add: slice_def drop_take take_take)

lemma toggle_flip: "t \<in> {0, 0x10} \<Longrightarrow> xor t 0x10 \<in> {0, 0x10 :: byte}"
  by auto

lemma fetch_segments_run:
  assumes "uploading c e off t" "off < unat (e_length e)" "t \<in> {0, 0x10}" "16 \<le> cap" "coe_client h"
    "e_storage e = Some p" "unat (e_length e) \<le> length (storage c p)"
    "unat (e_length e) - off \<le> 7 * n"
  shows "\<exists>c'. fetch_segments n cap h c t = Some (drop off (take (unat (e_length e)) (storage c p)), c') \<and>
    \<not> up_active (g_upload c') \<and> storage c' = storage c \<and> g_table c' = g_table c"
  using assms
proof (induction n arbitrary: c off t)
  case 0
  then show ?case by simp
next
  case (Suc n)
  define len where "len = unat (e_length e)"
  define k where "k = min 7 (len - off)"
  define l :: byte where "l = (if off + k = len then 1 else 0)"
  define b where "b = t OR push_bit 1 (word_of_nat (7 - k)) OR l"
  define c' where "c' = c\<lparr>g_upload := \<lparr>up_active = (l = 0), up_entry = Some e, up_offset = word_of_nat (off + k),
                  toggle_expected = xor t 0x10\<rparr>\<rparr>"
  have step: "ul_ecat_slave_coe_process c (sdo_frame h (upload_seg_req t)) cap =
      (sdo_reply h (b # slice off k (storage c p) @ replicate (7 - k) 0), c')"
    using segment_step [OF Suc.prems(1-7)] by (simp add: k_def l_def len_def b_def c'_def)
  have k: "k \<le> 7" "0 < k" using Suc.prems(2) by (simp_all add: k_def len_def)
  have l01: "l \<in> {0, 1}" by (simp add: l_def)
  note bb = seg_byte [of "7 - k" t l, OF _ Suc.prems(3) l01, folded b_def]
  have lk: "length (slice off k (storage c p)) = k"
    using Suc.prems(2,7) by (simp add: slice_def k_def len_def)
  have len16: "length (sdo_reply h (b # slice off k (storage c p) @ replicate (7 - k) 0)) = 16"
    using Suc.prems(5) lk k by (simp add: sdo_reply_def coe_client_def)
  have data: "take (7 - (7 - k)) (slice off k (storage c p) @ replicate (7 - k) 0) = slice off k (storage c p)"
    using lk k by simp
  have unfold: "fetch_segments (Suc n) cap h c t =
      (if l \<noteq> 0 then Some (slice off k (storage c p), c')
       else map_option (map_prod ((@) (slice off k (storage c p))) id)
              (fetch_segments n cap h c' (xor t 0x10)))"
    using bb len16 data
    by (simp add: step Let_def drop_sdo_reply [OF Suc.prems(5)] sdo_reply_nth8 [OF Suc.prems(5)] drop_Cons'
        del: take_append)
  show ?case
  proof (cases "off + k = len")
    case True
    then have "k = len - off" by linarith
    then have "slice off k (storage c p) = drop off (take len (storage c p))"
      by (simp add: slice_def drop_take)
    with True show ?thesis by (simp add: unfold l_def len_def c'_def del: fetch_segments.simps)
  next
    case False
    with Suc.prems(2) have k7: "k = 7" and lt: "off + k < len" unfolding k_def len_def by linarith+
    have up': "uploading c' e (off + k) (xor t 0x10)"
      using False by (simp add: uploading_def c'_def l_def)
    have st: "storage c' = storage c" "g_table c' = g_table c" by (simp_all add: c'_def)
    have rest: "unat (e_length e) - (off + k) \<le> 7 * n" using k7 Suc.prems(8) by simp
    obtain c'' where c'': "fetch_segments n cap h c' (xor t 0x10)
        = Some (drop (off + k) (take len (storage c p)), c'')"
      "\<not> up_active (g_upload c'')" "storage c'' = storage c" "g_table c'' = g_table c"
      using Suc.IH [OF up' _ toggle_flip [OF Suc.prems(3)] Suc.prems(4-6) _ rest] lt st Suc.prems(7)
      by (auto simp: len_def)
    have "slice off k (storage c p) @ drop (off + k) (take len (storage c p)) = drop off (take len (storage c p))"
    proof -
      have "slice off k (storage c p) = take k (drop off (take len (storage c p)))"
        using lt by (simp add: slice_take_drop)
      moreover have "drop (off + k) (take len (storage c p)) = drop k (drop off (take len (storage c p)))"
        by (simp only: drop_drop add.commute)
      ultimately show ?thesis by (simp only: append_take_drop_id)
    qed
    with False c'' show ?thesis by (simp add: unfold l_def len_def del: fetch_segments.simps)
  qed
qed

lemma upload_init_req_facts:
  "length (upload_init_req i s) = 8" "upload_init_req i s ! 0 = 0x40"
  "of_le16 (upload_init_req i s ! 1) (upload_init_req i s ! 2) = i" "upload_init_req i s ! 3 = s"
  by (simp_all add: upload_init_req_def le16_def of_le16_bytes nth_Cons')

lemma coe_upload_init:
  "coe_client h \<Longrightarrow> ul_ecat_slave_coe_process c (sdo_frame h (upload_init_req i s)) cap
     = handle_upload_init c (sdo_frame h (upload_init_req i s)) cap i s"
  by (simp add: coe_process_sdo upload_init_req_facts [simplified] upload_init_req_facts Let_def)

lemma expedited_byte:
  assumes "1 \<le> k" "k \<le> 4"
  defines "b \<equiv> 0x40 OR 0x02 OR 0x01 OR push_bit 2 (ucast ((4 - word_of_nat k :: u16) AND 0x03)) :: byte"
  shows "b AND 0xE0 = 0x40" "b AND 0x02 \<noteq> 0" "unat (drop_bit 2 b AND 3) = 4 - k"
proof -
  have "k = 1 \<or> k = 2 \<or> k = 3 \<or> k = 4" using assms(1,2) by linarith
  then show "b AND 0xE0 = 0x40" "b AND 0x02 \<noteq> 0" "unat (drop_bit 2 b AND 3) = 4 - k"
    unfolding b_def by auto
qed

lemma sdo_upload_run:
  assumes "od_table_ok (storage c) (g_table c)" "ul_ecat_od_lookup (g_table c) i s = Some e"
    "readable e" "e_length e \<noteq> 0" "16 \<le> cap" "coe_client h" "unat (e_length e) \<le> 7 * n"
  shows "\<exists>p c'. e_storage e = Some p \<and>
    fetch_object n cap h c i s = Some (take (unat (e_length e)) (storage c p), c') \<and>
    \<not> up_active (g_upload c') \<and> storage c' = storage c \<and> g_table c' = g_table c"
proof -
  obtain p where p: "e_storage e = Some p" "unat (e_length e) \<le> length (storage c p)"
    using entry_okE [OF lookup_ok [OF assms(1,2)]] .
  define len where "len = unat (e_length e)"
  have pos: "0 < len" using assms(4) by (simp add: len_def unat_gt_0)
  show ?thesis
  proof (cases "e_length e \<le> 4")
    case True
    then have le: "len \<le> 4" by (simp add: len_def word_le_nat_alt)
    have lw: "e_length e = word_of_nat len" by (simp add: len_def)
    define b :: byte where "b = 0x40 OR 0x02 OR 0x01 OR push_bit 2 (ucast ((4 - word_of_nat len :: u16) AND 0x03))"
    have bb: "b AND 0xE0 = 0x40" "b AND 0x02 \<noteq> 0" "unat (drop_bit 2 b AND 3) = 4 - len"
      using expedited_byte [of len] pos le unfolding b_def by auto
    define d where "d = take len (storage c p)"
    have dl: "length d = len" using p(2) by (simp add: d_def len_def)
    have rd: "ul_ecat_od_read (storage c) (Some e) len = Inr d"
      using assms(3,4) p by (simp add: ul_ecat_od_read_def readable_def d_def len_def)
    have "handle_upload_init c (sdo_frame h (upload_init_req i s)) cap i s
      = (sdo_reply h ([b] @ le16 i @ [s] @ d @ replicate (4 - len) 0), cancel_upload c)"
      using assms(2-6) True rd dl
      by (simp add: handle_upload_init_def readable_def Let_def reply_headers_frame flip: len_def)
         (simp add: lw b_def)
    then have "fetch_object n cap h c i s = Some (take len (d @ replicate (4 - len) 0), cancel_upload c)"
      using bb dl le assms(6)
      by (simp add: fetch_object_def coe_upload_init drop_sdo_reply sdo_reply_nth8 length_sdo_reply Let_def
          del: drop_append) (simp add: le16_def)
    then show ?thesis using p dl by (simp add: cancel_upload_def d_def len_def)
  next
    case False
    define c1 where "c1 = c\<lparr>g_upload := \<lparr>up_active = True, up_entry = Some e, up_offset = 0, toggle_expected = 0\<rparr>\<rparr>"
    define body where "body = 0x41 # le16 i @ [s] @ [ucast (e_length e AND 0xFF), ucast (drop_bit 8 (e_length e) AND 0xFF), 0, 0]"
    have "handle_upload_init c (sdo_frame h (upload_init_req i s)) cap i s = (sdo_reply h body, c1)"
      using assms(2-6) False
      by (simp add: handle_upload_init_def readable_def Let_def reply_headers_frame c1_def body_def)
    then have f: "fetch_object n cap h c i s = fetch_segments n cap h c1 0"
      using assms(6)
      by (simp add: fetch_object_def coe_upload_init drop_sdo_reply sdo_reply_nth8 length_sdo_reply Let_def
          body_def)
    have "\<exists>c'. fetch_segments n cap h c1 0 = Some (drop 0 (take len (storage c1 p)), c') \<and>
        \<not> up_active (g_upload c') \<and> storage c' = storage c1 \<and> g_table c' = g_table c1"
      unfolding len_def using assms(5-7) p pos
      by (intro fetch_segments_run) (simp_all add: uploading_def c1_def len_def)
    then show ?thesis using p by (simp add: f c1_def len_def)
  qed
qed

text \<open>
  Property C17. Reading an object over SDO delivers it whole and terminates: on a well-formed
  dictionary, a client that asks for a readable object and, where the answer is not expedited,
  fetches segments with an alternating toggle bit, receives exactly the bytes in the object's
  storage after at most one segment per seven bytes, and leaves no transfer open and nothing
  changed.
\<close>

theorem sdo_upload_delivers:
  assumes "od_table_ok (storage c) (g_table c)" "ul_ecat_od_lookup (g_table c) i s = Some e"
    "readable e" "e_length e \<noteq> 0" "16 \<le> cap" "coe_client h" "unat (e_length e) \<le> 7 * n"
  shows "\<exists>p c'. e_storage e = Some p \<and>
    fetch_object n cap h c i s = Some (take (unat (e_length e)) (storage c p), c') \<and>
    \<not> up_active (g_upload c') \<and> storage c' = storage c \<and> g_table c' = g_table c"
  by (rule sdo_upload_run [OF assms])

section \<open>Trailing bytes\<close>

lemma coe_process_pad:
  assumes "16 \<le> length frame"
  shows "ul_ecat_slave_coe_process c (frame @ pad) cap = ul_ecat_slave_coe_process c frame cap"
proof -
  have hdr: "build_reply_headers (frame @ pad) n = build_reply_headers frame n" for n
    using assms by (simp add: build_reply_headers_def slice_def)
  have ab: "build_abort (frame @ pad) = build_abort frame"
    by (intro ext) (simp add: build_abort_def hdr)
  have up: "handle_upload_init c (frame @ pad) = handle_upload_init c frame"
    by (intro ext) (simp only: handle_upload_init_def ab hdr)
  have seg: "handle_upload_segment c (frame @ pad) = handle_upload_segment c frame"
    by (intro ext) (simp only: handle_upload_segment_def ab hdr)
  have n4: "unat (4 - (if P then b AND 3 else 0) :: byte) \<le> 4" for P and b :: byte
  proof -
    have "b AND 3 \<le> 4" by (rule order_trans [OF word_and_le1]) simp
    then have "4 - (b AND 3) \<le> 4" by (rule word_sub_le)
    then show ?thesis by (simp add: word_le_nat_alt)
  qed
  have "slice 4 (unat (4 - (if P then b AND 3 else 0) :: byte)) (drop 8 frame @ pad)
      = slice 4 (unat (4 - (if P then b AND 3 else 0) :: byte)) (drop 8 frame)" for P and b :: byte
    using n4 [of P b] assms by (simp add: slice_def)
  note sl = this
  have z: "(drop 8 frame @ pad) ! 0 = drop 8 frame ! 0" using assms by (simp add: nth_append)
  have down: "handle_download_init c (frame @ pad) cap (drop 8 frame @ pad)
      = handle_download_init c frame cap (drop 8 frame)"
    by (intro ext) (simp only: handle_download_init_def ab hdr z sl Let_def)
  have n: "j < 8 \<Longrightarrow> (drop 8 frame @ pad) ! j = drop 8 frame ! j" for j
  proof -
    assume "j < 8"
    with assms have "j < length frame - 8" by linarith
    then show ?thesis by (simp add: nth_append)
  qed
  have n0123: "(drop 8 frame @ pad) ! 0 = drop 8 frame ! 0" "(drop 8 frame @ pad) ! 1 = drop 8 frame ! 1"
    "(drop 8 frame @ pad) ! 2 = drop 8 frame ! 2" "(drop 8 frame @ pad) ! 3 = drop 8 frame ! 3"
    by (rule n; simp)+
  have info: "handle_sdo_info c (frame @ pad) cap (drop 8 frame @ pad) = handle_sdo_info c frame cap (drop 8 frame)"
  proof -
    have "slice 2 4 (frame @ pad) = slice 2 4 frame" using assms by (simp add: slice_def)
    then show ?thesis by (simp add: handle_sdo_info_def n del: nth_drop)
  qed
  have dr: "drop 8 (frame @ pad) = drop 8 frame @ pad" "(frame @ pad) ! 5 = frame ! 5"
    "coe_service (drop 6 (frame @ pad)) = coe_service (drop 6 frame)"
    using assms by (auto simp: coe_service_def nth_append)
  have len: "length (frame @ pad) < 16 \<longleftrightarrow> False" "length frame < 16 \<longleftrightarrow> False" using assms by auto
  show ?thesis
    unfolding ul_ecat_slave_coe_process_def Let_def len dr n0123 up seg down info ab ..
qed

section \<open>Expedited downloads\<close>

lemma ucast_small: "k \<le> 4 \<Longrightarrow> unat (ucast (word_of_nat k :: byte) :: u16) = k"
proof -
  assume "k \<le> 4"
  then have "k = 0 \<or> k = 1 \<or> k = 2 \<or> k = 3 \<or> k = 4" by linarith
  then show ?thesis by auto
qed

definition download_req :: "u16 \<Rightarrow> byte \<Rightarrow> bytes \<Rightarrow> bytes" where
  "download_req i s bs =
     (0x23 OR push_bit 2 (word_of_nat (4 - length bs))) # le16 i @ [s] @ bs @ replicate (4 - length bs) 0"

lemma download_byte:
  assumes "1 \<le> k" "k \<le> 4"
  defines "b \<equiv> 0x23 OR push_bit 2 (word_of_nat (4 - k)) :: byte"
  shows "b AND 0xE0 = 0x20" "b AND 0x02 \<noteq> 0" "b AND 0x01 \<noteq> 0" "4 - (drop_bit 2 b AND 3) = word_of_nat k"
proof -
  have "k = 1 \<or> k = 2 \<or> k = 3 \<or> k = 4" using assms(1,2) by linarith
  then show "b AND 0xE0 = 0x20" "b AND 0x02 \<noteq> 0" "b AND 0x01 \<noteq> 0" "4 - (drop_bit 2 b AND 3) = word_of_nat k"
    unfolding b_def by auto
qed

lemma coe_download_init:
  assumes "coe_client h" "1 \<le> length bs" "length bs \<le> 4"
  shows "ul_ecat_slave_coe_process c (sdo_frame h (download_req i s bs)) cap
     = handle_download_init c (sdo_frame h (download_req i s bs)) cap (download_req i s bs) i s"
proof -
  have "length (download_req i s bs) = 8" "of_le16 (download_req i s bs ! 1) (download_req i s bs ! 2) = i"
    "download_req i s bs ! 3 = s"
    using assms(3) by (simp_all add: download_req_def le16_def of_le16_bytes nth_Cons')
  moreover have "download_req i s bs ! 0 AND 0xE0 = 0x20"
    using download_byte(1) [OF assms(2,3)] by (simp add: download_req_def)
  ultimately show ?thesis using assms(1) by (simp add: coe_process_sdo Let_def)
qed

definition download_ack :: "u16 \<Rightarrow> byte \<Rightarrow> bytes" where
  "download_ack i s = 0x60 # le16 i @ [s, 0, 0, 0, 0]"

lemma download_init_eq:
  assumes "coe_client h" "1 \<le> length bs" "length bs \<le> 4" "16 \<le> cap"
    "ul_ecat_od_lookup (g_table c) i s = Some e" "writable e" "length bs \<le> unat (e_length e)"
  shows "handle_download_init c (sdo_frame h (download_req i s bs)) cap (download_req i s bs) i s =
    (case ul_ecat_od_write (storage c) (Some e) bs of
       Inl _ \<Rightarrow> (build_abort (sdo_frame h (download_req i s bs)) cap i s UL_ECAT_SDO_ABORT_GENERAL, c)
     | Inr st \<Rightarrow> (sdo_reply h (download_ack i s), c\<lparr>storage := st\<rparr>))"
proof -
  define b :: byte where "b = 0x23 OR push_bit 2 (word_of_nat (4 - length bs))"
  note bb = download_byte [OF assms(2,3), folded b_def]
  have b0: "download_req i s bs ! 0 = b" by (simp add: download_req_def b_def)
  have n: "unat (word_of_nat (length bs) :: byte) = length bs" "(word_of_nat (length bs) :: byte) \<noteq> 0"
    using assms(2,3) by (auto simp: unat_of_nat word_unat_eq_iff)
  have sl: "slice 4 (length bs) (download_req i s bs) = bs"
    by (simp add: download_req_def slice_def le16_def)
  have fits: "\<not> e_length e < ucast (word_of_nat (length bs) :: byte)"
    using assms(3,7) by (simp add: word_less_nat_alt ucast_small)
  have nb: "(if b AND 0x01 \<noteq> 0 then drop_bit 2 b AND 3 else 0) = drop_bit 2 b AND 3" using bb(3) by simp
  show ?thesis
    using assms(5,6) bb(2) n(2) fits reply_headers_frame [OF assms(1)] assms(4)
    unfolding handle_download_init_def b0 Let_def nb bb(4) n(1) sl
    by (simp add: writable_def download_ack_def split: sum.split)
qed

text \<open>
  Property C24. An expedited download of a whole object of one to four bytes is acknowledged, and
  an upload that follows returns the bytes written; objects with another storage read as before.
\<close>

theorem sdo_download_roundtrip:
  assumes "od_table_ok (storage c) (g_table c)" "ul_ecat_od_lookup (g_table c) i s = Some e"
    "readable e" "writable e" "unat (e_length e) = length bs" "1 \<le> length bs" "length bs \<le> 4"
    "16 \<le> cap" "coe_client h"
    and "ul_ecat_slave_coe_process c (sdo_frame h (download_req i s bs)) cap = (r, c')"
  shows "r = sdo_reply h (download_ack i s) \<and>
    (\<exists>c''. fetch_object 1 cap h c' i s = Some (bs, c'')) \<and>
    (\<forall>f n. e_storage f \<noteq> e_storage e \<longrightarrow>
       ul_ecat_od_read (storage c') (Some f) n = ul_ecat_od_read (storage c) (Some f) n)"
proof -
  have wo: "bs \<noteq> []" using assms(6) by auto
  obtain st where st: "ul_ecat_od_write (storage c) (Some e) bs = Inr st"
    "ul_ecat_od_read st (Some e) (unat (e_length e)) = Inr bs" "od_entry_ok st e"
    using od.full_write_read [OF lookup_ok [OF assms(1,2)] assms(3,4) _ wo] assms(5) by auto
  have eq: "r = sdo_reply h (download_ack i s)" "c' = c\<lparr>storage := st\<rparr>"
    using assms(10) st(1)
    by (simp_all add: coe_download_init [OF assms(9,6,7)]
        download_init_eq [OF assms(9,6,7,8,2,4) assms(5) [symmetric, THEN eq_refl]])
  have ok: "od_table_ok (storage c') (g_table c')"
    using table_ok_lengths [OF assms(1)] write_keeps_lengths [OF st(1) lookup_ok [OF assms(1,2)]] eq(2) by simp
  have nz: "e_length e \<noteq> 0" using assms(5,6) by auto
  have one: "unat (e_length e) \<le> 7 * 1" using assms(5,7) by simp
  obtain p c'' where f: "e_storage e = Some p"
    "fetch_object 1 cap h c' i s = Some (take (unat (e_length e)) (storage c' p), c'')"
    using sdo_upload_run [OF ok _ assms(3) nz assms(8,9) one, of i s] assms(2) eq(2) by auto
  have "take (unat (e_length e)) (storage c' p) = bs"
    using st(2) f(1) assms(3) nz eq(2) by (simp add: ul_ecat_od_read_def readable_def)
  with f(2) have "\<exists>c''. fetch_object 1 cap h c' i s = Some (bs, c'')" by blast
  moreover have "\<forall>f n. e_storage f \<noteq> e_storage e \<longrightarrow>
       ul_ecat_od_read (storage c') (Some f) n = ul_ecat_od_read (storage c) (Some f) n"
    using od.get_put_other [OF _ st(1)] eq(2) by fastforce
  ultimately show ?thesis using eq(1) by blast
qed

section \<open>Refusals\<close>

definition no_object_code :: "coe \<Rightarrow> u16 \<Rightarrow> u32" where
  "no_object_code c i =
     (if ul_ecat_od_index_exists (g_table c) i then UL_ECAT_SDO_ABORT_BAD_SUBINDEX
      else UL_ECAT_SDO_ABORT_OBJECT_GONE)"

definition sdo_abort :: "bytes \<Rightarrow> u16 \<Rightarrow> byte \<Rightarrow> u32 \<Rightarrow> bytes" where
  "sdo_abort h i s code = sdo_reply h (UL_ECAT_SDO_CMD_ABORT # le16 i @ [s] @ le32 code)"


section \<open>Toggle errors\<close>

text \<open>
  A segment request with the wrong toggle bit is answered with the toggle abort for
  the object being read and ends the transfer, so that every later segment request is refused
  until a new upload is started.
\<close>

theorem sdo_toggle_error:
  assumes "uploading c e off t" "t \<in> {0, 0x10}" "t' \<in> {0, 0x10}" "t' \<noteq> t" "16 \<le> cap" "coe_client h"
  shows "\<exists>c'. ul_ecat_slave_coe_process c (sdo_frame h (upload_seg_req t')) cap
      = (sdo_abort h (e_index e) (e_subindex e) UL_ECAT_SDO_ABORT_TOGGLE_BIT, c') \<and>
    (\<forall>u \<in> {0, 0x10}. ul_ecat_slave_coe_process c' (sdo_frame h (upload_seg_req u)) cap
      = (sdo_abort h 0 0 UL_ECAT_SDO_ABORT_GENERAL, c'))"
proof -
  have seg: "ul_ecat_slave_coe_process d (sdo_frame h (upload_seg_req u)) cap
      = handle_upload_segment d (sdo_frame h (upload_seg_req u)) cap (0x60 OR u)" if "u \<in> {0, 0x10}" for d u
    using that by (auto simp: coe_process_sdo [OF assms(6)] upload_seg_req_def)
  have bit: "(0x60 OR u) AND 0x10 = u" if "u \<in> {0, 0x10 :: byte}" for u
    using that by auto
  have "ul_ecat_slave_coe_process c (sdo_frame h (upload_seg_req t')) cap
      = (sdo_abort h (e_index e) (e_subindex e) UL_ECAT_SDO_ABORT_TOGGLE_BIT, cancel_upload c)"
    using assms(1,4) bit [OF assms(3)]
    by (simp add: seg [OF assms(3)] handle_upload_segment_def uploading_def abort_frame [OF assms(6,5)] sdo_abort_def)
  moreover have "ul_ecat_slave_coe_process (cancel_upload c) (sdo_frame h (upload_seg_req u)) cap
      = (sdo_abort h 0 0 UL_ECAT_SDO_ABORT_GENERAL, cancel_upload c)" if "u \<in> {0, 0x10}" for u
    by (simp add: seg [OF that] handle_upload_segment_def cancel_upload_def abort_frame [OF assms(6,5)] sdo_abort_def)
  ultimately show ?thesis by blast
qed

section \<open>The shape of every reply\<close>

definition coe_reply_to :: "bytes \<Rightarrow> nat \<Rightarrow> bytes \<Rightarrow> bool" where
  "coe_reply_to frame cap r \<longleftrightarrow> 14 \<le> length r \<and> length r \<le> cap \<and>
     of_le16 (r ! 0) (r ! 1) = word_of_nat (length r - 6) \<and> slice 2 4 r = slice 2 4 frame \<and>
     r ! 6 = 0 \<and> (r ! 7 = 0x30 \<or> r ! 7 = 0x80)"

lemma reply_to_intro:
  assumes "6 \<le> length frame" "w = word_of_nat (2 + length body)" "t = 0x30 \<or> t = 0x80"
    "6 \<le> length body" "8 + length body \<le> cap"
  shows "coe_reply_to frame cap (le16 w @ slice 2 4 frame @ [0, t] @ body)"
proof -
  have l: "length (slice 2 4 frame) = 4" using assms(1) by (simp add: slice_def)
  then obtain a b c d where s: "slice 2 4 frame = [a, b, c, d]"
    by (auto simp: numeral_eq_Suc length_Suc_conv)
  show ?thesis
    using assms(2-5) unfolding coe_reply_to_def s
    by (simp add: le16_def of_le16_bytes slice_def)
qed

lemma reply_sdo:
  "6 \<le> length frame \<Longrightarrow> length body = 8 \<Longrightarrow> 16 \<le> cap \<Longrightarrow>
     coe_reply_to frame cap (build_reply_headers frame 8 @ body)"
  using reply_to_intro [of frame 10 body "0x30" cap] by (simp add: build_reply_headers_def)

lemma reply_abort:
  "6 \<le> length frame \<Longrightarrow> build_abort frame cap i s code = [] \<or> coe_reply_to frame cap (build_abort frame cap i s code)"
  by (simp add: build_abort_def reply_sdo)

lemma add_indices_eq:
  "8 + length resp \<le> cap \<Longrightarrow>
     add_indices cap prev es resp =
       resp @ concat (map le16 (take ((cap - 8 - length resp) div 2)
                (tl (remdups_adj (prev # map e_index es)))))"
proof (induction es arbitrary: prev resp)
  case Nil
  then show ?case by simp
next
  case (Cons e es)
  show ?case
  proof (cases "e_index e = prev")
    case True
    with Cons show ?thesis by simp
  next
    case False
    show ?thesis
    proof (cases "8 + length resp + 2 > cap")
      case True
      then have "(cap - 8 - length resp) div 2 = 0" by simp
      with True False show ?thesis by simp
    next
      case fits: False
      then have d: "(cap - 8 - length resp) div 2 = Suc ((cap - 8 - length (resp @ le16 (e_index e))) div 2)"
        by simp
      have "8 + length (resp @ le16 (e_index e)) \<le> cap" using fits by simp
      note ih = Cons.IH [OF this, of "e_index e"]
      obtain ys where ys: "remdups_adj (e_index e # map e_index es) = e_index e # ys"
        using remdups_adj_Cons_alt [of "e_index e" "map e_index es"] by metis
      show ?thesis using ih False fits unfolding d by (simp add: ys)
    qed
  qed
qed

lemma length_concat_le16: "length (concat (map le16 xs)) = 2 * length xs"
  by (induction xs) simp_all

lemma add_indices_fits:
  assumes "8 + length resp \<le> cap"
  shows "8 + length (add_indices cap prev es resp) \<le> cap" "length resp \<le> length (add_indices cap prev es resp)"
proof -
  have "2 * length (take ((cap - 8 - length resp) div 2) xs) \<le> cap - 8 - length resp" for xs :: "u16 list"
    by simp
  with assms show "8 + length (add_indices cap prev es resp) \<le> cap"
    by (simp add: add_indices_eq length_concat_le16)
  show "length resp \<le> length (add_indices cap prev es resp)" using assms by (simp add: add_indices_eq)
qed

lemma reply_info:
  assumes "6 \<le> length frame"
  shows "handle_sdo_info c frame cap sdo = [] \<or> coe_reply_to frame cap (handle_sdo_info c frame cap sdo)"
proof (cases "sdo ! 0 \<noteq> 1 \<or> cap < 16")
  case True
  then show ?thesis by (auto simp: handle_sdo_info_def)
next
  case False
  define ty where "ty = of_le16 (sdo ! 4) (sdo ! 5)"
  define hdr :: bytes where "hdr = [0x02, 0, 0, 0, ucast (ty AND 0xFF), ucast (drop_bit 8 ty AND 0xFF)]"
  define es where "es = (case ul_ecat_od_first (g_table c) of None \<Rightarrow> []
                         | Some e0 \<Rightarrow> take (ul_ecat_od_entries_count (g_table c)) e0)"
  define resp where "resp = (if ty = 1 then add_indices cap 0xFFFF es hdr else hdr)"
  have eq: "handle_sdo_info c frame cap sdo
      = le16 (2 + word_of_nat (length resp)) @ slice 2 4 frame @ [0x00, push_bit 4 UL_ECAT_COE_SVC_SDO_INFO] @ resp"
    using False by (simp only: handle_sdo_info_def Let_def resp_def es_def hdr_def ty_def) simp
  have "8 + length resp \<le> cap" "6 \<le> length resp"
    using False add_indices_fits [of hdr cap "0xFFFF" es] by (auto simp: resp_def hdr_def)
  then show ?thesis unfolding eq by (intro disjI2 reply_to_intro [OF assms]) simp_all
qed

lemma reply_upload_init:
  assumes "6 \<le> length frame"
  shows "fst (handle_upload_init c frame cap i s) = [] \<or> coe_reply_to frame cap (fst (handle_upload_init c frame cap i s))"
proof -
  have le: "e_length e \<le> 4 \<Longrightarrow> unat (e_length e) \<le> 4" for e
    by (simp add: word_le_nat_alt)
  show ?thesis
    unfolding handle_upload_init_def Let_def
    by (auto intro!: reply_abort [OF assms] reply_sdo [OF assms] simp: ul_ecat_od_read_def
        split: option.split dest!: le)
qed

lemma reply_upload_segment:
  assumes "6 \<le> length frame"
  shows "fst (handle_upload_segment c frame cap b) = [] \<or> coe_reply_to frame cap (fst (handle_upload_segment c frame cap b))"
proof -
  have le: "\<not> 7 < r \<Longrightarrow> unat r \<le> 7" for r :: u16
    by (simp add: word_less_nat_alt)
  show ?thesis
    unfolding handle_upload_segment_def Let_def
    by (auto intro!: reply_abort [OF assms] reply_sdo [OF assms] simp: slice_def
        split: option.split dest!: le)
qed

lemma reply_download_init:
  assumes "6 \<le> length frame"
  shows "fst (handle_download_init c frame cap sdo i s) = [] \<or> coe_reply_to frame cap (fst (handle_download_init c frame cap sdo i s))"
  using reply_abort [OF assms] reply_sdo [OF assms]
  by (auto simp: handle_download_init_def Let_def split: option.split sum.split)

text \<open>
  Every reply of the SDO server fits the reply buffer, has a length field that counts
  what follows the six-byte mailbox header, echoes the address, channel, priority, type and
  counter of the request, and is marked as an SDO response or SDO information.
\<close>

theorem coe_reply_shape:
  assumes "ul_ecat_slave_coe_process c frame cap = (r, c')" "r \<noteq> []"
  shows "14 \<le> length r \<and> length r \<le> cap \<and>
     of_le16 (r ! 0) (r ! 1) = word_of_nat (length r - 6) \<and> slice 2 4 r = slice 2 4 frame \<and>
     r ! 6 = 0 \<and> (r ! 7 = 0x30 \<or> r ! 7 = 0x80)"
proof -
  have "coe_reply_to frame cap r"
  proof (cases "length frame < 16")
    case False
    then have "6 \<le> length frame" by simp
    note rs = reply_abort [OF this] reply_info [OF this] reply_upload_init [OF this] reply_upload_segment [OF this]
      reply_download_init [OF this]
    have "fst (ul_ecat_slave_coe_process c frame cap) = [] \<or> coe_reply_to frame cap (fst (ul_ecat_slave_coe_process c frame cap))"
      using rs by (simp add: ul_ecat_slave_coe_process_def Let_def del: fst_conv add: prod.sel)
    with assms show ?thesis by simp
  qed (use assms in \<open>simp add: ul_ecat_slave_coe_process_def\<close>)
  then show ?thesis by (simp add: coe_reply_to_def)
qed

section \<open>What a request can change\<close>

lemma upload_init_storage:
  "storage (snd (handle_upload_init c f cap i s)) = storage c \<and> g_table (snd (handle_upload_init c f cap i s)) = g_table c"
  by (auto simp: handle_upload_init_def Let_def cancel_upload_def split: option.split)

lemma upload_segment_storage:
  "storage (snd (handle_upload_segment c f cap b)) = storage c \<and> g_table (snd (handle_upload_segment c f cap b)) = g_table c"
  unfolding handle_upload_segment_def Let_def
  by (auto simp: cancel_upload_def split: option.split)

lemma download_init_storage:
  "g_table (snd (handle_download_init c f cap sdo i s)) = g_table c \<and>
   (storage (snd (handle_download_init c f cap sdo i s)) = storage c \<or>
     (\<exists>e bs. e \<in> set (od_array (g_table c)) \<and>
        ul_ecat_od_write (storage c) (Some e) bs = Inr (storage (snd (handle_download_init c f cap sdo i s)))))"
  by (auto simp: handle_download_init_def Let_def split: option.split sum.split dest: lookup_in_array)

lemma coe_process_storage:
  "g_table (snd (ul_ecat_slave_coe_process c f cap)) = g_table c \<and>
   (storage (snd (ul_ecat_slave_coe_process c f cap)) = storage c \<or>
     (\<exists>e bs. e \<in> set (od_array (g_table c)) \<and>
        ul_ecat_od_write (storage c) (Some e) bs = Inr (storage (snd (ul_ecat_slave_coe_process c f cap)))))"
  using upload_init_storage upload_segment_storage download_init_storage
  by (simp add: ul_ecat_slave_coe_process_def Let_def cancel_upload_def)

definition coe_run :: "nat \<Rightarrow> coe \<Rightarrow> bytes list \<Rightarrow> coe" where
  "coe_run cap = foldl (\<lambda>c f. snd (ul_ecat_slave_coe_process c f cap))"

text \<open>
  No sequence of mailbox frames, well-formed or not, changes the bytes behind an
  object whose storage no writable entry shares, and the dictionary stays well-formed throughout.
\<close>

theorem read_only_objects_keep_value:
  assumes "od_table_ok (storage c) (g_table c)"
    and "\<forall>e \<in> set (od_array (g_table c)). writable e \<longrightarrow> e_storage e \<noteq> Some p"
  shows "storage (coe_run cap c fs) p = storage c p \<and>
    od_table_ok (storage (coe_run cap c fs)) (g_table c) \<and>
    g_table (coe_run cap c fs) = g_table c"
  using assms
proof (induction fs arbitrary: c)
  case Nil
  then show ?case by (simp add: coe_run_def)
next
  case (Cons f fs)
  let ?c = "snd (ul_ecat_slave_coe_process c f cap)"
  have t: "g_table ?c = g_table c" using coe_process_storage by blast
  have "od_table_ok (storage ?c) (g_table ?c) \<and> storage ?c p = storage c p"
  proof (cases "storage ?c = storage c")
    case True
    with Cons.prems t show ?thesis by simp
  next
    case False
    then obtain e bs where e: "e \<in> set (od_array (g_table c))"
      "ul_ecat_od_write (storage c) (Some e) bs = Inr (storage ?c)"
      using coe_process_storage [of c f cap] by blast
    from e(2) obtain q where q: "writable e" "e_storage e = Some q"
      "storage ?c = (storage c)(q := bs @ drop (length bs) (storage c q))"
      by (rule write_SomeD)
    have "od_table_ok (storage ?c) (g_table c)"
      using table_ok_lengths [OF Cons.prems(1)] write_keeps_lengths [OF e(2) table_ok_array [OF Cons.prems(1) e(1)]]
      by blast
    moreover have "p \<noteq> q" using Cons.prems(2) e(1) q by auto
    ultimately show ?thesis using q(3) t by simp
  qed
  with Cons.IH [of ?c] Cons.prems(2) t show ?case by (simp add: coe_run_def)
qed

section \<open>The object list\<close>

definition od_list_req :: "bytes \<Rightarrow> u16 \<Rightarrow> bytes" where
  "od_list_req h ty = le16 10 @ h @ [0x00, push_bit 4 UL_ECAT_COE_SVC_SDO_INFO] @ [0x01, 0, 0, 0] @ le16 ty @ [0, 0]"

text \<open>
  The object list request is answered with the indices of the dictionary in order,
  adjacent repetitions removed, as many as fit the reply buffer; other list types are answered
  with an empty list.
\<close>

theorem od_list_reply:
  assumes "od_table_ok (storage c) (g_table c)" "coe_client h" "16 \<le> cap"
  shows "ul_ecat_slave_coe_process c (od_list_req h ty) cap =
    (let xs = (if ty = 1 then take ((cap - 14) div 2)
                 (tl (remdups_adj (0xFFFF # map e_index (od_array (g_table c))))) else []) in
     (le16 (8 + 2 * word_of_nat (length xs)) @ h @ [0x00, 0x80] @ [0x02, 0, 0, 0] @ le16 ty
        @ concat (map le16 xs), c))"
proof -
  obtain h0 h1 h2 h3 where h: "h = [h0, h1, h2, h3]" "h3 AND 0x0F = UL_ECAT_MBX_TYPE_COE"
    using assms(2) by (auto simp: coe_client_def numeral_eq_Suc length_Suc_conv)
  have d: "drop 8 (od_list_req h ty) = [0x01, 0, 0, 0] @ le16 ty @ [0, 0]"
    by (simp add: od_list_req_def h(1))
  have sv: "coe_service (drop 6 (od_list_req h ty)) = UL_ECAT_COE_SVC_SDO_INFO"
    by (simp add: coe_service_def od_list_req_def h(1))
  have t: "od_list_req h ty ! 5 AND 0x0F = UL_ECAT_MBX_TYPE_COE" "length (od_list_req h ty) = 16"
    "slice 2 4 (od_list_req h ty) = h"
    using h by (simp_all add: od_list_req_def le16_def slice_def)
  have ty: "of_le16 (drop 8 (od_list_req h ty) ! 4) (drop 8 (od_list_req h ty) ! 5) = ty"
    unfolding d by (simp add: le16_def of_le16_bytes)
  have op: "drop 8 (od_list_req h ty) ! 0 = 1" unfolding d by simp
  have "ul_ecat_slave_coe_process c (od_list_req h ty) cap
      = (handle_sdo_info c (od_list_req h ty) cap (drop 8 (od_list_req h ty)), c)"
    unfolding ul_ecat_slave_coe_process_def sv t Let_def by simp
  also have "handle_sdo_info c (od_list_req h ty) cap (drop 8 (od_list_req h ty)) =
    (let xs = (if ty = 1 then take ((cap - 14) div 2)
                 (tl (remdups_adj (0xFFFF # map e_index (od_array (g_table c))))) else []) in
     (le16 (8 + 2 * word_of_nat (length xs)) @ h @ [0x00, 0x80] @ [0x02, 0, 0, 0] @ le16 ty
        @ concat (map le16 xs)))"
    unfolding handle_sdo_info_def op ty t(3) first_count_array [OF assms(1)] Let_def
    using assms(3) by (simp add: add_indices_eq length_concat_le16 le16_def [symmetric]) (simp add: le16_def)
  finally show ?thesis by (simp add: Let_def)
qed

section \<open>Witnesses\<close>

definition idle_upload :: upload where
  "idle_upload = \<lparr>up_active = False, up_entry = None, up_offset = 0, toggle_expected = 0\<rparr>"

definition demo_coe :: coe where
  "demo_coe = \<lparr>g_table = Some ul_ecat_generated_od_table, storage = generated_store, g_upload = idle_upload\<rparr>"

definition demo_hdr :: bytes where
  "demo_hdr = [0x00, 0x00, 0x00, 0x13]"

definition demo_entry :: od_entry where
  "demo_entry = \<lparr>e_index = 0x2000, e_subindex = 1, e_type = 7, e_flags = 3, e_length = 4, e_storage = Some 0\<rparr>"

definition demo_rw :: coe where
  "demo_rw = \<lparr>g_table = Some \<lparr>entries = Some [demo_entry], entry_count = 1\<rparr>,
     storage = (\<lambda>h. if h = 0 then [1, 2, 3, 4] else []), g_upload = idle_upload\<rparr>"

lemma demo_hdr_client: "coe_client demo_hdr"
  by (simp add: coe_client_def demo_hdr_def)

lemma demo_coe_ok: "od_table_ok (storage demo_coe) (g_table demo_coe)"
  by (simp add: demo_coe_def generated_table_ok)

lemma demo_rw_ok: "od_table_ok (storage demo_rw) (g_table demo_rw)"
  by (simp add: demo_rw_def od_table_ok_def od_entry_ok_def demo_entry_def)

lemma demo_name_entry: "ul_ecat_od_lookup (g_table demo_coe) 0x1008 0 = Some (od_ro 0x1008 0 9 32 1)"
  by (simp add: demo_coe_def ul_ecat_od_lookup_def od_array_def ul_ecat_generated_od_table_def
      ul_ecat_generated_od_entries_def od_ro_def)

lemma demo_rw_entry: "ul_ecat_od_lookup (g_table demo_rw) 0x2000 1 = Some demo_entry"
  by (simp add: demo_rw_def ul_ecat_od_lookup_def od_array_def demo_entry_def)

theorem sdo_upload_delivers_witness:
  "\<exists>c'. fetch_object 5 128 demo_hdr demo_coe 0x1008 0 =
     Some ([0x75, 0x6C, 0x5F, 0x65, 0x63, 0x61, 0x74, 0x20, 0x73, 0x6C, 0x61, 0x76, 0x65] @ replicate 19 0, c')"
  using sdo_upload_delivers [OF demo_coe_ok demo_name_entry _ _ _ demo_hdr_client, of 128 5]
  by (auto simp: readable_def od_ro_def demo_coe_def generated_store_def)

theorem sdo_download_roundtrip_witness:
  "\<exists>c''. fetch_object 1 128 demo_hdr
     (snd (ul_ecat_slave_coe_process demo_rw (sdo_frame demo_hdr (download_req 0x2000 1 [9, 8, 7, 6])) 128)) 0x2000 1
     = Some ([9, 8, 7, 6], c'')"
proof -
  obtain r c' where rc: "ul_ecat_slave_coe_process demo_rw (sdo_frame demo_hdr (download_req 0x2000 1 [9, 8, 7, 6])) 128 = (r, c')"
    by (metis surj_pair)
  show ?thesis
    using sdo_download_roundtrip [OF demo_rw_ok demo_rw_entry _ _ _ _ _ _ demo_hdr_client rc]
    by (simp add: rc) (simp add: readable_def writable_def demo_entry_def)
qed


theorem sdo_toggle_error_witness:
  "\<exists>c'. ul_ecat_slave_coe_process (demo_rw\<lparr>g_upload := \<lparr>up_active = True, up_entry = Some demo_entry,
        up_offset = word_of_nat 0, toggle_expected = 0\<rparr>\<rparr>) (sdo_frame demo_hdr (upload_seg_req 0x10)) 128
     = (sdo_abort demo_hdr 0x2000 1 UL_ECAT_SDO_ABORT_TOGGLE_BIT, c')"
  using sdo_toggle_error [of "demo_rw\<lparr>g_upload := \<lparr>up_active = True, up_entry = Some demo_entry,
        up_offset = word_of_nat 0, toggle_expected = 0\<rparr>\<rparr>" demo_entry 0 0 "0x10" 128 demo_hdr] demo_hdr_client
  by (auto simp: uploading_def demo_entry_def)

theorem coe_reply_shape_witness:
  "length (sdo_abort demo_hdr 0x1008 0 UL_ECAT_SDO_ABORT_WRITE_RO) \<le> 128"
proof -
  have "ul_ecat_slave_coe_process demo_coe (sdo_frame demo_hdr (download_req 0x1008 0 [1])) 128
     = (sdo_abort demo_hdr 0x1008 0 UL_ECAT_SDO_ABORT_WRITE_RO, demo_coe)"
    by (subst coe_download_init [OF demo_hdr_client])
       (simp_all add: handle_download_init_def demo_name_entry od_ro_def abort_frame [OF demo_hdr_client] sdo_abort_def)
  from coe_reply_shape [OF this] show ?thesis by (simp add: sdo_abort_def sdo_reply_def)
qed

theorem read_only_objects_keep_value_witness:
  "storage (coe_run 128 demo_coe [sdo_frame demo_hdr (download_req 0x1008 0 [1]),
      sdo_frame demo_hdr (upload_init_req 0x1008 0)]) 1 = generated_store 1"
proof -
  have "\<forall>e \<in> set (od_array (g_table demo_coe)). writable e \<longrightarrow> e_storage e \<noteq> Some 1"
    by (simp add: demo_coe_def od_array_def ul_ecat_generated_od_table_def
        ul_ecat_generated_od_entries_def od_ro_def writable_def)
  from read_only_objects_keep_value [OF demo_coe_ok this] show ?thesis by (simp add: demo_coe_def)
qed

theorem od_list_reply_witness:
  "\<exists>r. ul_ecat_slave_coe_process demo_coe (od_list_req demo_hdr 1) 128 = (r, demo_coe) \<and>
     drop 14 r = concat (map le16 [0x1000, 0x1008, 0x1009, 0x100A, 0x1018])"
  using od_list_reply [OF demo_coe_ok demo_hdr_client, of 128 1]
  by (simp add: Let_def demo_coe_def od_array_def ul_ecat_generated_od_table_def
      ul_ecat_generated_od_entries_def od_ro_def demo_hdr_def le16_def)

end
