(* ===== verification/Controller.thy ===== *)
theory Controller
  imports SlaveProps CoeProps Lan9252Props
begin

text \<open>
  The slave controller: \<open>src/slave/ul_ecat_slave_controller.c\<close> and the LAN9252 backend
  \<open>src/slave/ul_ecat_slave_controller_lan9252.c\<close>. It owns the slave, delivers complete mailbox
  requests to a handler, and reports changes of AL Status and AL Event to the application.

  The record holds the slave by value and, beside the fields of the C structure, the file-scope
  state of the SDO server and the log of the callbacks made. A callback pointer is only tested
  and called, so it is a flag; the application's mailbox handler is a function that takes the
  frame and its own context and returns the frames it passes to
  \<open>ul_ecat_slave_controller_mailbox_reply\<close>, in order, and its new context.

  A process data read that fails part way may have filled part of the application's input buffer;
  the model then keeps the old contents, and no property says what the buffer holds after an error.
\<close>

section \<open>State\<close>

datatype backend = SOFTWARE_ETHERNET | LAN9252_SPI

datatype callback = AlStatus u16 | EscEvent u32

datatype 'u mbx_handler = DefaultCoe | UserHandler "bytes \<Rightarrow> 'u \<Rightarrow> bytes list \<times> 'u"

record pdram_cfg =
  in_offset :: u16
  in_len :: u16
  in_buf :: "bytes option"
  out_offset :: u16
  out_len :: u16
  out_buf :: "bytes option"

definition pdram_none :: pdram_cfg where
  "pdram_none = \<lparr>in_offset = 0, in_len = 0, in_buf = None, out_offset = 0, out_len = 0, out_buf = None\<rparr>"

record 'u controller =
  c_slave :: slave
  c_backend :: backend
  last_al_status :: u16
  last_al_event :: u32
  on_al_status :: bool
  on_esc_event :: bool
  on_mailbox_rx :: "'u mbx_handler option"
  mailbox_ctx :: 'u
  pdram :: pdram_cfg
  c_coe :: coe
  calls :: "callback list"

section \<open>Operations\<close>

definition al_event_word :: "mem \<Rightarrow> u32 \<Rightarrow> u32" where
  "al_event_word e dflt =
     (case ul_ecat_esc_read e 0x0220 4 of
        Some b \<Rightarrow> of_le32 (b ! 0) (b ! 1) (b ! 2) (b ! 3)
      | None \<Rightarrow> dflt)"

text \<open>The tail that both polling routines share: the callbacks, then the remembered values.\<close>

definition report_changes :: "'u controller \<Rightarrow> u16 \<Rightarrow> u32 \<Rightarrow> 'u controller" where
  "report_changes c st ev =
     (let al = (if on_al_status c \<and> st \<noteq> last_al_status c then [AlStatus st] else []);
          ee = (if on_esc_event c \<and> ev \<noteq> last_al_event c then [EscEvent ev] else []) in
      c\<lparr>calls := calls c @ al @ ee, last_al_status := st, last_al_event := ev\<rparr>)"

definition poll_software :: "'u controller \<Rightarrow> (errno + unit) \<times> 'u controller" where
  "poll_software c =
     (let e = esc (c_slave c);
          st = ul_ecat_esc_read_u16_le e 0x0130;
          ev = al_event_word e 0 in
      (Inr (), report_changes c st ev))"

definition ul_ecat_slave_controller_init ::
  "coe \<Rightarrow> 'u \<Rightarrow> backend \<Rightarrow> bytes \<Rightarrow> slave_identity \<Rightarrow> 'u controller" where
  "ul_ecat_slave_controller_init coe0 u backend m ident =
     (let s = ul_ecat_slave_init m ident in
      \<lparr>c_slave = s, c_backend = backend,
       last_al_status = ul_ecat_esc_read_u16_le (esc s) 0x0130,
       last_al_event = al_event_word (esc s) 0,
       on_al_status = False, on_esc_event = False, on_mailbox_rx = Some DefaultCoe, mailbox_ctx = u,
       pdram = pdram_none, c_coe = ul_ecat_od_set_table coe0 (Some ul_ecat_generated_od_table),
       calls = []\<rparr>)"

definition ul_ecat_slave_controller_set_callbacks ::
  "'u controller \<Rightarrow> bool \<Rightarrow> bool \<Rightarrow> 'u controller" where
  "ul_ecat_slave_controller_set_callbacks c al ee = c\<lparr>on_al_status := al, on_esc_event := ee\<rparr>"

definition ul_ecat_slave_controller_set_mailbox_handler ::
  "'u controller \<Rightarrow> (bytes \<Rightarrow> 'u \<Rightarrow> bytes list \<times> 'u) option \<Rightarrow> 'u \<Rightarrow> 'u controller" where
  "ul_ecat_slave_controller_set_mailbox_handler c cb user_ctx =
     (case cb of
        None \<Rightarrow> c\<lparr>on_mailbox_rx := Some DefaultCoe\<rparr>
      | Some f \<Rightarrow> c\<lparr>on_mailbox_rx := Some (UserHandler f), mailbox_ctx := user_ctx\<rparr>)"

definition ul_ecat_slave_controller_set_pdram :: "'u controller \<Rightarrow> pdram_cfg option \<Rightarrow> 'u controller" where
  "ul_ecat_slave_controller_set_pdram c cfg =
     (case cfg of None \<Rightarrow> c\<lparr>pdram := pdram_none\<rparr> | Some p \<Rightarrow> c\<lparr>pdram := p\<rparr>)"

definition ul_ecat_slave_controller_mailbox_reply :: "'u controller \<Rightarrow> bytes \<Rightarrow> bool \<times> 'u controller" where
  "ul_ecat_slave_controller_mailbox_reply c frame =
     (let (ok, s) = ul_ecat_slave_mailbox_write_sm1 (c_slave c) frame in (ok, c\<lparr>c_slave := s\<rparr>))"

definition default_coe_mailbox_handler :: "'u controller \<Rightarrow> bytes \<Rightarrow> 'u controller" where
  "default_coe_mailbox_handler c frame =
     (let (reply, coe') = ul_ecat_slave_coe_process (c_coe c) frame 256; c1 = c\<lparr>c_coe := coe'\<rparr> in
      if length reply > 0 then snd (ul_ecat_slave_controller_mailbox_reply c1 reply) else c1)"

definition run_handler :: "'u controller \<Rightarrow> 'u mbx_handler \<Rightarrow> bytes \<Rightarrow> 'u controller" where
  "run_handler c handler frame =
     (case handler of
        DefaultCoe \<Rightarrow> default_coe_mailbox_handler c frame
      | UserHandler f \<Rightarrow>
          let (replies, u) = f frame (mailbox_ctx c) in
          foldl (\<lambda>c r. snd (ul_ecat_slave_controller_mailbox_reply c r)) (c\<lparr>mailbox_ctx := u\<rparr>) replies)"

definition dispatch_mailbox_if_ready :: "'u controller \<Rightarrow> 'u controller" where
  "dispatch_mailbox_if_ready c =
     (case on_mailbox_rx c of
        None \<Rightarrow> c
      | Some handler \<Rightarrow>
          let e = esc (c_slave c); sm0 = ul_ecat_sm_read e 0 in
          if \<not> ul_ecat_sm_is_active sm0 \<or> \<not> ul_ecat_sm_is_mailbox sm0 \<or> sm_length sm0 = 0 then c
          else if e (ul_ecat_sm_base 0 + UL_ECAT_SM_OFS_STATUS) AND UL_ECAT_SM_STAT_MBX_FULL = 0 then c
          else if unat (start_addr sm0) + unat (sm_length sm0) > UL_ECAT_SLAVE_ESC_SIZE then c
          else
            let c1 = run_handler c handler (mem_read e (unat (start_addr sm0)) (unat (sm_length sm0)));
                s1 = c_slave c1 in
            c1\<lparr>c_slave := s1\<lparr>esc := sm_clear_status_bit (esc s1) 0 UL_ECAT_SM_STAT_MBX_FULL\<rparr>\<rparr>)"

definition ul_ecat_slave_controller_process_ethernet ::
  "'u controller \<Rightarrow> bytes \<Rightarrow> nat \<Rightarrow> (errno + bytes) \<times> 'u controller" where
  "ul_ecat_slave_controller_process_ethernet c rx tx_cap =
     (if c_backend c \<noteq> SOFTWARE_ETHERNET then (Inl ENOTSUP, c)
      else
        case ul_ecat_slave_process_ethernet (c_slave c) rx tx_cap of
          (None, s) \<Rightarrow> (Inl EPERM, c\<lparr>c_slave := s\<rparr>)
        | (Some tx, s) \<Rightarrow> (Inr tx, dispatch_mailbox_if_ready (c\<lparr>c_slave := s\<rparr>)))"

section \<open>The LAN9252 backend\<close>

text \<open>
  One of the three register copies of the poll; the controller keeps what was written before a
  failure.
\<close>

definition sync_register ::
  "'h spi_hal \<Rightarrow> u16 \<Rightarrow> u16 \<Rightarrow> 'u controller \<times> 'h \<Rightarrow> (errno + unit) \<times> 'u controller \<times> 'h" where
  "sync_register hal ado n = (\<lambda>(c, h).
     case lan9252_esc_read hal ado n h of
       (Inl e, h') \<Rightarrow> (Inl e, c, h')
     | (Inr tmp, h') \<Rightarrow>
         (case ul_ecat_esc_write (esc (c_slave c)) ado tmp of
            None \<Rightarrow> (Inl EIO, c, h')
          | Some m \<Rightarrow> (Inr (), c\<lparr>c_slave := (c_slave c)\<lparr>esc := m\<rparr>\<rparr>, h')))"

definition and_then :: "(errno + unit) \<times> 's \<Rightarrow> ('s \<Rightarrow> (errno + unit) \<times> 's) \<Rightarrow> (errno + unit) \<times> 's" where
  "and_then r k = (case r of (Inl e, s) \<Rightarrow> (Inl e, s) | (Inr _, s) \<Rightarrow> k s)"

definition sync_pdram_in ::
  "'h spi_hal \<Rightarrow> 'u controller \<times> 'h \<Rightarrow> (errno + unit) \<times> 'u controller \<times> 'h" where
  "sync_pdram_in hal = (\<lambda>(c, h).
     if in_len (pdram c) > 0 \<and> in_buf (pdram c) \<noteq> None then
       (case lan9252_pdram_read hal (in_offset (pdram c)) (in_len (pdram c)) h of
          (Inl e, h') \<Rightarrow> (Inl e, c, h')
        | (Inr bs, h') \<Rightarrow> (Inr (), c\<lparr>pdram := (pdram c)\<lparr>in_buf := Some bs\<rparr>\<rparr>, h'))
     else (Inr (), c, h))"

definition sync_pdram_out ::
  "'h spi_hal \<Rightarrow> 'u controller \<times> 'h \<Rightarrow> (errno + unit) \<times> 'u controller \<times> 'h" where
  "sync_pdram_out hal = (\<lambda>(c, h).
     case (if out_len (pdram c) > 0 then out_buf (pdram c) else None) of
       None \<Rightarrow> (Inr (), c, h)
     | Some bs \<Rightarrow>
         (case lan9252_pdram_write hal (out_offset (pdram c)) bs (out_len (pdram c)) h of
            (Inl e, h') \<Rightarrow> (Inl e, c, h')
          | (Inr _, h') \<Rightarrow> (Inr (), c, h')))"

definition ul_ecat_slave_controller_poll_lan9252 ::
  "'h spi_hal \<Rightarrow> 'u controller \<times> 'h \<Rightarrow> (errno + unit) \<times> 'u controller \<times> 'h" where
  "ul_ecat_slave_controller_poll_lan9252 hal ch =
     and_then (sync_register hal 0x0010 2 ch) (\<lambda>ch.
     and_then (sync_register hal 0x0130 2 ch) (\<lambda>ch.
     and_then (sync_register hal 0x0220 4 ch) (\<lambda>ch.
     and_then (sync_pdram_in hal ch) (\<lambda>ch.
     and_then (sync_pdram_out hal ch) (\<lambda>(c, h).
       let e = esc (c_slave c);
           st = ul_ecat_esc_read_u16_le e 0x0130;
           ev = al_event_word e 0 in
       (Inr (), report_changes c st ev, h))))))"

definition ul_ecat_slave_controller_poll ::
  "'h spi_hal \<Rightarrow> 'u controller \<times> 'h \<Rightarrow> (errno + unit) \<times> 'u controller \<times> 'h" where
  "ul_ecat_slave_controller_poll hal ch =
     (case ch of (c, h) \<Rightarrow>
        if c_backend c = SOFTWARE_ETHERNET
        then (let (r, c') = poll_software c in (r, c', h))
        else ul_ecat_slave_controller_poll_lan9252 hal (c, h))"

end
