(* ===== verification/ControllerProps.thy ===== *)
theory ControllerProps
  imports Controller
begin

text \<open>
  What the controller does with a mailbox request, from the datagram that writes it to the one that
  reads the reply; callbacks exactly at changes; and the LAN9252 poll as a copy of the polled chip
  registers into the mirror.
\<close>

section \<open>A mailbox exchange\<close>

definition mailbox_configured :: "slave \<Rightarrow> bool" where
  "mailbox_configured s \<longleftrightarrow>
     (\<forall>i \<in> {0, 1}. sm_slot_ready i s \<and> 0x820 \<le> unat (start_addr (ul_ecat_sm_read (esc s) i)) \<and>
        sm_capacity i s \<le> DG_DATA_MAX)"

definition padded :: "nat \<Rightarrow> bytes \<Rightarrow> bytes" where
  "padded n bs = bs @ replicate (n - length bs) 0"

definition mailbox_write :: "slave \<Rightarrow> bytes \<Rightarrow> dgram" where
  "mailbox_write s req =
     (let sm0 = ul_ecat_sm_read (esc s) 0 in
      \<lparr>d_cmd = UL_ECAT_CMD_FPWR, d_index = 0, d_adp = station_of s, d_ado = start_addr sm0,
       d_len = sm_length sm0, d_irq = 0, d_wkc = 0, d_data = padded (unat (sm_length sm0)) req\<rparr>)"

definition mailbox_fetch :: "slave \<Rightarrow> dgram" where
  "mailbox_fetch s =
     (let sm1 = ul_ecat_sm_read (esc s) 1 in
      \<lparr>d_cmd = UL_ECAT_CMD_FPRD, d_index = 0, d_adp = station_of s, d_ado = start_addr sm1,
       d_len = sm_length sm1, d_irq = 0, d_wkc = 0, d_data = replicate (unat (sm_length sm1)) 0\<rparr>)"

lemma padded_length [simp]: "length bs \<le> n \<Longrightarrow> length (padded n bs) = n"
  by (simp add: padded_def)

lemma configured_slot:
  assumes "mailbox_configured s" "i \<in> {0, 1}"
  defines "sm \<equiv> ul_ecat_sm_read (esc s) i"
  shows "sm_slot_ready i s" "0x820 \<le> unat (start_addr sm)" "unat (sm_length sm) \<le> 256"
    "sm_length sm \<noteq> 0" "mailbox_sm sm" "unat (start_addr sm) + unat (sm_length sm) \<le> 4096"
  using assms by (auto simp: mailbox_configured_def sm_slot_ready_def sm_capacity_def Let_def mailbox_sm_def)

lemmas configured_slot0 = configured_slot [OF _ insertI1]
lemmas configured_slot1 = configured_slot [OF _ insertI2 [OF insertI1]]

text \<open>Changes away from the SyncManager and station registers keep the configuration.\<close>

lemma configured_cong:
  assumes "\<forall>j \<in> {0x800 ..< 0x810} - {0x805, 0x80D}. esc s' j = esc s j"
  shows "mailbox_configured s' = mailbox_configured s"
    and "i \<in> {0, 1} \<Longrightarrow> start_addr (ul_ecat_sm_read (esc s') i) = start_addr (ul_ecat_sm_read (esc s) i)"
    and "i \<in> {0, 1} \<Longrightarrow> sm_length (ul_ecat_sm_read (esc s') i) = sm_length (ul_ecat_sm_read (esc s) i)"
    and "i \<in> {0, 1} \<Longrightarrow> mailbox_sm (ul_ecat_sm_read (esc s') i) = mailbox_sm (ul_ecat_sm_read (esc s) i)"
proof -
  have r: "ul_ecat_sm_read (esc s') i = (ul_ecat_sm_read (esc s) i)\<lparr>sm_status := sm_status (ul_ecat_sm_read (esc s') i)\<rparr>"
    if "i \<in> {0, 1}" for i
    using that assms by (auto simp: ul_ecat_sm_read_def Let_def)
  show 1: "start_addr (ul_ecat_sm_read (esc s') i) = start_addr (ul_ecat_sm_read (esc s) i)"
    "sm_length (ul_ecat_sm_read (esc s') i) = sm_length (ul_ecat_sm_read (esc s) i)"
    "mailbox_sm (ul_ecat_sm_read (esc s') i) = mailbox_sm (ul_ecat_sm_read (esc s) i)" if "i \<in> {0, 1}" for i
    by (subst r [OF that], simp)+
  show "mailbox_configured s' = mailbox_configured s"
    using 1 by (simp add: mailbox_configured_def sm_slot_ready_def sm_capacity_def sm_buffer_clear_def Let_def)
qed

lemma serve_mailbox_write:
  assumes "mailbox_configured s" "station_of s \<noteq> 0" "length req \<le> sm_capacity 0 s"
  shows "valid_dgram (mailbox_write s req)"
    and "serve1 s (mailbox_write s req) = ((mailbox_write s req)\<lparr>d_wkc := 1\<rparr>,
      s\<lparr>esc := sm_set_status_bit (mem_write (esc s) (unat (start_addr (ul_ecat_sm_read (esc s) 0)))
         (padded (sm_capacity 0 s) req)) 0 UL_ECAT_SM_STAT_MBX_FULL\<rparr>)"
proof -
  let ?w = "mailbox_write s req"
  let ?sm = "ul_ecat_sm_read (esc s) 0"
  note sl = configured_slot0 [OF assms(1)]
  show valid: "valid_dgram ?w"
    using sl(3) assms(3) by (simp add: mailbox_write_def valid_dgram_def Let_def sm_capacity_def)
  define s1 where "s1 = s\<lparr>esc := mem_write (esc s) (unat (start_addr ?sm)) (padded (sm_capacity 0 s) req)\<rparr>"
  have w: "is_write ?w" "addressed s ?w" "in_mirror ?w" "\<not> covers ?w 0x120"
    using assms(2) sl by (simp_all add: mailbox_write_def Let_def is_write_def addressed_def in_mirror_def
        covers_def station_of_def)
  have sm1: "ul_ecat_sm_read (esc s1) 0 = ?sm"
    using sm_buffer_write(1) [of 0 s "padded (sm_capacity 0 s) req"] sl(1) assms(3) by (simp add: s1_def)
  have "serve1 s ?w = (?w\<lparr>d_wkc := 1\<rparr>, snd (ul_ecat_slave_mailbox_on_sm0_write s1 (start_addr ?sm) (sm_length ?sm)))"
    using serve1_write [OF w(1-3) valid] w(4)
    by (simp add: s1_def) (simp add: mailbox_write_def Let_def sm_capacity_def)
  then show "serve1 s ?w = (?w\<lparr>d_wkc := 1\<rparr>,
      s\<lparr>esc := sm_set_status_bit (mem_write (esc s) (unat (start_addr ?sm))
         (padded (sm_capacity 0 s) req)) 0 UL_ECAT_SM_STAT_MBX_FULL\<rparr>)"
    using sl by (simp add: on_sm0_write_eq Let_def sm1) (simp add: s1_def)
qed

lemma serve_mailbox_fetch:
  assumes "mailbox_configured s" "station_of s \<noteq> 0"
  shows "valid_dgram (mailbox_fetch s)"
    and "serve1 s (mailbox_fetch s) = ((mailbox_fetch s)\<lparr>d_wkc := 1, d_data := sm_buffer (esc s) 1\<rparr>,
      s\<lparr>esc := sm_clear_status_bit (esc s) 1 UL_ECAT_SM_STAT_MBX_FULL\<rparr>)"
proof -
  let ?r = "mailbox_fetch s"
  note sl = configured_slot1 [OF assms(1)]
  show "valid_dgram ?r"
    using sl(3) by (simp add: mailbox_fetch_def valid_dgram_def Let_def)
  have r: "d_cmd ?r = UL_ECAT_CMD_FPRD" "addressed s ?r" "in_mirror ?r"
    using assms(2) sl by (simp_all add: mailbox_fetch_def Let_def addressed_def in_mirror_def station_of_def)
  show "serve1 s ?r = (?r\<lparr>d_wkc := 1, d_data := sm_buffer (esc s) 1\<rparr>,
      s\<lparr>esc := sm_clear_status_bit (esc s) 1 UL_ECAT_SM_STAT_MBX_FULL\<rparr>)"
    using serve1_read [OF r] sl
    by (simp add: mailbox_fetch_def Let_def on_sm1_read_eq sm_buffer_def)
qed

section \<open>Dispatching a request\<close>

lemma dispatch_coe:
  assumes "mailbox_configured s" "on_mailbox_rx c = Some DefaultCoe" "c_slave c = s"
    "mbx_full (esc s) 0" "ul_ecat_slave_coe_process (c_coe c) (sm_buffer (esc s) 0) 256 = (reply, coe')"
    "reply \<noteq> []" "length reply \<le> sm_capacity 1 s"
  obtains s' where "dispatch_mailbox_if_ready c = c\<lparr>c_slave := s', c_coe := coe'\<rparr>"
    "mailbox_configured s'" "sm_buffer (esc s') 1 = padded (sm_capacity 1 s) reply"
    "\<not> mbx_full (esc s') 0" "mbx_full (esc s') 1" "mac s' = mac s"
    "\<forall>j < 0x820. j \<noteq> 0x805 \<and> j \<noteq> 0x80D \<longrightarrow> esc s' j = esc s j"
proof -
  let ?a1 = "unat (start_addr (ul_ecat_sm_read (esc s) 1))"
  define m where "m = mem_write (esc s) ?a1 (padded (sm_capacity 1 s) reply)"
  define s1 where "s1 = s\<lparr>esc := sm_set_status_bit m 1 UL_ECAT_SM_STAT_MBX_FULL\<rparr>"
  define s' where "s' = s1\<lparr>esc := sm_clear_status_bit (esc s1) 0 UL_ECAT_SM_STAT_MBX_FULL\<rparr>"
  note sl0 = configured_slot0 [OF assms(1)]
  note sl1 = configured_slot1 [OF assms(1)]
  have put: "ul_ecat_slave_mailbox_write_sm1 s reply = (True, s1)"
    using write_sm1_ready [of s reply] sl1(1) assms(6,7) by (simp add: s1_def m_def padded_def)
  have act: "ul_ecat_sm_is_active (ul_ecat_sm_read (esc s) 0)" "ul_ecat_sm_is_mailbox (ul_ecat_sm_read (esc s) 0)"
    using sl0(5) by (simp_all add: mailbox_sm_def)
  have "run_handler c DefaultCoe (sm_buffer (esc s) 0) = c\<lparr>c_coe := coe', c_slave := s1\<rparr>"
    using assms(3,5,6) put
    by (simp add: run_handler_def default_coe_mailbox_handler_def ul_ecat_slave_controller_mailbox_reply_def)
  then have "dispatch_mailbox_if_ready c = c\<lparr>c_slave := s', c_coe := coe'\<rparr>"
    using assms(2,3,4) act sl0(4,6)
    by (simp add: dispatch_mailbox_if_ready_def sm_buffer_def mbx_full_def Let_def s'_def)
  moreover have frame: "esc s' j = esc s j" if "j < 0x820" "j \<noteq> 0x805" "j \<noteq> 0x80D" for j
    using that sl1(2) by (simp add: s'_def s1_def m_def status_bit_frame mem_write_outside)
  moreover have "mailbox_configured s'" using configured_cong(1) [of s' s] frame assms(1) by auto
  moreover have "sm_buffer (esc s') 1 = padded (sm_capacity 1 s) reply"
  proof -
    have "sm_buffer (esc s1) 1 = padded (sm_capacity 1 s) reply"
      using sm1.put_content [OF sl1(1) put] by (simp add: padded_def)
    moreover have "ul_ecat_sm_read (esc s') 1 = ul_ecat_sm_read (esc s1) 1"
      by (rule sm_read_cong) (simp add: s'_def status_bit_frame)
    moreover have "start_addr (ul_ecat_sm_read (esc s1) 1) = start_addr (ul_ecat_sm_read (esc s) 1)"
      using configured_cong(2) [of s1 s 1] sl1(2) by (simp add: s1_def m_def status_bit_frame mem_write_outside)
    ultimately show ?thesis
      using sl1(2) unfolding sm_buffer_def Let_def
      by (subst mem_read_cong [of _ _ _ "esc s1"]) (simp_all add: s'_def status_bit_frame)
  qed
  moreover have "\<not> mbx_full (esc s') 0" by (simp add: s'_def)
  moreover have "mbx_full (esc s') 1"
    using sm1.put_content [OF sl1(1) put] by (simp add: mbx_full_def s'_def status_bit_frame)
  moreover have "mac s' = mac s" by (simp add: s'_def s1_def)
  ultimately show thesis using that [of s'] frame by simp
qed

lemma dispatch_idle: "\<not> mbx_full (esc (c_slave c)) 0 \<Longrightarrow> dispatch_mailbox_if_ready c = c"
  by (simp add: dispatch_mailbox_if_ready_def mbx_full_def Let_def split: option.split)

section \<open>A request and its reply over Ethernet\<close>

lemma controller_one_dgram:
  assumes "c_backend c = SOFTWARE_ETHERNET" "length dst = 6" "length src = 6" "length (mac (c_slave c)) = 6"
    and "valid_dgram d" "unat (d_len d) \<le> DG_DATA_MAX" "serve1 (c_slave c) d = (r, s')"
    and "ul_ecat_build_eth_frame dst src (dgram_bytes d) n = Some f" "length f \<le> tx_cap"
  shows "\<exists>g. ul_ecat_slave_controller_process_ethernet c f tx_cap
      = (Inr g, dispatch_mailbox_if_ready (c\<lparr>c_slave := s'\<rparr>)) \<and>
      ul_ecat_parse_eth_frame g = Some (dgram_bytes r) \<and> length g = length f"
proof -
  have l: "length (dgram_bytes d) \<le> 1498" "length f = 18 + length (dgram_bytes d)"
    using assms(8) build_parse_frame(4) [OF assms(8,2,3)]
    by (simp_all add: ul_ecat_build_eth_frame_def Let_def split: if_splits)
  note sh = serve1_shape [OF assms(7,5)]
  have "ul_ecat_slave_process_pdu (c_slave c) (dgram_bytes d) UL_ECAT_MAX_EC_PAYLOAD = (Some (dgram_bytes r), s')"
    using process_pdu_encoded [of "[d]" UL_ECAT_MAX_EC_PAYLOAD "c_slave c" "[r]" s'] assms(5-7) l by simp
  then have run: "ul_ecat_slave_process_ethernet (c_slave c) f tx_cap
      = (ul_ecat_build_eth_frame src (mac s') (dgram_bytes r) tx_cap, s')"
    using process_ethernet_eq [OF assms(8,2,3), of "c_slave c" "[]" tx_cap] by simp
  obtain g where g: "ul_ecat_build_eth_frame src (mac s') (dgram_bytes r) tx_cap = Some g"
    using sh(9) l assms(9) by (auto simp: ul_ecat_build_eth_frame_def Let_def)
  have m: "length (mac s') = 6" using sh(10) assms(4) by simp
  show ?thesis
    using run g assms(1) build_parse_frame(1) [OF g assms(3) m, of "[]"] build_parse_frame(4) [OF g assms(3) m] sh(9) l
    by (simp add: ul_ecat_slave_controller_process_ethernet_def)
qed

text \<open>The slave and the server across a request written into SM0 and its reply read from SM1.\<close>

lemma sdo_steps:
  assumes "on_mailbox_rx c = Some DefaultCoe" "c_slave c = s"
    and "mailbox_configured s" "station_of s \<noteq> 0" "16 \<le> length req" "length req \<le> sm_capacity 0 s"
    and "ul_ecat_slave_coe_process (c_coe c) req 256 = (reply, coe')" "reply \<noteq> []" "length reply \<le> sm_capacity 1 s"
  obtains s1 s2 s3 where
    "serve1 s (mailbox_write s req) = ((mailbox_write s req)\<lparr>d_wkc := 1\<rparr>, s1)"
    "dispatch_mailbox_if_ready (c\<lparr>c_slave := s1\<rparr>) = c\<lparr>c_slave := s2, c_coe := coe'\<rparr>"
    "serve1 s2 (mailbox_fetch s) = ((mailbox_fetch s)\<lparr>d_wkc := 1, d_data := padded (sm_capacity 1 s) reply\<rparr>, s3)"
    "dispatch_mailbox_if_ready (c\<lparr>c_slave := s3, c_coe := coe'\<rparr>) = c\<lparr>c_slave := s3, c_coe := coe'\<rparr>"
    "mac s2 = mac s" "\<not> mbx_full (esc s3) 0" "\<not> mbx_full (esc s3) 1" "mac s3 = mac s"
    "\<forall>j < 0x820. j \<noteq> 0x805 \<and> j \<noteq> 0x80D \<longrightarrow> esc s3 j = esc s j"
proof -
  note sl0 = configured_slot0 [OF assms(3)]
  note sl1 = configured_slot1 [OF assms(3)]
  define s1 where "s1 = s\<lparr>esc := sm_set_status_bit (mem_write (esc s)
     (unat (start_addr (ul_ecat_sm_read (esc s) 0))) (padded (sm_capacity 0 s) req)) 0 UL_ECAT_SM_STAT_MBX_FULL\<rparr>"
  note w = serve_mailbox_write [OF assms(3,4,6), folded s1_def]
  have frame1: "esc s1 j = esc s j" if "j < 0x820" "j \<noteq> 0x805" for j
    using that sl0(2) by (simp add: s1_def status_bit_frame mem_write_outside)
  have conf1: "mailbox_configured s1" using configured_cong(1) [of s1 s] frame1 assms(3) by auto
  have cap1: "sm_capacity 1 s1 = sm_capacity 1 s"
    using configured_cong(3) [of s1 s 1] frame1 by (auto simp: sm_capacity_def)
  have buf0: "sm_buffer (esc s1) 0 = padded (sm_capacity 0 s) req"
  proof -
    have pl: "length (padded (sm_capacity 0 s) req) = sm_capacity 0 s" using assms(6) by simp
    have "sm_buffer_clear (mem_write (esc s) (unat (start_addr (ul_ecat_sm_read (esc s) 0)))
        (padded (sm_capacity 0 s) req)) 0"
      using sm_slot_ready_clear [OF sm_slot_ready_write(1) [OF _ sl0(1) pl]] by simp
    from sm_flag_keeps(5) [OF _ this] sm_buffer_write(2) [OF _ sl0(1) pl] show ?thesis
      by (simp add: s1_def)
  qed
  have coe: "ul_ecat_slave_coe_process (c_coe (c\<lparr>c_slave := s1\<rparr>)) (sm_buffer (esc s1) 0) 256 = (reply, coe')"
    using coe_process_pad [OF assms(5)] assms(7) by (simp add: buf0 padded_def)
  have full: "mbx_full (esc s1) 0" by (simp add: s1_def)
  obtain s2 where s2: "dispatch_mailbox_if_ready (c\<lparr>c_slave := s1\<rparr>) = c\<lparr>c_slave := s2, c_coe := coe'\<rparr>"
    "mailbox_configured s2" "sm_buffer (esc s2) 1 = padded (sm_capacity 1 s1) reply"
    "\<not> mbx_full (esc s2) 0" "mac s2 = mac s1"
    "\<forall>j < 0x820. j \<noteq> 0x805 \<and> j \<noteq> 0x80D \<longrightarrow> esc s2 j = esc s1 j"
    using dispatch_coe [OF conf1 _ _ full coe assms(8)] assms(1,9) cap1 by auto
  have frame2: "esc s2 j = esc s j" if "j < 0x820" "j \<noteq> 0x805" "j \<noteq> 0x80D" for j
    using frame1 s2(6) that by simp
  have keep: "start_addr (ul_ecat_sm_read (esc s2) 1) = start_addr (ul_ecat_sm_read (esc s) 1)"
    "sm_length (ul_ecat_sm_read (esc s2) 1) = sm_length (ul_ecat_sm_read (esc s) 1)" "station_of s2 = station_of s"
    using configured_cong(2,3) [of s2 s 1] frame2 by (auto simp: station_of_def read_u16_reg)
  then have fetch: "mailbox_fetch s2 = mailbox_fetch s" by (simp add: mailbox_fetch_def Let_def)
  note r = serve_mailbox_fetch [OF s2(2), unfolded keep(3) fetch, OF assms(4)]
  let ?s3 = "s2\<lparr>esc := sm_clear_status_bit (esc s2) 1 UL_ECAT_SM_STAT_MBX_FULL\<rparr>"
  have idle: "\<not> mbx_full (esc ?s3) 0" using s2(4) by (simp add: mbx_full_def status_bit_frame)
  show thesis
  proof (rule that [OF w(2) s2(1)])
    show "serve1 s2 (mailbox_fetch s) = ((mailbox_fetch s)\<lparr>d_wkc := 1, d_data := padded (sm_capacity 1 s) reply\<rparr>, ?s3)"
      using r(2) s2(3) cap1 by simp
    show "dispatch_mailbox_if_ready (c\<lparr>c_slave := ?s3, c_coe := coe'\<rparr>) = c\<lparr>c_slave := ?s3, c_coe := coe'\<rparr>"
      using idle by (intro dispatch_idle) simp
    show "mac s2 = mac s" using s2(5) by (simp add: s1_def)
    show "\<not> mbx_full (esc ?s3) 0" "\<not> mbx_full (esc ?s3) 1" using idle by simp_all
    show "mac ?s3 = mac s" using s2(5) by (simp add: s1_def)
    show "\<forall>j < 0x820. j \<noteq> 0x805 \<and> j \<noteq> 0x80D \<longrightarrow> esc ?s3 j = esc s j"
      using frame2 by (simp add: status_bit_frame)
  qed
qed

section \<open>Reporting changes\<close>

definition al_word_of :: "slave \<Rightarrow> u16" where
  "al_word_of s = ul_ecat_esc_read_u16_le (esc s) 0x0130"

definition poll_each :: "'u controller \<Rightarrow> slave list \<Rightarrow> 'u controller" where
  "poll_each = foldl (\<lambda>c s. snd (poll_software (c\<lparr>c_slave := s\<rparr>)))"

fun al_calls :: "callback list \<Rightarrow> u16 list" where
  "al_calls [] = []"
| "al_calls (AlStatus w # cs) = w # al_calls cs"
| "al_calls (EscEvent _ # cs) = al_calls cs"

fun esc_calls :: "callback list \<Rightarrow> u32 list" where
  "esc_calls [] = []"
| "esc_calls (AlStatus _ # cs) = esc_calls cs"
| "esc_calls (EscEvent w # cs) = w # esc_calls cs"

lemma al_calls_append: "al_calls (xs @ ys) = al_calls xs @ al_calls ys"
  by (induction xs rule: al_calls.induct) simp_all

lemma esc_calls_append: "esc_calls (xs @ ys) = esc_calls xs @ esc_calls ys"
  by (induction xs rule: esc_calls.induct) simp_all

lemma changes_Cons:
  "tl (remdups_adj (x # y # ys)) = (if y = x then [] else [y]) @ tl (remdups_adj (y # ys))"
  using remdups_adj_Cons_alt [of y ys] by auto

text \<open>
  Over any history of polls the AL Status callbacks are exactly the changes of the AL
  Status word, each new value once and in order, and likewise the AL Event callbacks: nothing is
  reported twice and no change seen by a poll is lost.
\<close>

theorem poll_reports_changes:
  assumes "on_al_status c" "on_esc_event c"
  shows "al_calls (calls (poll_each c ss)) = al_calls (calls c) @
      tl (remdups_adj (last_al_status c # map al_word_of ss)) \<and>
    esc_calls (calls (poll_each c ss)) = esc_calls (calls c) @
      tl (remdups_adj (last_al_event c # map (\<lambda>s. al_event_word (esc s) 0) ss))"
  using assms
proof (induction ss arbitrary: c)
  case Nil
  then show ?case by (simp add: poll_each_def)
next
  case (Cons s ss)
  let ?c = "snd (poll_software (c\<lparr>c_slave := s\<rparr>))"
  have c: "on_al_status ?c" "on_esc_event ?c" "last_al_status ?c = al_word_of s"
    "last_al_event ?c = al_event_word (esc s) 0"
    "al_calls (calls ?c) = al_calls (calls c) @ (if al_word_of s = last_al_status c then [] else [al_word_of s])"
    "esc_calls (calls ?c) = esc_calls (calls c) @
       (if al_event_word (esc s) 0 = last_al_event c then [] else [al_event_word (esc s) 0])"
    using Cons.prems
    by (simp_all add: poll_software_def report_changes_def Let_def al_word_of_def al_calls_append esc_calls_append)
  from Cons.IH [OF c(1,2)] show ?case
    using c(3-6) by (simp add: poll_each_def changes_Cons del: remdups_adj.simps)
qed

section \<open>Polling the chip\<close>

lemma sync_register_run:
  assumes "csr_access hal mem_of good" "good h" "unat ado + unat n \<le> 4096" "n \<noteq> 0" "unat ado < 4096"
  shows "\<exists>h'. sync_register hal ado n (c, h) = (Inr (), c\<lparr>c_slave := (c_slave c)
      \<lparr>esc := mem_write (esc (c_slave c)) (unat ado) (mem_read (mem_of h) (unat ado) (unat n))\<rparr>\<rparr>, h')
    \<and> mem_of h' = mem_of h \<and> good h'"
proof -
  have b: "unat ado + unat n \<le> 65535" using assms(3) by simp
  obtain h' where h': "esc_read_loop hal ado n h = (Inr (mem_read (mem_of h) (unat ado) (unat n)), h')"
    "mem_of h' = mem_of h" "good h'"
    using esc_read_loop_run [OF assms(1,2) b] by blast
  have lo: "\<not> LAN9252_PDRAM_BASE \<le> ado" using assms(5) by (simp add: word_le_nat_alt)
  have w: "ul_ecat_esc_write (esc (c_slave c)) ado (mem_read (mem_of h) (unat ado) (unat n))
      = Some (mem_write (esc (c_slave c)) (unat ado) (mem_read (mem_of h) (unat ado) (unat n)))"
    using assms(3,4) by (simp add: ul_ecat_esc_write_def unat_eq_zero)
  show ?thesis
    using h' w lo assms(4) by (simp add: sync_register_def lan9252_esc_read_def)
qed

definition polled :: "nat set" where
  "polled = {0x10, 0x11, 0x130, 0x131, 0x220, 0x221, 0x222, 0x223}"

lemma mem_write_read: "mem_write m a (mem_read m' a n) j = (if a \<le> j \<and> j < a + n then m' j else m j)"
  by (auto simp: mem_write_apply nth_mem_read)

text \<open>The three copies of a poll, and the words they give.\<close>

lemma registers_synced:
  assumes "csr_access hal mem_of good" "good h" "c_backend c = LAN9252_SPI"
  obtains s' h' where
    "ul_ecat_slave_controller_poll hal (c, h) =
       and_then (sync_pdram_in hal (c\<lparr>c_slave := s'\<rparr>, h')) (\<lambda>ch. and_then (sync_pdram_out hal ch) (\<lambda>(c, h).
         (Inr (), report_changes c (ul_ecat_esc_read_u16_le (esc (c_slave c)) 0x0130) (al_event_word (esc (c_slave c)) 0), h)))"
    "mem_of h' = mem_of h" "good h'" "\<forall>j. esc s' j = (if j \<in> polled then mem_of h j else esc (c_slave c) j)"
proof -
  define step where "step = (\<lambda>ado n c. c\<lparr>c_slave := (c_slave c)
      \<lparr>esc := mem_write (esc (c_slave c)) (unat ado) (mem_read (mem_of h) (unat (ado :: u16)) n)\<rparr>\<rparr> :: 'b controller)"
  let ?c1 = "step 0x10 2 c"
  let ?c2 = "step 0x130 2 ?c1"
  let ?c3 = "step 0x220 4 ?c2"
  obtain h1 where h1: "sync_register hal 0x10 2 (c, h) = (Inr (), ?c1, h1)" "mem_of h1 = mem_of h" "good h1"
    using sync_register_run [OF assms(1,2), of "0x10" 2 c] by (auto simp: step_def)
  obtain h2 where h2: "sync_register hal 0x130 2 (?c1, h1) = (Inr (), ?c2, h2)" "mem_of h2 = mem_of h" "good h2"
    using sync_register_run [OF assms(1) h1(3), of "0x130" 2 ?c1] h1(2) by (auto simp: step_def)
  obtain h3 where h3: "sync_register hal 0x220 4 (?c2, h2) = (Inr (), ?c3, h3)" "mem_of h3 = mem_of h" "good h3"
    using sync_register_run [OF assms(1) h2(3), of "0x220" 4 ?c2] h2(2) by (auto simp: step_def)
  have c3: "?c3 = c\<lparr>c_slave := c_slave ?c3\<rparr>" by (simp add: step_def)
  have e: "\<forall>j. esc (c_slave ?c3) j = (if j \<in> polled then mem_of h j else esc (c_slave c) j)"
    by (simp add: step_def mem_write_read) (auto simp: polled_def)
  show ?thesis
  proof (rule that [OF _ h3(2,3) e])
    show "ul_ecat_slave_controller_poll hal (c, h) =
       and_then (sync_pdram_in hal (c\<lparr>c_slave := c_slave ?c3\<rparr>, h3)) (\<lambda>ch. and_then (sync_pdram_out hal ch) (\<lambda>(c, h).
         (Inr (), report_changes c (ul_ecat_esc_read_u16_le (esc (c_slave c)) 0x0130) (al_event_word (esc (c_slave c)) 0), h)))"
      unfolding c3 [symmetric] using assms(3) h1(1) h2(1) h3(1)
      by (simp add: ul_ecat_slave_controller_poll_def ul_ecat_slave_controller_poll_lan9252_def and_then_def Let_def)
  qed
qed

lemma polled_words:
  assumes "\<forall>j. e j = (if j \<in> polled then m j else e0 j)"
  shows "ul_ecat_esc_read_u16_le e 0x0010 = of_le16 (m 0x10) (m 0x11)"
    "ul_ecat_esc_read_u16_le e 0x0130 = of_le16 (m 0x130) (m 0x131)"
    "al_event_word e d = of_le32 (m 0x220) (m 0x221) (m 0x222) (m 0x223)"
  by (simp_all add: read_u16_reg al_event_word_def ul_ecat_esc_read_def Let_def assms mem_read_def nth_mem_read) (simp_all add: polled_def)

text \<open>
  On a chip whose register accesses work, a poll leaves the mirror equal to the chip
  at the station address, AL Status and AL Event registers and unchanged everywhere else, does not
  modify the chip, and calls back exactly when the copied words differ from those of the last
  poll.
\<close>

theorem lan9252_poll_mirrors:
  assumes "csr_access hal mem_of good" "good h" "c_backend c = LAN9252_SPI"
    and "in_len (pdram c) = 0" "out_len (pdram c) = 0"
  shows "\<exists>c' h'. ul_ecat_slave_controller_poll hal (c, h) = (Inr (), c', h') \<and> mem_of h' = mem_of h \<and>
    (\<forall>j. esc (c_slave c') j = (if j \<in> polled then mem_of h j else esc (c_slave c) j)) \<and>
    last_al_status c' = of_le16 (mem_of h 0x130) (mem_of h 0x131) \<and>
    calls c' = calls c
      @ (if on_al_status c \<and> last_al_status c' \<noteq> last_al_status c then [AlStatus (last_al_status c')] else [])
      @ (if on_esc_event c \<and> last_al_event c' \<noteq> last_al_event c then [EscEvent (last_al_event c')] else [])"
proof -
  obtain s' h' where run: "ul_ecat_slave_controller_poll hal (c, h) =
       and_then (sync_pdram_in hal (c\<lparr>c_slave := s'\<rparr>, h')) (\<lambda>ch. and_then (sync_pdram_out hal ch) (\<lambda>(c, h).
         (Inr (), report_changes c (ul_ecat_esc_read_u16_le (esc (c_slave c)) 0x0130) (al_event_word (esc (c_slave c)) 0), h)))"
    and h': "mem_of h' = mem_of h" "good h'" and e: "\<forall>j. esc s' j = (if j \<in> polled then mem_of h j else esc (c_slave c) j)"
    by (rule registers_synced [OF assms(1-3)])
  have st: "ul_ecat_esc_read_u16_le (esc s') 0x130 = of_le16 (mem_of h 0x130) (mem_of h 0x131)"
    by (rule polled_words(2) [OF e])
  let ?c' = "report_changes (c\<lparr>c_slave := s'\<rparr>) (ul_ecat_esc_read_u16_le (esc s') 0x0130) (al_event_word (esc s') 0)"
  have "ul_ecat_slave_controller_poll hal (c, h) = (Inr (), ?c', h')"
    using assms(4,5) by (simp add: run and_then_def sync_pdram_in_def sync_pdram_out_def)
  moreover have "c_slave ?c' = s'" "last_al_status ?c' = ul_ecat_esc_read_u16_le (esc s') 0x130"
    by (simp_all add: report_changes_def Let_def)
  ultimately show ?thesis using st e h'(1)
    by (intro exI [of _ ?c'] exI [of _ h']) (simp add: report_changes_def Let_def)
qed

text \<open>What a failed step of the poll leaves alone.\<close>

lemma csr_read_length:
  assumes "esc_read_csr_u16 hal a n h = (Inr d, h')" "n \<in> {1, 2, 4}"
  shows "length d = unat n"
  using assms(1) unfolding esc_read_csr_u16_def
  by (elim or_returnE) (use assms(2) in auto)

lemma read_loop_length:
  "esc_read_loop hal a n h = (Inr ds, h') \<Longrightarrow> length ds = unat n"
proof (induction "unat n" arbitrary: a n h ds rule: less_induct)
  case less
  show ?case
  proof (cases "n = 0")
    case True
    with less.prems show ?thesis by (simp add: esc_read_loop.simps)
  next
    case False
    let ?c = "esc_next_chunk_size a n"
    obtain d h1 ds' where d: "esc_read_csr_u16 hal a ?c h = (Inr d, h1)"
      "esc_read_loop hal (a + ?c) (n - ?c) h1 = (Inr ds', h')" "ds = d @ ds'"
      using less.prems False unfolding esc_read_loop.simps [of hal a n] Let_def
      by (auto elim!: or_returnE split: prod.splits sum.splits)
    have "length ds' = unat (n - ?c)" using less.hyps d(2) chunk_shrinks [OF False] by blast
    moreover have "length d = unat ?c" using csr_read_length [OF d(1)] chunk_bounds(3) [OF False] by blast
    ultimately show ?thesis
      using d(3) chunk_bounds(2) [OF False, of a] by (simp add: unat_sub word_le_nat_alt)
  qed
qed

definition poll_quiet :: "'u controller \<Rightarrow> 'u controller \<Rightarrow> bool" where
  "poll_quiet c c' \<longleftrightarrow> calls c' = calls c \<and> last_al_status c' = last_al_status c \<and>
     last_al_event c' = last_al_event c \<and> (\<forall>j. j \<notin> polled \<longrightarrow> esc (c_slave c') j = esc (c_slave c) j) \<and>
     mac (c_slave c') = mac (c_slave c) \<and> c_coe c' = c_coe c"

lemma quiet_trans: "poll_quiet a b \<Longrightarrow> poll_quiet b c \<Longrightarrow> poll_quiet a c"
  by (simp add: poll_quiet_def)

lemma sync_register_quiet:
  assumes "sync_register hal ado n (c, h) = (r, c', h')" "ado < 0x1000" "{unat ado ..< unat ado + unat n} \<subseteq> polled"
  shows "poll_quiet c c'"
proof -
  have "length tmp = unat n" if "lan9252_esc_read hal ado n h = (Inr tmp, h1)" for tmp h1
    using that assms(2) by (auto simp: lan9252_esc_read_def not_le dest: read_loop_length split: if_splits)
  then show ?thesis
    using assms(1,3)
    by (auto simp: poll_quiet_def sync_register_def ul_ecat_esc_write_def mem_write_apply subset_iff
        split: prod.splits sum.splits option.splits if_splits)
qed

lemma sync_polled_quiet:
  "sync_register hal 0x10 2 (c, h) = (r, c', h') \<Longrightarrow> poll_quiet c c'"
  "sync_register hal 0x130 2 (c, h) = (r, c', h') \<Longrightarrow> poll_quiet c c'"
  "sync_register hal 0x220 4 (c, h) = (r, c', h') \<Longrightarrow> poll_quiet c c'"
  by (erule sync_register_quiet; auto simp: polled_def)+

lemma sync_pdram_quiet:
  "sync_pdram_in hal (c, h) = (r, c', h') \<Longrightarrow> poll_quiet c c'"
  "sync_pdram_out hal (c, h) = (r, c', h') \<Longrightarrow> poll_quiet c c'"
  by (auto simp: poll_quiet_def sync_pdram_in_def sync_pdram_out_def
      split: prod.splits sum.splits option.splits if_splits)

lemma sync_steps_quiet:
  assumes "and_then (step (c, h)) k = (Inl e, c', h')"
    and "\<And>r c1 h1. step (c, h) = (r, c1, h1) \<Longrightarrow> poll_quiet c c1"
    and "\<And>c1 h1. k (c1, h1) = (Inl e, c', h') \<Longrightarrow> poll_quiet c1 c'"
  shows "poll_quiet c c'"
  using assms by (cases "step (c, h)" rule: prod_cases3) (auto simp: and_then_def intro: quiet_trans split: sum.splits)

text \<open>
  A poll of the chip that fails, at whichever step, makes no callback, keeps the
  remembered AL Status and AL Event so that the next poll still sees the change, and touches no
  mirror byte outside the three polled registers.
\<close>

theorem lan9252_poll_failure:
  assumes "ul_ecat_slave_controller_poll hal (c, h) = (Inl e, c', h')"
  shows "calls c' = calls c \<and> last_al_status c' = last_al_status c \<and> last_al_event c' = last_al_event c \<and>
    (\<forall>j. j \<notin> polled \<longrightarrow> esc (c_slave c') j = esc (c_slave c) j) \<and> mac (c_slave c') = mac (c_slave c) \<and> c_coe c' = c_coe c"
proof -
  have "ul_ecat_slave_controller_poll_lan9252 hal (c, h) = (Inl e, c', h')"
    using assms by (simp add: ul_ecat_slave_controller_poll_def poll_software_def Let_def split: if_splits)
  then have "poll_quiet c c'"
    unfolding ul_ecat_slave_controller_poll_lan9252_def
    by (elim sync_steps_quiet) (auto intro: sync_polled_quiet sync_pdram_quiet simp: Let_def)
  then show ?thesis by (simp add: poll_quiet_def)
qed

section \<open>Witnesses\<close>

definition demo_ctl :: "backend \<Rightarrow> unit controller" where
  "demo_ctl b = (ul_ecat_slave_controller_init demo_coe () b [2, 0, 0, 0, 0, 1]
     \<lparr>vendor_id = 2, product_code = 0x1C213052, revision = 1, serial = 1\<rparr>)\<lparr>c_slave := mailbox_slave\<rparr>"

lemma demo_ctl_sel [simp]:
  "c_slave (demo_ctl b) = mailbox_slave" "c_backend (demo_ctl b) = b" "on_mailbox_rx (demo_ctl b) = Some DefaultCoe"
  "c_coe (demo_ctl b) = ul_ecat_od_set_table demo_coe (Some ul_ecat_generated_od_table)" "calls (demo_ctl b) = []"
  "pdram (demo_ctl b) = pdram_none" "on_al_status (demo_ctl b) = False" "on_esc_event (demo_ctl b) = False"
  by (simp_all add: demo_ctl_def ul_ecat_slave_controller_init_def Let_def)

lemma mailbox_slave_configured: "mailbox_configured mailbox_slave" "station_of mailbox_slave = 0x1000"
  "mac mailbox_slave = [2, 0, 0, 0, 0, 1]"
  using mailbox_slave_ready
  by (simp_all add: mailbox_configured_def mailbox_slave_sm [simplified] sm_capacity_def station_of_def read_u16_reg)
     (simp_all add: mailbox_slave_def of_le16_def ul_ecat_slave_init_def)

theorem poll_reports_changes_witness:
  "al_calls (calls (poll_each (ul_ecat_slave_controller_set_callbacks (demo_ctl SOFTWARE_ETHERNET) True True)
      [mailbox_slave, mailbox_slave, mailbox_slave\<lparr>esc := mem_write (esc mailbox_slave) 0x130 [2, 0]\<rparr>])) = [2]"
proof -
  have "al_word_of mailbox_slave = 1"
    "al_word_of (mailbox_slave\<lparr>esc := mem_write (esc mailbox_slave) 0x130 [2, 0]\<rparr>) = 2"
    by (simp_all add: al_word_of_def read_u16_reg mailbox_slave_def ul_ecat_slave_init_def
        ul_ecat_esc_set_al_status_init_def of_le16_def)
  moreover have "last_al_status (demo_ctl SOFTWARE_ETHERNET) = 1"
    by (simp add: demo_ctl_def ul_ecat_slave_controller_init_def Let_def read_u16_reg ul_ecat_slave_init_def
        ul_ecat_esc_set_al_status_init_def of_le16_def)
  ultimately show ?thesis
    using poll_reports_changes [of "ul_ecat_slave_controller_set_callbacks (demo_ctl SOFTWARE_ETHERNET) True True"
        "[mailbox_slave, mailbox_slave, mailbox_slave\<lparr>esc := mem_write (esc mailbox_slave) 0x130 [2, 0]\<rparr>]"]
    by (simp add: ul_ecat_slave_controller_set_callbacks_def)
qed

theorem lan9252_poll_mirrors_witness:
  "\<exists>c' h'. ul_ecat_slave_controller_poll chip_hal (demo_ctl LAN9252_SPI, chip0\<lparr>c_mem := (\<lambda>_. 0)(0x130 := 8)\<rparr>) = (Inr (), c', h') \<and>
     last_al_status c' = 8"
  using lan9252_poll_mirrors [OF chip_csr_access, where h = "chip0\<lparr>c_mem := (\<lambda>_. 0)(0x130 := 8)\<rparr>" and c = "demo_ctl LAN9252_SPI"]
  by (auto simp: pdram_none_def of_le16_def)

theorem lan9252_poll_failure_witness:
  "calls (fst (snd (ul_ecat_slave_controller_poll weak_hal (demo_ctl LAN9252_SPI, ())))) = []"
proof -
  have "fst (ul_ecat_slave_controller_poll weak_hal (demo_ctl LAN9252_SPI, ())) = Inl EIO"
    by (simp add: ul_ecat_slave_controller_poll_def ul_ecat_slave_controller_poll_lan9252_def and_then_def
        sync_register_def lan9252_esc_read_def esc_read_loop.simps esc_read_csr_u16_def reg32_write_def
        weak_hal_def or_return_def Let_def)
  then obtain c' h' where "ul_ecat_slave_controller_poll weak_hal (demo_ctl LAN9252_SPI, ()) = (Inl EIO, c', h')"
    by (metis surj_pair fst_conv)
  from lan9252_poll_failure [OF this] show ?thesis by (simp add: \<open>_ = (Inl EIO, c', h')\<close>)
qed

end
