(* ===== verification/Lan9252Chip.thy ===== *)
theory Lan9252Chip
  imports HalPorts ControllerProps
begin

text \<open>
  A LAN9252 to run the driver on, down to the bytes of an SPI transaction (\<open>device_hal\<close>), with any
  latency the driver's polling tolerates.

  The locale \<open>lan9252_device\<close> is what a working chip offers to the callers of the driver: one address
  space of registers and process data. The driver over \<open>device_hal\<close> provides it. The locale \<open>spi_port\<close>
  is a bus that passes transfers on; a device behind it is a device again (\<open>device_behind\<close>), and both
  SPI ports of \<open>HalPorts\<close> are such buses. Last, the in-memory double of \<open>tests/lan9252_full_mock.c\<close>,
  which the unit tests put in the place of driver and chip, is related to them.
\<close>

section \<open>The chip behind the SPI bus\<close>

text \<open>
  A LAN9252 as its driver sees it. The address space \<open>d_mem\<close> holds the ESC registers below \<open>0x1000\<close> and
  the process data from there on. Registers are reached through the CSR data and command pair, process
  data through the two FIFOs, each with an address-and-length register and a command register that
  starts or aborts. A FIFO moves whole words at word boundaries; the first and the last word of a
  transfer are used in part. After a command the chip needs \<open>d_lat\<close> reads of a command register until
  it says so.
\<close>

record device =
  d_mem :: mem
  d_data :: bytes
  d_rdreg :: "nat \<times> nat"
  d_wrreg :: "nat \<times> nat"
  d_rd :: "nat \<times> nat"
  d_wr :: "nat \<times> nat"
  d_wait :: nat
  d_lat :: nat

text \<open>The part of a word that a transfer of \<open>n\<close> bytes at \<open>a\<close> uses, and where the next word starts.\<close>

definition word_part :: "nat \<times> nat \<Rightarrow> nat" where
  "word_part an = min (4 - fst an mod 4) (snd an)"

definition word_next :: "nat \<times> nat \<Rightarrow> nat \<times> nat" where
  "word_next an = (fst an + word_part an, snd an - word_part an)"

definition addr_len :: "bytes \<Rightarrow> nat \<times> nat" where
  "addr_len bs = (unat (of_le16 (bs ! 0) (bs ! 1)), unat (of_le16 (bs ! 2) (bs ! 3)))"

definition dev_write :: "u16 \<Rightarrow> bytes \<Rightarrow> device \<Rightarrow> device" where
  "dev_write a bs d =
     (if a = 0x300 then d\<lparr>d_data := bs\<rparr>
      else if a = 0x304 then
        let at = unat (of_le16 (bs ! 0) (bs ! 1)); n = unat (bs ! 2) in
        if bs ! 3 = 0xC0 then d\<lparr>d_data := mem_read (d_mem d) at n @ replicate (4 - n) 0, d_wait := d_lat d\<rparr>
        else d\<lparr>d_mem := mem_write (d_mem d) at (take n (d_data d)), d_wait := d_lat d\<rparr>
      else if a = 0x308 then d\<lparr>d_rdreg := addr_len bs\<rparr>
      else if a = 0x310 then d\<lparr>d_wrreg := addr_len bs\<rparr>
      else if a = 0x30C then
        d\<lparr>d_rd := (if bs ! 3 AND 0x40 \<noteq> 0 then (0, 0) else d_rdreg d), d_wait := d_lat d\<rparr>
      else if a = 0x314 then
        d\<lparr>d_wr := (if bs ! 3 AND 0x40 \<noteq> 0 then (0, 0) else d_wrreg d), d_wait := d_lat d\<rparr>
      else if a = 0x20 then
        d\<lparr>d_mem := mem_write (d_mem d) (fst (d_wr d)) (slice (fst (d_wr d) mod 4) (word_part (d_wr d)) bs),
          d_wr := word_next (d_wr d)\<rparr>
      else d)"

definition dev_status :: "nat \<Rightarrow> nat \<Rightarrow> bytes" where
  "dev_status w left = [if w = 0 \<and> left > 0 then 1 else 0, 0, 0, if w > 0 \<or> left > 0 then 0x80 else 0]"

definition dev_read :: "u16 \<Rightarrow> device \<Rightarrow> bytes \<times> device" where
  "dev_read a d =
     (if a = 0x300 then (take 4 (d_data d @ replicate 4 0), d)
      else if a = 0x304 then (dev_status (d_wait d) 0, d\<lparr>d_wait := d_wait d - 1\<rparr>)
      else if a = 0x30C then (dev_status (d_wait d) (snd (d_rd d)), d\<lparr>d_wait := d_wait d - 1\<rparr>)
      else if a = 0x314 then (dev_status (d_wait d) (snd (d_wr d)), d\<lparr>d_wait := d_wait d - 1\<rparr>)
      else if a = 0 then (mem_read (d_mem d) (fst (d_rd d) - fst (d_rd d) mod 4) 4, d\<lparr>d_rd := word_next (d_rd d)\<rparr>)
      else ([0, 0, 0, 0], d))"

text \<open>An SPI transaction: the bytes after chip select say what is accessed until it is released.\<close>

datatype phase = Released | Selected | Reading u16 | Writing u16

type_synonym spi_device = "phase \<times> device"

definition device_write :: "bytes \<Rightarrow> spi_device \<Rightarrow> spi_device" where
  "device_write bs w =
     (case w of
        (Selected, d) \<Rightarrow>
          let a = of_le16 (bs ! 2) (bs ! 1) in
          if bs ! 0 = 0x0B then (Reading a, d)
          else if bs ! 0 = 0x02 then (Writing a, if length bs = 7 then dev_write a (drop 3 bs) d else d)
          else (Selected, d)
      | (Writing a, d) \<Rightarrow> (Writing a, dev_write a bs d)
      | _ \<Rightarrow> w)"

definition device_read :: "nat \<Rightarrow> spi_device \<Rightarrow> bytes \<times> spi_device" where
  "device_read n w =
     (case w of
        (Reading a, d) \<Rightarrow> (let (bs, d') = dev_read a d in (take n bs, Reading a, d'))
      | _ \<Rightarrow> (replicate n 0xFF, w))"

definition device_hal :: "spi_device spi_hal" where
  "device_hal =
     \<lparr>hal_select = \<lambda>(_, d). (0, Selected, d), hal_deselect = \<lambda>(_, d). (Released, d),
      hal_write = \<lambda>bs w. (0, device_write bs w), hal_read = \<lambda>n w. (0, device_read n w)\<rparr>"

section \<open>The driver on the chip\<close>

lemma device_reg_read:
  "reg32_read device_hal a (p, d) =
     (let (bs, d') = dev_read a d; b = take 4 bs in (Inr (of_le32 (b ! 0) (b ! 1) (b ! 2) (b ! 3)), Released, d'))"
  by (simp add: reg32_read_def device_hal_def device_write_def device_read_def Let_def of_le16_bytes split_beta)

lemma device_reg_write:
  "reg32_write device_hal a v (p, d) = (Inr (), Released, dev_write a (le32 v) d)"
  by (simp add: reg32_write_def device_hal_def device_write_def Let_def of_le16_bytes)

text \<open>Waiting on a command register, whatever the chip's latency is.\<close>

lemma device_poll:
  assumes "a \<in> {0x304, 0x30C, 0x314}" "d_wait d < n"
    and "\<not> done (of_le32 0 0 0 0x80)"
    and "let b = dev_status 0 (if a = 0x304 then 0 else if a = 0x30C then snd (d_rd d) else snd (d_wr d)) in
      done (of_le32 (b ! 0) (b ! 1) (b ! 2) (b ! 3))"
  shows "poll_reg device_hal a done n (p, d) = (Inr (), Released, d\<lparr>d_wait := 0\<rparr>)"
  using assms(2,4)
proof (induction "d_wait d" arbitrary: n p d)
  case 0
  then obtain m where n: "n = Suc m" by (cases n) auto
  have "d\<lparr>d_wait := 0\<rparr> = d" using 0(1) by simp
  then show ?case
    using assms(1) 0 n by (auto simp: device_reg_read dev_read_def Let_def dev_status_def)
next
  case (Suc w)
  then obtain m where n: "n = Suc m" by (cases n) auto
  let ?d = "d\<lparr>d_wait := w\<rparr>"
  have "poll_reg device_hal a done m (Released, ?d) = (Inr (), Released, ?d\<lparr>d_wait := 0\<rparr>)"
    using Suc.prems n by (intro Suc.hyps(1)) (auto simp flip: Suc.hyps(2))
  moreover have "reg32_read device_hal a (p, d) = (Inr (of_le32 0 0 0 0x80), Released, ?d)"
    using assms(1) Suc.hyps(2) by (auto simp: device_reg_read dev_read_def Let_def dev_status_def)
  ultimately show ?case using n assms(3) by simp
qed

lemma le32_bytes4: "length b = 4 \<Longrightarrow> le32 (of_le32 (b ! 0) (b ! 1) (b ! 2) (b ! 3)) = b"
  using take4 [of b] by (simp add: le32_of_le32)

text \<open>A chip at rest: it has caught up with its commands and answers in time.\<close>

definition at_rest :: "spi_device \<Rightarrow> bool" where
  "at_rest w \<longleftrightarrow> d_wait (snd w) = 0 \<and> d_lat (snd w) < LAN9252_BUSY_MAX"

definition dev_mem :: "spi_device \<Rightarrow> mem" where
  "dev_mem w = d_mem (snd w)"

lemma device_not_busy:
  "d_wait d < LAN9252_BUSY_MAX \<Longrightarrow> csr_cmd_wait_not_busy device_hal (p, d) = (Inr (), Released, d\<lparr>d_wait := 0\<rparr>)"
  unfolding csr_cmd_wait_not_busy_def
  by (rule device_poll) (simp_all add: dev_status_def of_le32_def)

lemma csr_cmd_write:
  assumes "n \<in> {1, 2, 4}"
  shows "dev_write 0x304 (le32 (esc_csr_cmd 0xC0000000 n a)) d
      = d\<lparr>d_data := mem_read (d_mem d) (unat a) (unat n) @ replicate (4 - unat n) 0, d_wait := d_lat d\<rparr>"
    and "dev_write 0x304 (le32 (esc_csr_cmd 0x80000000 n a)) d
      = d\<lparr>d_mem := mem_write (d_mem d) (unat a) (take (unat n) (d_data d)), d_wait := d_lat d\<rparr>"
  using assms by (auto simp: csr_cmd_bytes dev_write_def le16_def of_le16_bytes Let_def)

lemma device_csr_access: "csr_access device_hal dev_mem at_rest"
  unfolding csr_access_def
proof (intro allI impI conjI, elim conjE)
  fix w :: spi_device and a n :: u16
  assume g: "at_rest w" and n: "n \<in> {1, 2, 4}"
  obtain p d where w: "w = (p, d)" by fastforce
  define d1 where "d1 = d\<lparr>d_data := mem_read (d_mem d) (unat a) (unat n) @ replicate (4 - unat n) 0, d_wait := d_lat d\<rparr>"
  have lat: "d_wait d1 < LAN9252_BUSY_MAX" using g by (simp add: d1_def at_rest_def w)
  have c: "reg32_write device_hal 0x304 (esc_csr_cmd 0xC0000000 n a) (p, d) = (Inr (), Released, d1)"
    by (simp add: device_reg_write csr_cmd_write(1) [OF n] d1_def)
  have d4: "length (d_data d1) = 4" "take 4 (d_data d1 @ replicate 4 0) = d_data d1" using n by (auto simp: d1_def)
  have r: "reg32_read device_hal 0x300 (Released, d1\<lparr>d_wait := 0\<rparr>) =
      (Inr (of_le32 (d_data d1 ! 0) (d_data d1 ! 1) (d_data d1 ! 2) (d_data d1 ! 3)), Released, d1\<lparr>d_wait := 0\<rparr>)"
    using d4 by (simp add: device_reg_read dev_read_def Let_def del: take_append)
  have "take (unat n) (d_data d1) = mem_read (d_mem d) (unat a) (unat n)" by (simp add: d1_def)
  then have "esc_read_csr_u16 device_hal a n w = (Inr (mem_read (dev_mem w) (unat a) (unat n)), Released, d1\<lparr>d_wait := 0\<rparr>)"
    using le32_bytes4 [OF d4(1)]
    by (simp add: w dev_mem_def esc_read_csr_u16_def or_return_def c device_not_busy [OF lat] r)
  moreover have "dev_mem (Released, d1\<lparr>d_wait := 0\<rparr>) = dev_mem w" "at_rest (Released, d1\<lparr>d_wait := 0\<rparr>)"
    using g by (simp_all add: d1_def dev_mem_def at_rest_def w)
  ultimately show "\<exists>w'. esc_read_csr_u16 device_hal a n w = (Inr (mem_read (dev_mem w) (unat a) (unat n)), w') \<and>
      dev_mem w' = dev_mem w \<and> at_rest w'" by blast
next
  fix w :: spi_device and a n :: u16 and bs :: bytes
  assume asm: "at_rest w \<and> n \<in> {1, 2, 4} \<and> unat n dvd unat a" and len: "unat n \<le> length bs"
  then have n: "n \<in> {1, 2, 4}" by simp
  then have n4: "unat n \<le> 4" by auto
  obtain p d where w: "w = (p, d)" by fastforce
  define d1 where "d1 = d\<lparr>d_data := le32 (word_of_bytes (take (unat n) bs))\<rparr>"
  define d2 where "d2 = d1\<lparr>d_mem := mem_write (d_mem d) (unat a) (take (unat n) bs), d_wait := d_lat d\<rparr>"
  have lat: "d_wait d2 < LAN9252_BUSY_MAX" using asm by (simp add: d2_def d1_def at_rest_def w)
  have w1: "reg32_write device_hal 0x300 (word_of_bytes (take (unat n) bs)) (p, d) = (Inr (), Released, d1)"
    by (simp add: device_reg_write dev_write_def d1_def)
  have "take (unat n) (d_data d1) = take (unat n) bs"
    using n4 len by (simp add: d1_def le32_word_of_bytes min_def)
  then have w2: "reg32_write device_hal 0x304 (esc_csr_cmd 0x80000000 n a) (Released, d1) = (Inr (), Released, d2)"
    by (simp add: device_reg_write csr_cmd_write(2) [OF n] d1_def d2_def)
  have "esc_write_csr_u16 device_hal a bs n w = (Inr (), Released, d2\<lparr>d_wait := 0\<rparr>)"
    by (simp add: w esc_write_csr_u16_def or_return_def w1 w2 device_not_busy [OF lat])
  moreover have "dev_mem (Released, d2\<lparr>d_wait := 0\<rparr>) = mem_write (dev_mem w) (unat a) (take (unat n) bs)"
    "at_rest (Released, d2\<lparr>d_wait := 0\<rparr>)"
    using asm by (simp_all add: d2_def d1_def dev_mem_def at_rest_def w)
  ultimately show "\<exists>w'. esc_write_csr_u16 device_hal a bs n w = (Inr (), w') \<and>
      dev_mem w' = mem_write (dev_mem w) (unat a) (take (unat n) bs) \<and> at_rest w'" by blast
qed

section \<open>Process data\<close>

lemma word_next_aligned: "0 < n - word_part (a, n) \<Longrightarrow> fst (word_next (a, n)) mod 4 = 0"
proof -
  assume a: "0 < n - word_part (a, n)"
  then have "word_part (a, n) = 4 - a mod 4" by (auto simp: word_part_def)
  moreover have "(a + (4 - a mod 4)) mod 4 = 0" by presburger
  ultimately show ?thesis by (simp add: word_next_def)
qed

lemma addr_len_le32: "addr_len (le32 (pram_addr_len n a)) = (unat a, unat n)"
proof -
  obtain lo hi nlo nhi where b: "a = of_le16 lo hi" "n = of_le16 nlo nhi" by (metis of_le16_bytes)
  have "pram_addr_len n a = of_le32 lo hi nlo nhi"
    unfolding pram_addr_len_def of_le32_def b ucast_of_le16 push_bit_or push_bit_push_bit
    by (simp only: or.assoc or.commute or.left_commute) simp
  then show ?thesis by (simp add: addr_len_def le32_of_le32 b)
qed

text \<open>The words after the first one.\<close>

lemma device_read_burst:
  assumes "n = 0 \<or> b mod 4 = 0"
  shows "d_rd d = (b, n) \<Longrightarrow> pram_read_burst device_hal n f buf (Reading 0, d)
    = (Inr (buf @ mem_read (d_mem d) b n), Released, d\<lparr>d_rd := (b + n, 0)\<rparr>)"
  using assms
proof (induction n arbitrary: b d f buf rule: less_induct)
  case (less n)
  show ?case
  proof (cases "n = 0")
    case True
    then have "d\<lparr>d_rd := (b + n, 0)\<rparr> = d" using less.prems(1) by simp
    with True show ?thesis by (subst pram_read_burst.simps) (simp add: device_hal_def)
  next
    case False
    define k where "k = (if n > 4 then 4 else n)"
    define f' where "f' = (if f > 0 then f - 1 else f)"
    let ?d = "d\<lparr>d_rd := (b + k, n - k)\<rparr>" and ?buf = "buf @ take k (mem_read (d_mem d) b 4)"
    have k: "k \<le> 4" "k \<le> n" "word_part (b, n) = k" "n - k < n"
      using False less.prems by (auto simp: k_def word_part_def)
    have "hal_read device_hal 4 (Reading 0, d) = (0, mem_read (d_mem d) b 4, Reading 0, ?d)"
      using False less.prems k by (simp add: device_hal_def device_read_def dev_read_def word_next_def)
    then have "pram_read_burst device_hal n f buf (Reading 0, d) = pram_read_burst device_hal (n - k) f' ?buf (Reading 0, ?d)"
      using False by (subst pram_read_burst.simps) (simp add: Let_def f'_def flip: k_def)
    also have "\<dots> = (Inr (?buf @ mem_read (d_mem ?d) (b + k) (n - k)), Released, ?d\<lparr>d_rd := (b + k + (n - k), 0)\<rparr>)"
      by (rule less.IH [OF k(4)]) (use False less.prems(2) k_def in auto)
    also have "\<dots> = (Inr (buf @ mem_read (d_mem d) b n), Released, d\<lparr>d_rd := (b + n, 0)\<rparr>)"
      using k mem_read_split [of k n "d_mem d" b] mem_read_split [of k 4 "d_mem d" b] by simp
    finally show ?thesis .
  qed
qed

lemma device_write_burst:
  assumes "n = 0 \<or> b mod 4 = 0" "length bs = n"
  shows "d_wr d = (b, n) \<Longrightarrow> pram_write_burst device_hal n f bs (Writing 0x20, d)
    = (Inr (), Released, d\<lparr>d_mem := mem_write (d_mem d) b bs, d_wr := (b + n, 0)\<rparr>)"
  using assms
proof (induction n arbitrary: b d f bs rule: less_induct)
  case (less n)
  show ?case
  proof (cases "n = 0")
    case True
    then have "d\<lparr>d_mem := mem_write (d_mem d) b bs, d_wr := (b + n, 0)\<rparr> = d"
      using less.prems(1,3) by simp
    with True show ?thesis by (subst pram_write_burst.simps) (simp add: device_hal_def)
  next
    case False
    define k where "k = (if n > 4 then 4 else n)"
    define f' where "f' = (if f > 0 then f - 1 else f)"
    let ?d = "d\<lparr>d_mem := mem_write (d_mem d) b (take k bs), d_wr := (b + k, n - k)\<rparr>"
    have k: "k \<le> 4" "k \<le> n" "word_part (b, n) = k" "n - k < n"
      using False less.prems by (auto simp: k_def word_part_def)
    have "take k (le32 (word_of_bytes (take k bs))) = take k bs"
      using k less.prems(3) by (simp add: le32_word_of_bytes min_def)
    then have "hal_write device_hal (le32 (word_of_bytes (take k bs))) (Writing 0x20, d) = (0, Writing 0x20, ?d)"
      using False less.prems k by (simp add: device_hal_def device_write_def dev_write_def word_next_def slice_def)
    then have "pram_write_burst device_hal n f bs (Writing 0x20, d)
        = pram_write_burst device_hal (n - k) f' (drop k bs) (Writing 0x20, ?d)"
      using False by (subst pram_write_burst.simps) (simp add: Let_def f'_def flip: k_def)
    also have "\<dots> = (Inr (), Released, ?d\<lparr>d_mem := mem_write (d_mem ?d) (b + k) (drop k bs), d_wr := (b + k + (n - k), 0)\<rparr>)"
      by (rule less.IH [OF k(4)]) (use False less.prems(2,3) k_def in auto)
    also have "\<dots> = (Inr (), Released, d\<lparr>d_mem := mem_write (d_mem d) b bs, d_wr := (b + n, 0)\<rparr>)"
    proof -
      have "length (take k bs) = k" using k(2) less.prems(3) by simp
      then have "mem_write (mem_write (d_mem d) b (take k bs)) (b + k) (drop k bs) = mem_write (d_mem d) b bs"
        using mem_write_append [of "d_mem d" b "take k bs" "drop k bs"] by (simp only: append_take_drop_id)
      then show ?thesis using k(2) by simp
    qed
    finally show ?thesis .
  qed
qed

lemma le32_flags: "le32 (0x80000000 :: u32) = [0, 0, 0, 0x80]" "le32 (0x40000000 :: u32) = [0, 0, 0, 0x40]"
  by (simp_all add: le32_def)

lemma pram_cmd_write:
  "dev_write 0x30C (le32 0x40000000) d = d\<lparr>d_rd := (0, 0), d_wait := d_lat d\<rparr>"
  "dev_write 0x30C (le32 0x80000000) d = d\<lparr>d_rd := d_rdreg d, d_wait := d_lat d\<rparr>"
  "dev_write 0x314 (le32 0x40000000) d = d\<lparr>d_wr := (0, 0), d_wait := d_lat d\<rparr>"
  "dev_write 0x314 (le32 0x80000000) d = d\<lparr>d_wr := d_wrreg d, d_wait := d_lat d\<rparr>"
  "dev_write 0x308 (le32 (pram_addr_len n a)) d = d\<lparr>d_rdreg := (unat a, unat n)\<rparr>"
  "dev_write 0x310 (le32 (pram_addr_len n a)) d = d\<lparr>d_wrreg := (unat a, unat n)\<rparr>"
  by (simp_all add: dev_write_def le32_flags addr_len_le32)

lemma pram_waits:
  assumes "d_wait d < LAN9252_BUSY_MAX"
  shows "snd (d_rd d) = 0 \<Longrightarrow> pram_wait_rd_not_busy device_hal (p, d) = (Inr (), Released, d\<lparr>d_wait := 0\<rparr>)"
    and "snd (d_wr d) = 0 \<Longrightarrow> pram_wait_wr_not_busy device_hal (p, d) = (Inr (), Released, d\<lparr>d_wait := 0\<rparr>)"
    and "snd (d_rd d) > 0 \<Longrightarrow> pram_rd_wait_avail device_hal (p, d) = (Inr (), Released, d\<lparr>d_wait := 0\<rparr>)"
    and "snd (d_wr d) > 0 \<Longrightarrow> pram_wr_wait_avail device_hal (p, d) = (Inr (), Released, d\<lparr>d_wait := 0\<rparr>)"
  unfolding pram_wait_rd_not_busy_def pram_wait_wr_not_busy_def pram_rd_wait_avail_def pram_wr_wait_avail_def
  by (rule device_poll; use assms in \<open>simp add: dev_status_def of_le32_def\<close>)+

lemma device_hal_select:
  "hal_select device_hal (p, d) = (0, Selected, d)"
  "hal_write device_hal [0x0B, 0, 0, 1] (Selected, d) = (0, Reading 0, d)"
  "hal_write device_hal [0x02, 0, 0x20] (Selected, d) = (0, Writing 0x20, d)"
  by (simp_all add: device_hal_def device_write_def of_le16_def)

lemma pos_mod: "unat (a AND 3 :: u16) = unat a mod 4"
proof -
  have "a AND 3 = a mod 4" using take_bit_eq_mask [of 2 a] by (simp add: take_bit_eq_mod mask_eq_decr_exp)
  then show ?thesis by (simp add: unat_mod)
qed

lemma first_len_part: "first_len a n = word_part (unat a, n)"
  by (simp add: first_len_def word_part_def pos_mod Let_def min_def)

lemma device_pdram_read:
  assumes "at_rest w" "n \<noteq> 0"
  shows "\<exists>w'. lan9252_pdram_read device_hal a n w = (Inr (mem_read (dev_mem w) (unat a) (unat n)), w') \<and>
    dev_mem w' = dev_mem w \<and> at_rest w'"
proof -
  obtain p d where w: "w = (p, d)" by fastforce
  have lat: "d_lat d < LAN9252_BUSY_MAX" using assms(1) by (simp add: at_rest_def w)
  have n: "0 < unat n" using assms(2) by (simp add: unat_gt_0)
  define f where "f = word_part (unat a, unat n)"
  let ?d1 = "d\<lparr>d_rdreg := (unat a, unat n), d_rd := (unat a, unat n), d_wait := 0\<rparr>"
  let ?d2 = "d\<lparr>d_rdreg := (unat a, unat n), d_rd := (unat a + f, unat n - f), d_wait := 0\<rparr>"
  let ?word = "mem_read (d_mem d) (unat a - unat a mod 4) 4"
  have fb: "f \<le> unat n" "unat a mod 4 + f \<le> 4" by (auto simp: f_def word_part_def)
  have r1: "reg32_read device_hal 0x30C (Released, ?d1) = (Inr (of_le32 1 0 0 0x80), Released, ?d1)"
    using n by (simp add: device_reg_read dev_read_def dev_status_def Let_def)
  have r2: "reg32_read device_hal 0 (Released, ?d1)
      = (Inr (of_le32 (?word ! 0) (?word ! 1) (?word ! 2) (?word ! 3)), Released, ?d2)"
    by (simp add: device_reg_read dev_read_def Let_def word_next_def f_def)
  have first: "slice (unat a mod 4) f (le32 (of_le32 (?word ! 0) (?word ! 1) (?word ! 2) (?word ! 3))) = mem_read (d_mem d) (unat a) f"
  proof -
    have "le32 (of_le32 (?word ! 0) (?word ! 1) (?word ! 2) (?word ! 3)) = ?word" by (rule le32_bytes4) simp
    then show ?thesis
      using fb mem_read_split [of "unat a mod 4" 4 "d_mem d" "unat a - unat a mod 4"]
        mem_read_split [of f "4 - unat a mod 4" "d_mem d" "unat a"] by (simp add: slice_def)
  qed
  have run: "lan9252_pdram_read device_hal a n w =
      (if unat n - f = 0 then (Inr (mem_read (d_mem d) (unat a) f), Released, ?d2)
       else pram_read_burst device_hal (unat n - f) 0 (mem_read (d_mem d) (unat a) f) (Reading 0, ?d2))"
    using assms(2) lat n fb(1) r1 r2 first
    by (simp add: lan9252_pdram_read_def w or_return_def device_reg_write pram_cmd_write pram_waits Let_def pos_mod first_len_part
        pram_cmd_cnt_def of_le32_def [of 1] device_hal_select flip: f_def)
  show ?thesis
  proof (cases "unat n - f = 0")
    case True
    then have "f = unat n" using fb(1) by simp
    then show ?thesis using run lat by (simp add: dev_mem_def at_rest_def w)
  next
    case False
    then have "(unat a + f) mod 4 = 0" using word_next_aligned [of "unat n" "unat a"] by (simp add: f_def word_next_def)
    then have "pram_read_burst device_hal (unat n - f) 0 (mem_read (d_mem d) (unat a) f) (Reading 0, ?d2)
        = (Inr (mem_read (d_mem d) (unat a) f @ mem_read (d_mem d) (unat a + f) (unat n - f)), Released,
            ?d2\<lparr>d_rd := (unat a + f + (unat n - f), 0)\<rparr>)"
      using device_read_burst [of "unat n - f" "unat a + f" ?d2] by simp
    then show ?thesis
      using run False lat mem_read_split [OF fb(1), of "d_mem d" "unat a"] by (simp add: dev_mem_def at_rest_def w)
  qed
qed

lemma device_pdram_write:
  assumes "at_rest w" "n \<noteq> 0" "length bs = unat n"
  shows "\<exists>w'. lan9252_pdram_write device_hal a bs n w = (Inr (), w') \<and>
    dev_mem w' = mem_write (dev_mem w) (unat a) bs \<and> at_rest w'"
proof -
  obtain p d where w: "w = (p, d)" by fastforce
  have lat: "d_lat d < LAN9252_BUSY_MAX" using assms(1) by (simp add: at_rest_def w)
  have n: "0 < unat n" using assms(2) by (simp add: unat_gt_0)
  define f where "f = word_part (unat a, unat n)"
  let ?d1 = "d\<lparr>d_wrreg := (unat a, unat n), d_wr := (unat a, unat n), d_wait := 0\<rparr>"
  let ?d2 = "d\<lparr>d_mem := mem_write (d_mem d) (unat a) (take f bs), d_wrreg := (unat a, unat n),
      d_wr := (unat a + f, unat n - f), d_wait := 0\<rparr>"
  let ?word = "word_of_bytes (replicate (unat a mod 4) 0 @ take f bs)"
  have fb: "f \<le> unat n" "unat a mod 4 + f \<le> 4" "length (take f bs) = f"
    using assms(3) by (auto simp: f_def word_part_def)
  have r1: "reg32_read device_hal 0x314 (Released, ?d1) = (Inr (of_le32 1 0 0 0x80), Released, ?d1)"
    using n by (simp add: device_reg_read dev_read_def dev_status_def Let_def)
  have "slice (unat a mod 4) f (le32 ?word) = take f bs"
    using fb by (simp add: slice_def le32_word_of_bytes)
  then have r2: "reg32_write device_hal 0x20 ?word (Released, ?d1) = (Inr (), Released, ?d2)"
    by (simp add: device_reg_write dev_write_def word_next_def flip: f_def)
  have run: "lan9252_pdram_write device_hal a bs n w =
      (if unat n - f = 0 then (Inr (), Released, ?d2)
       else pram_write_burst device_hal (unat n - f) 0 (drop f bs) (Writing 0x20, ?d2))"
  proof -
    have ww: "reg32_write device_hal 0x314 v (p', d') = (Inr (), Released, dev_write 0x314 (le32 v) d')"
      "reg32_write device_hal 0x310 v (p', d') = (Inr (), Released, dev_write 0x310 (le32 v) d')" for v p' d'
      by (simp_all add: device_reg_write)
    show ?thesis
      using assms(2) lat n fb(1) r1 r2
      by (simp add: lan9252_pdram_write_def w or_return_def ww pram_cmd_write pram_waits Let_def pos_mod first_len_part
          pram_cmd_cnt_def of_le32_def [of 1] device_hal_select flip: f_def)
  qed
  show ?thesis
  proof (cases "unat n - f = 0")
    case True
    then have "take f bs = bs" using assms(3) by simp
    then show ?thesis using run True lat by (simp add: dev_mem_def at_rest_def w)
  next
    case False
    then have "(unat a + f) mod 4 = 0" using word_next_aligned [of "unat n" "unat a"] by (simp add: f_def word_next_def)
    then have "pram_write_burst device_hal (unat n - f) 0 (drop f bs) (Writing 0x20, ?d2)
        = (Inr (), Released, ?d2\<lparr>d_mem := mem_write (d_mem ?d2) (unat a + f) (drop f bs), d_wr := (unat a + f + (unat n - f), 0)\<rparr>)"
      using assms(3) by (intro device_write_burst) auto
    moreover have "mem_write (d_mem ?d2) (unat a + f) (drop f bs) = mem_write (d_mem d) (unat a) bs"
      using mem_write_append [of "d_mem d" "unat a" "take f bs" "drop f bs", unfolded fb(3) append_take_drop_id] by simp
    ultimately show ?thesis
      using run False lat by (simp add: dev_mem_def at_rest_def w)
  qed
qed

section \<open>What a device offers\<close>

text \<open>
  The contract of a working LAN9252, as the driver's callers rely on it: one address space, registers
  moved in aligned pieces, process data in the 8 KiB from \<open>0x1000\<close> on moved at any address and length.
\<close>

definition in_ram :: "u16 \<Rightarrow> nat \<Rightarrow> bool" where
  "in_ram a n \<longleftrightarrow> 0x1000 \<le> unat a \<and> unat a + n \<le> 0x3000"

locale lan9252_device =
  fixes hal :: "'h spi_hal"
    and mem_of :: "'h \<Rightarrow> mem"
    and good :: "'h \<Rightarrow> bool"
  assumes csr: "csr_access hal mem_of good"
    and ram_read: "good h \<Longrightarrow> n \<noteq> 0 \<Longrightarrow> in_ram a (unat n) \<Longrightarrow>
      \<exists>h'. lan9252_pdram_read hal a n h = (Inr (mem_read (mem_of h) (unat a) (unat n)), h') \<and> mem_of h' = mem_of h \<and> good h'"
    and ram_write: "good h \<Longrightarrow> n \<noteq> 0 \<Longrightarrow> in_ram a (unat n) \<Longrightarrow> length bs = unat n \<Longrightarrow>
      \<exists>h'. lan9252_pdram_write hal a bs n h = (Inr (), h') \<and> mem_of h' = mem_write (mem_of h) (unat a) bs \<and> good h'"
begin

lemma any_read:
  assumes "good h" "n \<noteq> 0" "unat a + unat n \<le> 0x1000 \<or> in_ram a (unat n)"
  shows "\<exists>h'. lan9252_esc_read hal a n h = (Inr (mem_read (mem_of h) (unat a) (unat n)), h') \<and> mem_of h' = mem_of h \<and> good h'"
proof (cases "unat a + unat n \<le> 0x1000")
  case True
  then have "\<not> LAN9252_PDRAM_BASE \<le> a"
    using assms(2) by (simp add: word_le_nat_alt unat_gt_0 [symmetric] not_le)
  then show ?thesis
    using esc_read_loop_run [OF csr assms(1), of a n] True assms(2) by (simp add: lan9252_esc_read_def)
next
  case False
  then have "in_ram a (unat n)" "LAN9252_PDRAM_BASE \<le> a" using assms(3) by (auto simp: in_ram_def word_le_nat_alt)
  then show ?thesis using ram_read [OF assms(1,2)] assms(2) by (simp add: lan9252_esc_read_def)
qed

lemma any_write:
  assumes "good h" "n \<noteq> 0" "unat a + unat n \<le> 0x1000 \<or> in_ram a (unat n)" "length bs = unat n"
  shows "\<exists>h'. lan9252_esc_write hal a bs n h = (Inr (), h') \<and> mem_of h' = mem_write (mem_of h) (unat a) bs \<and> good h'"
proof (cases "unat a + unat n \<le> 0x1000")
  case True
  then have "\<not> LAN9252_PDRAM_BASE \<le> a"
    using assms(2) by (simp add: word_le_nat_alt unat_gt_0 [symmetric] not_le)
  then show ?thesis
    using esc_write_loop_run [OF csr assms(1), of a n bs] True assms(2,4) by (simp add: lan9252_esc_write_def)
next
  case False
  then have "in_ram a (unat n)" "LAN9252_PDRAM_BASE \<le> a" using assms(3) by (auto simp: in_ram_def word_le_nat_alt)
  then show ?thesis using ram_write [OF assms(1,2) _ assms(4)] assms(2) by (simp add: lan9252_esc_write_def)
qed

text \<open>A poll of the controller with both process data buffers in use.\<close>

definition pdram_ok :: "pdram_cfg \<Rightarrow> bool" where
  "pdram_ok p \<longleftrightarrow> in_len p \<noteq> 0 \<and> in_ram (in_offset p) (unat (in_len p)) \<and> in_buf p \<noteq> None \<and>
     out_len p \<noteq> 0 \<and> in_ram (out_offset p) (unat (out_len p)) \<and>
     (\<exists>b. out_buf p = Some b \<and> length b = unat (out_len p))"

lemma poll_data:
  assumes "good h" "c_backend c = LAN9252_SPI" "pdram_ok (pdram c)"
  shows "\<exists>c' h'. ul_ecat_slave_controller_poll hal (c, h) = (Inr (), c', h') \<and> good h' \<and>
    c_backend c' = LAN9252_SPI \<and>
    pdram c' = (pdram c)\<lparr>in_buf := Some (mem_read (mem_of h) (unat (in_offset (pdram c))) (unat (in_len (pdram c))))\<rparr> \<and>
    mem_of h' = mem_write (mem_of h) (unat (out_offset (pdram c))) (the (out_buf (pdram c)))"
proof -
  let ?p = "pdram c"
  note p = assms(3) [unfolded pdram_ok_def]
  obtain out where out: "out_buf ?p = Some out" "length out = unat (out_len ?p)" using p by blast
  obtain buf where buf: "in_buf ?p = Some buf" using p by blast
  obtain s' h3 where run: "ul_ecat_slave_controller_poll hal (c, h) =
      and_then (sync_pdram_in hal (c\<lparr>c_slave := s'\<rparr>, h3)) (\<lambda>ch. and_then (sync_pdram_out hal ch) (\<lambda>(c, h).
        (Inr (), report_changes c (ul_ecat_esc_read_u16_le (esc (c_slave c)) 0x0130) (al_event_word (esc (c_slave c)) 0), h)))"
    and 3: "mem_of h3 = mem_of h" "good h3"
    by (rule registers_synced [OF csr assms(1,2)])
  let ?c3 = "c\<lparr>c_slave := s'\<rparr>"
  let ?in = "mem_read (mem_of h) (unat (in_offset ?p)) (unat (in_len ?p))"
  obtain h4 where 4: "lan9252_pdram_read hal (in_offset ?p) (in_len ?p) h3 = (Inr ?in, h4)" "mem_of h4 = mem_of h" "good h4"
    using ram_read [OF 3(2), of "in_len ?p" "in_offset ?p"] p 3(1) by auto
  let ?c4 = "?c3\<lparr>pdram := ?p\<lparr>in_buf := Some ?in\<rparr>\<rparr>"
  obtain h5 where 5: "lan9252_pdram_write hal (out_offset ?p) out (out_len ?p) h4 = (Inr (), h5)"
    "mem_of h5 = mem_write (mem_of h) (unat (out_offset ?p)) out" "good h5"
    using ram_write [OF 4(3) _ _ out(2), of "out_offset ?p"] p 4(2) by auto
  have i: "sync_pdram_in hal (?c3, h3) = (Inr (), ?c4, h4)"
    using p buf 4(1) by (simp add: sync_pdram_in_def word_greater_zero_iff)
  have o: "sync_pdram_out hal (?c4, h4) = (Inr (), ?c4, h5)"
    using p out 5(1) by (simp add: sync_pdram_out_def word_greater_zero_iff)
  let ?c' = "report_changes ?c4 (ul_ecat_esc_read_u16_le (esc (c_slave ?c4)) 0x0130) (al_event_word (esc (c_slave ?c4)) 0)"
  have "ul_ecat_slave_controller_poll hal (c, h) = (Inr (), ?c', h5)"
    unfolding run i by (simp add: and_then_def o)
  moreover have "pdram ?c' = ?p\<lparr>in_buf := Some ?in\<rparr>" "c_backend ?c' = c_backend c"
    by (simp_all add: report_changes_def Let_def)
  ultimately show ?thesis using 5 out assms(2) by auto
qed

end

interpretation dev: lan9252_device device_hal dev_mem at_rest
  by unfold_locales (use device_csr_access device_pdram_read device_pdram_write in blast)+

section \<open>The test double\<close>

text \<open>
  The in-memory LAN9252 of \<open>tests/lan9252_full_mock.c\<close>, which the unit tests put in the place of the
  driver. A buffer argument is never \<open>NULL\<close> here.
\<close>

record mock =
  g_esc_core :: mem
  g_pdram :: mem
  g_csr :: mem

definition lan9252_mock_reset :: "mock \<Rightarrow> mock" where
  "lan9252_mock_reset m = \<lparr>g_esc_core = \<lambda>_. 0, g_pdram = \<lambda>_. 0, g_csr = \<lambda>_. 0\<rparr>"

definition mock_read_csr_u32 :: "u16 \<Rightarrow> mock \<Rightarrow> errno + u32" where
  "mock_read_csr_u32 a m =
     (if unat a + 4 > 0x400 then Inl EINVAL
      else Inr (of_le32 (g_csr m (unat a)) (g_csr m (unat a + 1)) (g_csr m (unat a + 2)) (g_csr m (unat a + 3))))"

definition mock_write_csr_u32 :: "u16 \<Rightarrow> u32 \<Rightarrow> mock \<Rightarrow> (errno + unit) \<times> mock" where
  "mock_write_csr_u32 a v m =
     (if unat a + 4 > 0x400 then (Inl EINVAL, m) else (Inr (), m\<lparr>g_csr := mem_write (g_csr m) (unat a) (le32 v)\<rparr>))"

definition mock_esc_read :: "u16 \<Rightarrow> u16 \<Rightarrow> mock \<Rightarrow> errno + bytes" where
  "mock_esc_read ado len m =
     (if len = 0 then Inl EINVAL
      else if unat ado + unat len > 4096 then Inl EINVAL
      else Inr (mem_read (g_esc_core m) (unat ado) (unat len)))"

definition mock_esc_write :: "u16 \<Rightarrow> bytes \<Rightarrow> u16 \<Rightarrow> mock \<Rightarrow> (errno + unit) \<times> mock" where
  "mock_esc_write ado buf len m =
     (if len = 0 then (Inl EINVAL, m)
      else if unat ado + unat len > 4096 then (Inl EINVAL, m)
      else (Inr (), m\<lparr>g_esc_core := mem_write (g_esc_core m) (unat ado) (take (unat len) buf)\<rparr>))"

definition mock_pdram_read :: "u16 \<Rightarrow> u16 \<Rightarrow> mock \<Rightarrow> errno + bytes" where
  "mock_pdram_read offset len m =
     (if len = 0 then Inl EINVAL
      else if offset < 0x1000 then Inl EINVAL
      else
        let idx = unat offset - 0x1000 in
        if idx + unat len > 8192 then Inl EINVAL else Inr (mem_read (g_pdram m) idx (unat len)))"

definition mock_pdram_write :: "u16 \<Rightarrow> bytes \<Rightarrow> u16 \<Rightarrow> mock \<Rightarrow> (errno + unit) \<times> mock" where
  "mock_pdram_write offset buf len m =
     (if len = 0 then (Inl EINVAL, m)
      else if offset < 0x1000 then (Inl EINVAL, m)
      else
        let idx = unat offset - 0x1000 in
        if idx + unat len > 8192 then (Inl EINVAL, m)
        else (Inr (), m\<lparr>g_pdram := mem_write (g_pdram m) idx (take (unat len) buf)\<rparr>))"

text \<open>The double stands for a chip: registers and process data hold the same bytes.\<close>

definition stands_for :: "mock \<Rightarrow> spi_device \<Rightarrow> bool" where
  "stands_for m w \<longleftrightarrow> at_rest w \<and> (\<forall>i < 0x1000. g_esc_core m i = dev_mem w i) \<and>
     (\<forall>i < 0x2000. g_pdram m i = dev_mem w (0x1000 + i))"

lemma stands_read:
  "stands_for m w \<Longrightarrow> a + n \<le> 0x1000 \<Longrightarrow> mem_read (g_esc_core m) a n = mem_read (dev_mem w) a n"
  "stands_for m w \<Longrightarrow> 0x1000 \<le> b \<Longrightarrow> b - 0x1000 + n \<le> 0x2000 \<Longrightarrow> mem_read (g_pdram m) (b - 0x1000) n = mem_read (dev_mem w) b n"
  by (rule nth_equalityI; simp add: nth_mem_read stands_for_def)+

lemma mem_write_shift:
  assumes "k \<le> b" "g i = d (k + i)"
  shows "mem_write g (b - k) bs i = mem_write d b bs (k + i)"
proof -
  have "b - k \<le> i \<longleftrightarrow> b \<le> k + i" "i < b - k + length bs \<longleftrightarrow> k + i < b + length bs" "i - (b - k) = k + i - b"
    using assms(1) by auto
  then show ?thesis unfolding mem_write_apply assms(2) by simp
qed


section \<open>The chip behind a port\<close>

text \<open>
  A port is a bus to some hardware: in a session it passes every transfer on. Whatever the driver does
  through the port it then does to the hardware.
\<close>

locale spi_port = spi_session port idle busy for port :: "'p spi_hal" and idle busy :: "'p \<Rightarrow> bool" +
  fixes hal :: "'h spi_hal"
    and behind :: "'p \<Rightarrow> 'h"
  assumes port_select: "idle p \<Longrightarrow> fst (hal_select port p) = fst (hal_select hal (behind p)) \<and>
      behind (snd (hal_select port p)) = snd (hal_select hal (behind p))"
    and port_write: "busy p \<Longrightarrow> bs \<noteq> [] \<Longrightarrow> fst (hal_write port bs p) = fst (hal_write hal bs (behind p)) \<and>
      behind (snd (hal_write port bs p)) = snd (hal_write hal bs (behind p))"
    and port_read: "busy p \<Longrightarrow> n \<noteq> 0 \<Longrightarrow> fst (hal_read port n p) = fst (hal_read hal n (behind p)) \<and>
      fst (snd (hal_read port n p)) = fst (snd (hal_read hal n (behind p))) \<and>
      behind (snd (snd (hal_read port n p))) = snd (snd (hal_read hal n (behind p)))"
    and port_deselect: "busy p \<Longrightarrow> behind (hal_deselect port p) = hal_deselect hal (behind p)"
begin

definition same :: "('a, 'p) outcome \<Rightarrow> ('a, 'h) outcome \<Rightarrow> bool" where
  "same r s \<longleftrightarrow> s = (fst r, behind (snd r)) \<and> idle (snd r)"

lemma same_done: "idle p \<Longrightarrow> same (r, p) (r, behind p)"
  by (simp add: same_def)

lemma same_if: "(c \<Longrightarrow> same a a') \<Longrightarrow> (\<not> c \<Longrightarrow> same b b') \<Longrightarrow> same (if c then a else b) (if c then a' else b')"
  by simp

text \<open>One step inside a session, and the end of it.\<close>

lemma select_same:
  assumes "idle p" "\<And>p'. busy p' \<Longrightarrow> same (k p') (k' (behind p'))"
  shows "same (case hal_select port p of (r, p') \<Rightarrow> if r \<noteq> 0 then (Inl e, p') else k p')
    (case hal_select hal (behind p) of (r, h') \<Rightarrow> if r \<noteq> 0 then (Inl e, h') else k' h')"
proof -
  obtain r p' where s: "hal_select port p = (r, p')" by fastforce
  then have h: "hal_select hal (behind p) = (r, behind p')" using port_select [OF assms(1)] by (simp add: prod_eq_iff)
  show ?thesis
    using on_select [OF assms(1)] on_refuse [OF assms(1)] assms(2) [of p'] s by (cases "r = 0") (simp_all add: h same_def)
qed

lemma write_same:
  assumes "busy p" "bs \<noteq> []" "\<And>p'. busy p' \<Longrightarrow> same (k p') (k' (behind p'))"
  shows "same (case hal_write port bs p of (r, p') \<Rightarrow> if r \<noteq> 0 then (Inl e, hal_deselect port p') else k p')
    (case hal_write hal bs (behind p) of (r, h') \<Rightarrow> if r \<noteq> 0 then (Inl e, hal_deselect hal h') else k' h')"
proof -
  obtain r p' where s: "hal_write port bs p = (r, p')" by fastforce
  then have h: "hal_write hal bs (behind p) = (r, behind p')" using port_write [OF assms(1,2)] by (simp add: prod_eq_iff)
  have b: "busy p'" using on_write [OF assms(1), of bs] s by simp
  show ?thesis
    using port_deselect [OF b] on_deselect [OF b] assms(3) [OF b] s by (cases "r = 0") (simp_all add: h same_def)
qed

lemma read_same:
  assumes "busy p" "\<And>b p'. busy p' \<Longrightarrow> same (k b p') (k' b (behind p'))"
  shows "same (case hal_read port 4 p of (r, b, p') \<Rightarrow> if r \<noteq> 0 then (Inl e, hal_deselect port p') else k b p')
    (case hal_read hal 4 (behind p) of (r, b, h') \<Rightarrow> if r \<noteq> 0 then (Inl e, hal_deselect hal h') else k' b h')"
proof -
  obtain r b p' where s: "hal_read port 4 p = (r, b, p')" by (metis surj_pair)
  then have h: "hal_read hal 4 (behind p) = (r, b, behind p')" using port_read [OF assms(1), of 4] by (simp add: prod_eq_iff)
  have b: "busy p'" using on_read [OF assms(1), of 4] s by simp
  show ?thesis
    using port_deselect [OF b] on_deselect [OF b] assms(2) [OF b] s by (cases "r = 0") (simp_all add: h same_def)
qed

lemma end_same: "busy p \<Longrightarrow> same (r, hal_deselect port p) (r, hal_deselect hal (behind p))"
  by (simp add: same_def port_deselect on_deselect)

lemma reg32_read_same: "idle p \<Longrightarrow> same (reg32_read port a p) (reg32_read hal a (behind p))"
  unfolding reg32_read_def Let_def by (intro select_same write_same read_same end_same) simp_all

lemma reg32_write_same: "idle p \<Longrightarrow> same (reg32_write port a v p) (reg32_write hal a v (behind p))"
  unfolding reg32_write_def Let_def by (intro select_same write_same end_same) simp_all

lemma or_return_same:
  assumes "same r s" "\<And>x p. idle p \<Longrightarrow> same (k x p) (k' x (behind p))"
  shows "same (or_return e r k) (or_return e s k')"
  using assms by (cases r; cases "fst r") (auto simp: or_return_def same_def)

lemma poll_same: "idle p \<Longrightarrow> same (poll_reg port a d n p) (poll_reg hal a d n (behind p))"
proof (induction n arbitrary: p)
  case (Suc n)
  obtain r p' where r: "reg32_read port a p = (r, p')" by fastforce
  with reg32_read_same [OF Suc.prems, of a] have h: "reg32_read hal a (behind p) = (r, behind p')" "idle p'"
    by (simp_all add: same_def)
  then show ?case using Suc.IH [OF h(2)] by (cases r) (simp_all add: r same_done)
qed (simp add: same_done)

lemma esc_read_csr_same: "idle p \<Longrightarrow> same (esc_read_csr_u16 port a n p) (esc_read_csr_u16 hal a n (behind p))"
  unfolding esc_read_csr_u16_def csr_cmd_wait_not_busy_def
  by (intro or_return_same reg32_write_same reg32_read_same poll_same same_done) simp_all

lemma esc_write_csr_same: "idle p \<Longrightarrow> same (esc_write_csr_u16 port a bs n p) (esc_write_csr_u16 hal a bs n (behind p))"
  unfolding esc_write_csr_u16_def csr_cmd_wait_not_busy_def
  by (intro or_return_same reg32_write_same reg32_read_same poll_same same_done) simp_all

lemma read_burst_same: "busy p \<Longrightarrow> same (pram_read_burst port n f buf p) (pram_read_burst hal n f buf (behind p))"
proof (induction n arbitrary: f buf p rule: less_induct)
  case (less n)
  show ?case
    unfolding pram_read_burst.simps [of port n] pram_read_burst.simps [of hal n] Let_def
    by (intro same_if end_same read_same less.IH less.prems) simp_all
qed

lemma write_burst_same: "busy p \<Longrightarrow> same (pram_write_burst port n f buf p) (pram_write_burst hal n f buf (behind p))"
proof (induction n arbitrary: f buf p rule: less_induct)
  case (less n)
  show ?case
    unfolding pram_write_burst.simps [of port n] pram_write_burst.simps [of hal n] Let_def
    by (intro same_if end_same write_same less.IH less.prems) (simp_all add: le32_def)
qed

lemma pdram_read_same: "idle p \<Longrightarrow> same (lan9252_pdram_read port a n p) (lan9252_pdram_read hal a n (behind p))"
  unfolding lan9252_pdram_read_def pram_wait_rd_not_busy_def pram_rd_wait_avail_def Let_def
  by (intro same_if same_done or_return_same reg32_write_same reg32_read_same poll_same select_same write_same read_burst_same) simp_all

lemma pdram_write_same: "idle p \<Longrightarrow> same (lan9252_pdram_write port a bs n p) (lan9252_pdram_write hal a bs n (behind p))"
  unfolding lan9252_pdram_write_def pram_wait_wr_not_busy_def pram_wr_wait_avail_def Let_def
  by (intro same_if same_done or_return_same reg32_write_same reg32_read_same poll_same select_same write_same write_burst_same) simp_all

lemma soft_reset_same: "idle p \<Longrightarrow> same (lan9252_soft_reset port p) (lan9252_soft_reset hal (behind p))"
  unfolding lan9252_soft_reset_def by (intro or_return_same reg32_write_same poll_same)

text \<open>So a device behind a port is a device.\<close>

lemma device_behind:
  assumes "lan9252_device hal mem_of good"
  shows "lan9252_device port (\<lambda>p. mem_of (behind p)) (\<lambda>p. idle p \<and> good (behind p))"
proof
  note d = assms [unfolded lan9252_device_def]
  show "csr_access port (\<lambda>p. mem_of (behind p)) (\<lambda>p. idle p \<and> good (behind p))"
    unfolding csr_access_def
  proof (intro allI impI conjI, elim conjE)
    fix p and a n :: u16 assume p: "idle p" "good (behind p)" and n: "n \<in> {1, 2, 4}" "unat n dvd unat a"
    obtain h where "esc_read_csr_u16 hal a n (behind p) = (Inr (mem_read (mem_of (behind p)) (unat a) (unat n)), h)"
      "mem_of h = mem_of (behind p)" "good h"
      by (rule csr_read [OF conjunct1 [OF d] p(2) n])
    then show "\<exists>p'. esc_read_csr_u16 port a n p = (Inr (mem_read (mem_of (behind p)) (unat a) (unat n)), p') \<and>
        mem_of (behind p') = mem_of (behind p) \<and> idle p' \<and> good (behind p')"
      using esc_read_csr_same [OF p(1), of a n] by (auto simp: same_def prod_eq_iff)
  next
    fix p and a n :: u16 and bs :: bytes assume p: "(idle p \<and> good (behind p)) \<and> n \<in> {1, 2, 4} \<and> unat n dvd unat a" and l: "unat n \<le> length (bs :: bytes)"
    obtain h where "esc_write_csr_u16 hal a bs n (behind p) = (Inr (), h)"
      "mem_of h = mem_write (mem_of (behind p)) (unat a) (take (unat n) bs)" "good h"
      by (rule csr_write [OF conjunct1 [OF d] _ _ _ l]) (use p in auto)
    then show "\<exists>p'. esc_write_csr_u16 port a bs n p = (Inr (), p') \<and>
        mem_of (behind p') = mem_write (mem_of (behind p)) (unat a) (take (unat n) bs) \<and> idle p' \<and> good (behind p')"
      using esc_write_csr_same [of p a bs n] p by (auto simp: same_def prod_eq_iff)
  qed
next
  fix p and n a :: u16 assume p: "idle p \<and> good (behind p)" "n \<noteq> 0" "in_ram a (unat n)"
  then show "\<exists>p'. lan9252_pdram_read port a n p = (Inr (mem_read (mem_of (behind p)) (unat a) (unat n)), p') \<and>
      mem_of (behind p') = mem_of (behind p) \<and> idle p' \<and> good (behind p')"
    using lan9252_device.ram_read [OF assms, of "behind p" n a] pdram_read_same [of p a n] by (auto simp: same_def prod_eq_iff)
next
  fix p and n a :: u16 and bs :: bytes assume p: "idle p \<and> good (behind p)" "n \<noteq> 0" "in_ram a (unat n)" "length bs = unat n"
  then show "\<exists>p'. lan9252_pdram_write port a bs n p = (Inr (), p') \<and>
      mem_of (behind p') = mem_write (mem_of (behind p)) (unat a) bs \<and> idle p' \<and> good (behind p')"
    using lan9252_device.ram_write [OF assms, of "behind p" n a bs] pdram_write_same [of p a bs n] by (auto simp: same_def prod_eq_iff)
qed

end

section \<open>The chip on the NuttX port\<close>

text \<open>\<open>SPI_SELECT\<close> drives the chip-select line; the bus calls reach the chip.\<close>

definition chip_nuttx :: "spi_device nuttx_drv" where
  "chip_nuttx =
     \<lparr>SPI_LOCK = \<lambda>_ d. d,
      SPI_SELECT = \<lambda>_ on d. (if on then snd (hal_select device_hal d) else hal_deselect device_hal d),
      SPI_SNDBLOCK = device_write,
      SPI_RECVBLOCK = device_read\<rparr>"

definition nuttx_chip :: "spi_device nuttx_hal \<Rightarrow> spi_device" where
  "nuttx_chip h = the (g_spidev h)"

definition nuttx_bound :: "spi_device nuttx_hal \<Rightarrow> bool" where
  "nuttx_bound h \<longleftrightarrow> g_spidev h \<noteq> None \<and> g_inited h"

interpretation np: spi_port "nuttx_spi_hal chip_nuttx" "\<lambda>h. nuttx_bound h \<and> bus_free h" "\<lambda>h. nuttx_bound h \<and> bus_taken h"
  device_hal nuttx_chip
  by unfold_locales
    (auto simp: nuttx_spi_hal_def nuttx_spi_select_def nuttx_spi_deselect_def nuttx_spi_write_def nuttx_spi_read_def
      nuttx_bound_def bus_free_def bus_taken_def nuttx_chip_def chip_nuttx_def device_hal_def Let_def
      split: prod.splits if_splits option.splits)

interpretation ndev: lan9252_device "nuttx_spi_hal chip_nuttx" "\<lambda>h. dev_mem (nuttx_chip h)"
  "\<lambda>h. (nuttx_bound h \<and> bus_free h) \<and> at_rest (nuttx_chip h)"
  by (rule np.device_behind) unfold_locales

section \<open>The chip on the Zephyr port\<close>

text \<open>
  The chip's select input is low-active. The logical level that \<open>gpio_pin_set_dt\<close> takes is the physical
  one for a line described as active-high, and its opposite for one described as active-low.
\<close>

definition chip_zephyr :: "bool \<Rightarrow> spi_device zephyr_drv" where
  "chip_zephyr active_low =
     (let line = (\<lambda>v d. (0, if v = active_low then snd (hal_select device_hal d) else hal_deselect device_hal d)) in
      \<lparr>spi_is_ready = \<lambda>_. True, has_cs_gpio = \<lambda>_. True, gpio_configure = line, gpio_set = line,
       mutex_lock = \<lambda>d. (0, d), drv_write = \<lambda>bs d. (0, device_write bs d),
       drv_read = \<lambda>n d. (0, device_read n d)\<rparr>)"

interpretation zp: spi_port "zephyr_spi_hal (chip_zephyr False)" "\<lambda>h. g_hal_ready h \<and> g_spi_mtx h = 0"
  "\<lambda>h. g_hal_ready h \<and> g_spi_mtx h = 1" device_hal zdev
  by unfold_locales
    (auto simp: zephyr_spi_hal_def zephyr_spi_select_def zephyr_spi_deselect_def zephyr_spi_write_def zephyr_spi_read_def
      drive_cs_def chip_zephyr_def device_hal_def Let_def split: prod.splits if_splits)

interpretation zdev: lan9252_device "zephyr_spi_hal (chip_zephyr False)" "\<lambda>h. dev_mem (zdev h)"
  "\<lambda>h. (g_hal_ready h \<and> g_spi_mtx h = 0) \<and> at_rest (zdev h)"
  by (rule zp.device_behind) unfold_locales


section \<open>A chip-select line described as active-low\<close>

lemma low_read:
  assumes "g_hal_ready h"
  shows "\<exists>h'. reg32_read (zephyr_spi_hal (chip_zephyr True)) a h = (Inr (- 1), h') \<and> g_hal_ready h' \<and> snd (zdev h') = snd (zdev h)"
proof -
  have "of_le32 0xFF 0xFF 0xFF 0xFF = (- 1 :: u32)" by (simp add: of_le32_def)
  then show ?thesis
    using assms by (cases "zdev h")
      (simp add: reg32_read_def zephyr_spi_hal_def zephyr_spi_select_def zephyr_spi_deselect_def zephyr_spi_write_def
        zephyr_spi_read_def drive_cs_def chip_zephyr_def device_hal_def device_write_def device_read_def Let_def)
qed

lemma low_write:
  assumes "g_hal_ready h"
  shows "\<exists>h'. reg32_write (zephyr_spi_hal (chip_zephyr True)) a v h = (Inr (), h') \<and> g_hal_ready h' \<and> snd (zdev h') = snd (zdev h)"
  using assms by (cases "zdev h")
    (simp add: reg32_write_def zephyr_spi_hal_def zephyr_spi_select_def zephyr_spi_deselect_def zephyr_spi_write_def
      drive_cs_def chip_zephyr_def device_hal_def device_write_def Let_def)

lemma low_poll:
  assumes "\<not> done (- 1)"
  shows "g_hal_ready h \<Longrightarrow> \<exists>h'. poll_reg (zephyr_spi_hal (chip_zephyr True)) a done n h = (Inl ETIMEDOUT, h') \<and>
    g_hal_ready h' \<and> snd (zdev h') = snd (zdev h)"
proof (induction n arbitrary: h)
  case (Suc n)
  obtain h1 where 1: "reg32_read (zephyr_spi_hal (chip_zephyr True)) a h = (Inr (- 1), h1)" "g_hal_ready h1" "snd (zdev h1) = snd (zdev h)"
    using low_read [OF Suc.prems] by blast
  show ?case using Suc.IH [OF 1(2)] 1 assms by simp
qed simp

lemma all_ones_busy: "\<not> (- 1) AND LAN9252_ESC_CSR_CMD_BUSY = (0 :: u32)"
  by simp


section \<open>Witnesses\<close>

text \<open>A chip that needs 7 reads after each command, with \<open>0xAB\<close> in its first process data byte.\<close>

definition demo_device :: device where
  "demo_device = \<lparr>d_mem = (\<lambda>_. 0)(0x1000 := 0xAB), d_data = [], d_rdreg = (0, 0), d_wrreg = (0, 0), d_rd = (0, 0), d_wr = (0, 0),
     d_wait = 0, d_lat = 7\<rparr>"

definition demo_nuttx_chip :: "spi_device nuttx_hal" where
  "demo_nuttx_chip = \<lparr>g_spidev = Some (Released, demo_device), g_devid = 0, g_inited = True, spi_locked = False, spi_selected = False\<rparr>"

definition demo_zephyr_chip :: "spi_device zephyr_hal" where
  "demo_zephyr_chip = \<lparr>zdev = (Released, demo_device), g_hal_ready = True, g_spi_mtx = 0, cs_level = False\<rparr>"

lemma demo_chips: "at_rest (Released, demo_device)" "nuttx_bound demo_nuttx_chip" "bus_free demo_nuttx_chip"
  "nuttx_chip demo_nuttx_chip = (Released, demo_device)" "g_hal_ready demo_zephyr_chip" "g_spi_mtx demo_zephyr_chip = 0"
  "zdev demo_zephyr_chip = (Released, demo_device)" "dev_mem (Released, demo_device) = (\<lambda>_. 0)(0x1000 := 0xAB)"
  by (simp_all add: demo_device_def demo_nuttx_chip_def demo_zephyr_chip_def at_rest_def nuttx_bound_def bus_free_def
      nuttx_chip_def dev_mem_def)



definition demo_mock :: mock where
  "demo_mock = \<lparr>g_esc_core = \<lambda>_. 0, g_pdram = (\<lambda>_. 0)(0 := 0xAB), g_csr = \<lambda>_. 0\<rparr>"

lemma demo_mock: "stands_for demo_mock (Released, demo_device)" "mock_pdram_read 0x1000 2 demo_mock = Inr [0xAB, 0]"
  by (simp_all add: demo_mock_def stands_for_def demo_chips mock_pdram_read_def Let_def mem_read_numeral mem_read_Suc)


end
