(* ===== verification/Master.thy ===== *)
theory Master
  imports Wire Esc
begin

text \<open>
  The master's state and its blocking accesses: \<open>src/master/ul_ecat_master.c\<close>, the parts
  "Blocking raw exchange" and "Network scan", and the AL state requests.

  Everything below the master is a parameter: a \<open>port\<close> holds the calls of \<open>ul_ecat_transport.h\<close>
  and \<open>ul_ecat_osal.h\<close> the master makes, as functions on an arbitrary outside world. A received
  frame is a byte string, \<^const>\<open>None\<close> for a negative result. \<open>stack_bytes\<close> is what an
  uninitialised automatic array happens to hold; the code reads such bytes when a reply is shorter
  than what was asked for, and the properties hold whatever they are.

  The file-scope variables are the fields of one record. The database is the list of its first
  \<open>slave_count\<close> elements, the datagram and event queues likewise; the C code never reads
  past the counts. The locks make the operations below atomic with respect to each other, so an
  operation is a function on the record. Trace output is left out.
\<close>

section \<open>The outside\<close>

record 't port =
  transport_open :: "string \<Rightarrow> 't \<Rightarrow> int \<times> 't"
  transport_close :: "int \<Rightarrow> 't \<Rightarrow> 't"
  transport_send :: "int \<Rightarrow> bytes \<Rightarrow> 't \<Rightarrow> int \<times> 't"
  transport_recv :: "int \<Rightarrow> nat \<Rightarrow> bool \<Rightarrow> 't \<Rightarrow> bytes option \<times> 't"
  transport_wait_readable :: "int \<Rightarrow> int \<Rightarrow> 't \<Rightarrow> int \<times> 't"
  osal_monotonic_ns :: "'t \<Rightarrow> u64 \<times> 't"
  osal_sleep_us :: "nat \<Rightarrow> 't \<Rightarrow> 't"
  osal_init :: "'t \<Rightarrow> 't"
  osal_shutdown :: "'t \<Rightarrow> 't"
  osal_realtime_hint :: "int \<Rightarrow> 't \<Rightarrow> 't"
  osal_worker_start :: "int \<Rightarrow> 't \<Rightarrow> int \<times> 't"
  osal_worker_join :: "'t \<Rightarrow> 't"
  stack_bytes :: "nat \<Rightarrow> 't \<Rightarrow> bytes"

section \<open>State\<close>

abbreviation UL_ECAT_SLAVE_STATE_INIT :: u32 where "UL_ECAT_SLAVE_STATE_INIT \<equiv> 1"
abbreviation UL_ECAT_MAX_SLAVES :: nat where "UL_ECAT_MAX_SLAVES \<equiv> 16"
abbreviation Q_MAX :: nat where "Q_MAX \<equiv> 32"
abbreviation DGRAM_BUF :: nat where "DGRAM_BUF \<equiv> 512"
abbreviation MAX_EVENTS :: nat where "MAX_EVENTS \<equiv> 64"

record mslave =
  station_address :: u16
  m_state :: u32
  m_vendor_id :: u32
  m_product_code :: u32
  m_revision_no :: u32
  m_serial_no :: u32
  m_device_name :: string

record esi_device =
  ed_vendor_id :: u32
  ed_product_code :: u32
  ed_revision_no :: u32
  ed_serial_no :: u32
  ed_device_name :: string

datatype dc_event = UL_ECAT_DC_EVENT_INIT | UL_ECAT_DC_EVENT_SYNC | UL_ECAT_DC_EVENT_ERROR

record dc_event_info =
  dc_event_kind :: dc_event
  offset_ns :: u64
  dc_error :: nat

record eth_frame =
  fr_dst_mac :: bytes
  fr_src_mac :: bytes
  fr_ethertype :: u16
  fr_payload :: bytes

datatype event = EV_DC dc_event_info | EV_FRAME eth_frame nat

record 't master =
  world :: 't
  g_sockfd :: int
  g_dst_mac :: bytes
  g_src_mac :: bytes
  g_running :: bool
  g_dc_state :: nat
  g_dc_offset :: u64
  g_dc_timeout :: nat
  g_dc_error_code :: nat
  g_slaves_db :: "mslave list"
  g_esi_lib :: "esi_device list"
  g_q :: "bytes list"
  g_dgram_index_seq :: byte
  g_evt_queue :: "event list"
  g_evt_stop :: bool
  g_cb_dc :: bool
  g_cb_fr :: bool
  delivered :: "event list"

text \<open>A call of the port on the world inside the master.\<close>

definition on_world :: "('t \<Rightarrow> 'a \<times> 't) \<Rightarrow> 't master \<Rightarrow> 'a \<times> 't master" where
  "on_world f m = (let (r, w) = f (world m) in (r, m\<lparr>world := w\<rparr>))"

section \<open>Blocking raw exchange\<close>

definition send_ec_payload :: "'t port \<Rightarrow> bytes \<Rightarrow> 't master \<Rightarrow> int \<times> 't master" where
  "send_ec_payload port ec m =
     (case ul_ecat_build_eth_frame (g_dst_mac m) (g_src_mac m) ec 1600 of
        None \<Rightarrow> (-1, m)
      | Some frame \<Rightarrow> on_world (transport_send port (g_sockfd m) frame) m)"

definition recv_eth_frame :: "'t port \<Rightarrow> nat \<Rightarrow> int \<Rightarrow> 't master \<Rightarrow> bytes option \<times> 't master" where
  "recv_eth_frame port cap timeout_ms m =
     (let (w, m1) = on_world (transport_wait_readable port (g_sockfd m) timeout_ms) m in
      if w \<le> 0 then (None, m1)
      else on_world (transport_recv port (g_sockfd m) cap False) m1)"

definition exchange_ec_payload ::
  "'t port \<Rightarrow> bytes \<Rightarrow> nat \<Rightarrow> int \<Rightarrow> 't master \<Rightarrow> bytes option \<times> 't master" where
  "exchange_ec_payload port ec resp_cap timeout_ms m =
     (let (sent, m1) = send_ec_payload port ec m in
      if sent < 0 then (None, m1)
      else
        let (rx, m2) = recv_eth_frame port 1600 timeout_ms m1 in
        case rx of
          None \<Rightarrow> (None, m2)
        | Some frame \<Rightarrow>
            (case ul_ecat_parse_eth_frame frame of
               None \<Rightarrow> None
             | Some pdu \<Rightarrow> if length pdu > resp_cap then None else Some pdu, m2))"

text \<open>What \<open>memcpy\<close> of \<open>new\<close> into a buffer that holds \<open>old\<close> leaves there.\<close>

definition overlay :: "bytes \<Rightarrow> bytes \<Rightarrow> bytes" where
  "overlay new old = new @ drop (length new) old"

definition fprd_blocking ::
  "'t port \<Rightarrow> u16 \<Rightarrow> u16 \<Rightarrow> bytes \<Rightarrow> u16 \<Rightarrow> int \<Rightarrow> 't master \<Rightarrow> (u16 \<times> bytes) option \<times> 't master" where
  "fprd_blocking port station ado out len timeout_ms m =
     (case ul_ecat_dgram_encode 512 UL_ECAT_CMD_FPRD 0 station ado len 0 0 None of
        None \<Rightarrow> (None, m)
      | Some dg \<Rightarrow>
          let (resp, m1) = exchange_ec_payload port dg 512 timeout_ms m in
          (case resp of
             None \<Rightarrow> None
           | Some r \<Rightarrow> map_option (\<lambda>d. (d_wkc d, overlay (d_data d) out)) (ul_ecat_dgram_parse r 0 (Some (unat len))),
           m1))"

text \<open>\<open>fpwr_blocking\<close> and \<open>apwr_blocking\<close> differ only in the command byte.\<close>

definition write_blocking ::
  "'t port \<Rightarrow> byte \<Rightarrow> u16 \<Rightarrow> u16 \<Rightarrow> bytes \<Rightarrow> u16 \<Rightarrow> int \<Rightarrow> 't master \<Rightarrow> u16 option \<times> 't master" where
  "write_blocking port cmd adp ado data len timeout_ms m =
     (case ul_ecat_dgram_encode 512 cmd 0 adp ado len 0 0 (Some data) of
        None \<Rightarrow> (None, m)
      | Some dg \<Rightarrow>
          let (resp, m1) = exchange_ec_payload port dg 512 timeout_ms m in
          (case resp of
             None \<Rightarrow> None
           | Some r \<Rightarrow> map_option d_wkc (ul_ecat_dgram_parse r 0 None), m1))"

definition fpwr_blocking ::
  "'t port \<Rightarrow> u16 \<Rightarrow> u16 \<Rightarrow> bytes \<Rightarrow> u16 \<Rightarrow> int \<Rightarrow> 't master \<Rightarrow> u16 option \<times> 't master" where
  "fpwr_blocking port = write_blocking port UL_ECAT_CMD_FPWR"

definition apwr_blocking ::
  "'t port \<Rightarrow> u16 \<Rightarrow> u16 \<Rightarrow> bytes \<Rightarrow> u16 \<Rightarrow> int \<Rightarrow> 't master \<Rightarrow> u16 option \<times> 't master" where
  "apwr_blocking port = write_blocking port UL_ECAT_CMD_APWR"

text \<open>The public accesses; the buffer is \<^const>\<open>None\<close> for \<open>NULL\<close>, and its length is \<open>out_cap\<close>.\<close>

definition ul_ecat_fprd_sync ::
  "'t port \<Rightarrow> u16 \<Rightarrow> u16 \<Rightarrow> u16 \<Rightarrow> bytes option \<Rightarrow> int \<Rightarrow> 't master \<Rightarrow> (nat option \<times> bytes option) \<times> 't master" where
  "ul_ecat_fprd_sync port adp ado len out timeout_ms m =
     (case out of
        None \<Rightarrow> ((None, out), m)
      | Some buf \<Rightarrow>
          if len = 0 \<or> length buf < unat len \<or> g_sockfd m < 0 then ((None, out), m)
          else if len > 512 then ((None, out), m)
          else
            (case fprd_blocking port adp ado buf len timeout_ms m of
               (None, m1) \<Rightarrow> ((None, out), m1)
             | (Some (wkc, buf'), m1) \<Rightarrow>
                 if wkc < 1 then ((None, Some buf'), m1) else ((Some (unat len), Some buf'), m1)))"

definition ul_ecat_fpwr_sync ::
  "'t port \<Rightarrow> u16 \<Rightarrow> u16 \<Rightarrow> bytes option \<Rightarrow> u16 \<Rightarrow> int \<Rightarrow> 't master \<Rightarrow> bool \<times> 't master" where
  "ul_ecat_fpwr_sync port adp ado data len timeout_ms m =
     (case data of
        None \<Rightarrow> (False, m)
      | Some d \<Rightarrow>
          if len = 0 \<or> g_sockfd m < 0 then (False, m)
          else if len > 512 then (False, m)
          else
            (case fpwr_blocking port adp ado d len timeout_ms m of
               (None, m1) \<Rightarrow> (False, m1)
             | (Some wkc, m1) \<Rightarrow> (\<not> wkc < 1, m1)))"

section \<open>AL state requests\<close>

definition read_al_status_blocking :: "'t port \<Rightarrow> u16 \<Rightarrow> int \<Rightarrow> 't master \<Rightarrow> u16 option \<times> 't master" where
  "read_al_status_blocking port station timeout_ms m =
     (case fprd_blocking port station 0x0130 (stack_bytes port 2 (world m)) 2 timeout_ms m of
        (None, m1) \<Rightarrow> (None, m1)
      | (Some (wkc, raw), m1) \<Rightarrow> if wkc < 1 then (None, m1) else (Some (r16_le raw 0), m1))"

definition write_al_control_blocking :: "'t port \<Rightarrow> u16 \<Rightarrow> u16 \<Rightarrow> int \<Rightarrow> 't master \<Rightarrow> bool \<times> 't master" where
  "write_al_control_blocking port station req_bits timeout_ms m =
     (case fpwr_blocking port station 0x0120 (le16 req_bits) 2 timeout_ms m of
        (None, m1) \<Rightarrow> (False, m1)
      | (Some wkc, m1) \<Rightarrow> (\<not> wkc < 1, m1))"

definition sleep_step :: "'t port \<Rightarrow> 't master \<Rightarrow> 't master" where
  "sleep_step port m = m\<lparr>world := osal_sleep_us port 20000 (world m)\<rparr>"

definition set_state :: "nat \<Rightarrow> u32 \<Rightarrow> 't master \<Rightarrow> 't master" where
  "set_state i st m = m\<lparr>g_slaves_db := (g_slaves_db m)[i := (g_slaves_db m ! i)\<lparr>m_state := st\<rparr>]\<rparr>"

function poll_from :: "'t port \<Rightarrow> nat \<Rightarrow> u32 \<Rightarrow> int \<Rightarrow> int \<Rightarrow> 't master \<Rightarrow> bool \<times> 't master" where
  "poll_from port i desired timeout_ms elapsed m =
     (if elapsed < timeout_ms then
        case read_al_status_blocking port (station_address (g_slaves_db m ! i)) 200 m of
          (None, m1) \<Rightarrow> poll_from port i desired timeout_ms (elapsed + 20) (sleep_step port m1)
        | (Some alst, m1) \<Rightarrow>
            if ul_ecat_al_status_error_indicated alst then (False, m1)
            else if ucast (ul_ecat_al_status_state alst) = desired then (True, set_state i desired m1)
            else poll_from port i desired timeout_ms (elapsed + 20) (sleep_step port m1)
      else (False, m))"
  by pat_completeness auto
termination
  by (relation "measure (\<lambda>(_, _, _, timeout_ms, elapsed, _). nat (timeout_ms - elapsed))") auto

declare poll_from.simps [simp del]

definition ul_ecat_poll_slave_state :: "'t port \<Rightarrow> int \<Rightarrow> u32 \<Rightarrow> int \<Rightarrow> 't master \<Rightarrow> bool \<times> 't master" where
  "ul_ecat_poll_slave_state port slave_index desired timeout_ms m =
     (if slave_index < 0 \<or> slave_index \<ge> int (length (g_slaves_db m)) then (False, m)
      else poll_from port (nat slave_index) desired timeout_ms 0 m)"

definition ul_ecat_request_slave_state_mailbox :: "'t port \<Rightarrow> int \<Rightarrow> u32 \<Rightarrow> 't master \<Rightarrow> bool \<times> 't master" where
  "ul_ecat_request_slave_state_mailbox port slave_index state m =
     (if slave_index < 0 \<or> slave_index \<ge> int (length (g_slaves_db m)) then (False, m)
      else
        let station = station_address (g_slaves_db m ! nat slave_index);
            nibble = ucast (state AND 0x0F) :: byte;
            (ok1, m1) = write_al_control_blocking port station (ul_ecat_al_control_word nibble False) 500 m in
        if \<not> ok1 then (False, m1)
        else
          let (ok2, m2) = ul_ecat_poll_slave_state port slave_index state 3000 m1 in
          if \<not> ok2 then (False, m2)
          else write_al_control_blocking port station (ul_ecat_al_control_word nibble True) 500 m2)"

definition ul_ecat_request_slave_state :: "'t port \<Rightarrow> int \<Rightarrow> u32 \<Rightarrow> 't master \<Rightarrow> bool \<times> 't master" where
  "ul_ecat_request_slave_state = ul_ecat_request_slave_state_mailbox"

section \<open>Network scan\<close>

text \<open>One identity register; \<open>tmp\<close> is the buffer the four reads share.\<close>

definition read_identity :: "'t port \<Rightarrow> u16 \<Rightarrow> u16 \<Rightarrow> bytes \<Rightarrow> 't master \<Rightarrow> u32 \<times> bytes \<times> 't master" where
  "read_identity port station reg tmp m =
     (case fprd_blocking port station reg tmp 4 200 m of
        (None, m1) \<Rightarrow> (0, tmp, m1)
      | (Some (wkc, tmp'), m1) \<Rightarrow>
          (if wkc \<ge> 1 then of_le32 (tmp' ! 0) (tmp' ! 1) (tmp' ! 2) (tmp' ! 3) else 0, tmp', m1))"

fun scan_positions :: "'t port \<Rightarrow> nat list \<Rightarrow> 't master \<Rightarrow> 't master" where
  "scan_positions port [] m = m"
| "scan_positions port (pos # ps) m =
     (let station = word_of_nat (0x1000 + pos) in
      case apwr_blocking port (word_of_nat pos) 0x0010 (le16 station) 2 200 m of
        (None, m1) \<Rightarrow> m1
      | (Some wkc, m1) \<Rightarrow>
          if wkc < 1 then m1
          else
            let (vid, t1, m2) = read_identity port station 0x0012 (stack_bytes port 4 (world m1)) m1;
                (pid, t2, m3) = read_identity port station 0x0016 t1 m2;
                (rev, t3, m4) = read_identity port station 0x001A t2 m3;
                (ser, t4, m5) = read_identity port station 0x001E t3 m4 in
            scan_positions port ps
              (m5\<lparr>g_slaves_db := g_slaves_db m5
                   @ [\<lparr>station_address = station, m_state = UL_ECAT_SLAVE_STATE_INIT, m_vendor_id = vid,
                       m_product_code = pid, m_revision_no = rev, m_serial_no = ser, m_device_name = []\<rparr>]\<rparr>))"

definition ul_ecat_scan_network :: "'t port \<Rightarrow> 't master \<Rightarrow> 't master" where
  "ul_ecat_scan_network port m =
     scan_positions port [0 ..< UL_ECAT_MAX_SLAVES] (m\<lparr>g_slaves_db := []\<rparr>)"

end
