(* ===== verification/MasterCycle.thy ===== *)
theory MasterCycle
  imports Master
begin

text \<open>
  The cyclic part of \<open>src/master/ul_ecat_master.c\<close>: distributed clocks, the datagram queue and its
  batched transmission, reception, the periodic thread, the event queue and its loop, start-up and
  shutdown.

  Loops that may run forever (draining the transport, the periodic thread, the event loop, and
  packing a queue entry that fits no frame) are partial functions into \<^typ>\<open>'a option\<close>: \<^const>\<open>None\<close> is not
  returning. What other threads do to the shared variables while a loop waits or sleeps is the
  parameter \<open>others\<close>. \<open>int64_t\<close> is its 64-bit word, on a little-endian machine whose signed
  arithmetic wraps around.
\<close>

section \<open>Event queue\<close>

definition post_evt :: "event \<Rightarrow> 't master \<Rightarrow> bool \<times> 't master" where
  "post_evt e m =
     (if length (g_evt_queue m) < MAX_EVENTS then (True, m\<lparr>g_evt_queue := g_evt_queue m @ [e]\<rparr>)
      else (False, m))"

definition ul_ecat_eventloop_post_dc_event :: "dc_event_info \<Rightarrow> 't master \<Rightarrow> 't master" where
  "ul_ecat_eventloop_post_dc_event info m = snd (post_evt (EV_DC info) m)"

definition ul_ecat_eventloop_post_frame_event :: "eth_frame \<Rightarrow> nat \<Rightarrow> 't master \<Rightarrow> 't master" where
  "ul_ecat_eventloop_post_frame_event fr flen m = snd (post_evt (EV_FRAME fr flen) m)"

definition ul_ecat_register_dc_callback :: "bool \<Rightarrow> 't master \<Rightarrow> 't master" where
  "ul_ecat_register_dc_callback cb m = m\<lparr>g_cb_dc := cb\<rparr>"

definition ul_ecat_register_frame_callback :: "bool \<Rightarrow> 't master \<Rightarrow> 't master" where
  "ul_ecat_register_frame_callback cb m = m\<lparr>g_cb_fr := cb\<rparr>"

definition ul_ecat_eventloop_stop :: "'t master \<Rightarrow> 't master" where
  "ul_ecat_eventloop_stop m = m\<lparr>g_evt_stop := True\<rparr>"

text \<open>
  One pass of the loop body: it stops, finds nothing and waits, or takes the oldest event and
  passes it to the callback registered for its kind, if there is one.
\<close>

datatype pass = Stopped | Waiting | Taken event

fun handles :: "'t master \<Rightarrow> event \<Rightarrow> bool" where
  "handles m (EV_DC _) = g_cb_dc m"
| "handles m (EV_FRAME _ _) = g_cb_fr m"

definition eventloop_pass :: "'t master \<Rightarrow> pass \<times> 't master" where
  "eventloop_pass m =
     (if g_evt_stop m then (Stopped, m)
      else case g_evt_queue m of
             [] \<Rightarrow> (Waiting, m)
           | e # es \<Rightarrow>
               (Taken e, m\<lparr>g_evt_queue := es,
                           delivered := delivered m @ (if handles m e then [e] else [])\<rparr>))"

partial_function (option) eventloop_from ::
  "('t master \<Rightarrow> 't master) \<Rightarrow> 't master \<Rightarrow> 't master option" where
  "eventloop_from others m =
     (case eventloop_pass m of
        (Stopped, m1) \<Rightarrow> Some m1
      | (_, m1) \<Rightarrow> eventloop_from others (others m1))"

definition ul_ecat_eventloop_run :: "('t master \<Rightarrow> 't master) \<Rightarrow> 't master \<Rightarrow> 't master option" where
  "ul_ecat_eventloop_run others m = eventloop_from others (m\<lparr>g_evt_stop := False\<rparr>)"

section \<open>Datagram queue\<close>

definition q_push_encoded :: "bytes \<Rightarrow> 't master \<Rightarrow> bool \<times> 't master" where
  "q_push_encoded wire m =
     (if length (g_q m) \<ge> Q_MAX then (False, m)
      else if length wire > DGRAM_BUF then (False, m)
      else (True, m\<lparr>g_q := g_q m @ [wire]\<rparr>))"

definition queue_dgram :: "byte \<Rightarrow> u16 \<Rightarrow> u16 \<Rightarrow> bytes option \<Rightarrow> u16 \<Rightarrow> 't master \<Rightarrow> 't master" where
  "queue_dgram cmd adp ado data len m =
     (let m1 = m\<lparr>g_dgram_index_seq := g_dgram_index_seq m + 1\<rparr> in
      case ul_ecat_dgram_encode DGRAM_BUF cmd (g_dgram_index_seq m) adp ado len 0 0 data of
        None \<Rightarrow> m1
      | Some tmp \<Rightarrow> snd (q_push_encoded tmp m1))"

definition ul_ecat_queue_fprd :: "u16 \<Rightarrow> u16 \<Rightarrow> u16 \<Rightarrow> 't master \<Rightarrow> 't master" where
  "ul_ecat_queue_fprd adp ado len = queue_dgram UL_ECAT_CMD_FPRD adp ado None len"

definition ul_ecat_queue_fpwr :: "u16 \<Rightarrow> u16 \<Rightarrow> bytes \<Rightarrow> u16 \<Rightarrow> 't master \<Rightarrow> 't master" where
  "ul_ecat_queue_fpwr adp ado data len = queue_dgram UL_ECAT_CMD_FPWR adp ado (Some data) len"

section \<open>Distributed clocks\<close>

abbreviation g_dc_threshold_ns :: int where "g_dc_threshold_ns \<equiv> 5000000"

definition dc_init :: "'t master \<Rightarrow> 't master" where
  "dc_init m =
     ul_ecat_eventloop_post_dc_event
       \<lparr>dc_event_kind = UL_ECAT_DC_EVENT_INIT, offset_ns = 0, dc_error = 0\<rparr>
       (m\<lparr>g_dc_state := 1, g_dc_offset := 0, g_dc_timeout := 0, g_dc_error_code := 0\<rparr>)"

definition dc_cycle :: "'t master \<Rightarrow> 't master" where
  "dc_cycle m =
     (if g_dc_state m = 0 then m
      else if g_dc_state m = 3 then m
      else
        let m1 = (if g_dc_state m = 1 then m\<lparr>g_dc_state := 2\<rparr> else m) in
        if g_dc_state m1 = 2 then
          let m2 = ul_ecat_queue_fprd 0x0000 0x0910 8 m1;
              m3 = m2\<lparr>g_dc_timeout := g_dc_timeout m2 + 1\<rparr> in
          if g_dc_timeout m3 > 50 then
            ul_ecat_eventloop_post_dc_event
              \<lparr>dc_event_kind = UL_ECAT_DC_EVENT_ERROR, offset_ns = g_dc_offset m3, dc_error = 2\<rparr>
              (m3\<lparr>g_dc_error_code := 2, g_dc_state := 3\<rparr>)
          else m3
        else m1)"

text \<open>\<open>llabs\<close>, which leaves the most negative value as it is.\<close>

definition llabs :: "u64 \<Rightarrow> int" where
  "llabs x = sint (if sint x < 0 then - x else x)"

definition handle_dc_response :: "'t port \<Rightarrow> u64 \<Rightarrow> 't master \<Rightarrow> 't master" where
  "handle_dc_response port slave_time_ns m =
     (let (now, m1) = on_world (osal_monotonic_ns port) m;
          off = slave_time_ns - now;
          m2 = m1\<lparr>g_dc_offset := off, g_dc_timeout := 0\<rparr> in
      if llabs off > g_dc_threshold_ns then
        ul_ecat_eventloop_post_dc_event
          \<lparr>dc_event_kind = UL_ECAT_DC_EVENT_ERROR, offset_ns = off, dc_error = 1\<rparr>
          (m2\<lparr>g_dc_error_code := 1, g_dc_state := 3\<rparr>)
      else
        ul_ecat_eventloop_post_dc_event
          \<lparr>dc_event_kind = UL_ECAT_DC_EVENT_SYNC, offset_ns = off, dc_error = 0\<rparr>
          (ul_ecat_queue_fpwr 0x0000 0x0920 (le32 (ucast (- off))) 4 m2))"

section \<open>Batched transmission\<close>

text \<open>The inner loop: queue entries from the front while they fit the payload.\<close>

fun fill_payload :: "bytes list \<Rightarrow> bytes \<Rightarrow> bytes \<times> bytes list" where
  "fill_payload [] ec_buf = (ec_buf, [])"
| "fill_payload (d # ds) ec_buf =
     (if length ec_buf + length d > UL_ECAT_MAX_EC_PAYLOAD then (ec_buf, d # ds)
      else fill_payload ds (ec_buf @ d))"

partial_function (option) batch_loop :: "'t port \<Rightarrow> bytes list \<Rightarrow> 't master \<Rightarrow> 't master option" where
  "batch_loop port q m =
     (if q = [] then Some m
      else
        let (ec_buf, rest) = fill_payload q [] in
        case ul_ecat_build_eth_frame (g_dst_mac m) (g_src_mac m) ec_buf 1600 of
          None \<Rightarrow> Some m
        | Some frame \<Rightarrow> batch_loop port rest (snd (on_world (transport_send port (g_sockfd m) frame) m)))"

definition ul_ecat_send_batched_frames :: "'t port \<Rightarrow> 't master \<Rightarrow> 't master option" where
  "ul_ecat_send_batched_frames port m =
     (if g_sockfd m < 0 then Some m
      else map_option (\<lambda>m. m\<lparr>g_q := []\<rparr>) (batch_loop port (g_q m) m))"

section \<open>Reception\<close>

definition of_le64 :: "bytes \<Rightarrow> u64" where
  "of_le64 b = ucast (of_le32 (b ! 0) (b ! 1) (b ! 2) (b ! 3))
     OR push_bit 32 (ucast (of_le32 (b ! 4) (b ! 5) (b ! 6) (b ! 7)))"

definition process_rx_datagram :: "'t port \<Rightarrow> bytes \<Rightarrow> nat \<Rightarrow> 't master \<Rightarrow> 't master" where
  "process_rx_datagram port pdu i m =
     (case ul_ecat_dgram_parse pdu i (Some 32) of
        None \<Rightarrow> m
      | Some d \<Rightarrow>
          if d_cmd d = UL_ECAT_CMD_FPRD \<and> d_ado d = 0x0910 \<and> d_len d \<ge> 8 \<and> d_wkc d \<ge> 1
          then handle_dc_response port (of_le64 (d_data d)) m else m)"

definition process_rx_datagrams :: "'t port \<Rightarrow> bytes \<Rightarrow> 't master \<Rightarrow> 't master" where
  "process_rx_datagrams port pdu m =
     (case ul_ecat_pdu_count_datagrams pdu of
        None \<Rightarrow> m
      | Some nd \<Rightarrow> foldl (\<lambda>m i. process_rx_datagram port pdu i m) m [0 ..< nd])"

definition frame_of :: "bytes \<Rightarrow> eth_frame" where
  "frame_of rx =
     (let pay = take 1500 (drop 14 rx) in
      \<lparr>fr_dst_mac = take 6 rx, fr_src_mac = slice 6 6 rx,
       fr_ethertype = push_bit 8 (ucast (rx ! 12)) OR ucast (rx ! 13),
       fr_payload = pay @ replicate (1500 - length pay) 0\<rparr>)"

definition receive_one :: "'t port \<Rightarrow> bytes \<Rightarrow> 't master \<Rightarrow> 't master" where
  "receive_one port rx m =
     (case ul_ecat_parse_eth_frame rx of
        None \<Rightarrow> m
      | Some pdu \<Rightarrow>
          let m1 = process_rx_datagrams port pdu m in
          if length rx \<le> 6 + 6 + 2 + 1500
          then ul_ecat_eventloop_post_frame_event (frame_of rx) (length rx) m1 else m1)"

partial_function (option) receive_loop :: "'t port \<Rightarrow> 't master \<Rightarrow> 't master option" where
  "receive_loop port m =
     (case on_world (transport_recv port (g_sockfd m) 1600 True) m of
        (None, m1) \<Rightarrow> Some m1
      | (Some rx, m1) \<Rightarrow> receive_loop port (receive_one port rx m1))"

definition ul_ecat_receive_frames_nonblock :: "'t port \<Rightarrow> 't master \<Rightarrow> 't master option" where
  "ul_ecat_receive_frames_nonblock port m =
     (if g_sockfd m < 0 then Some m
      else
        let (ret, m1) = on_world (transport_wait_readable port (g_sockfd m) 0) m in
        if ret \<le> 0 then Some m1 else receive_loop port m1)"

section \<open>The periodic thread and the life cycle\<close>

definition periodic_cycle :: "'t port \<Rightarrow> 't master \<Rightarrow> 't master option" where
  "periodic_cycle port m =
     Option.bind (ul_ecat_send_batched_frames port (dc_cycle m)) (ul_ecat_receive_frames_nonblock port)"

text \<open>\<open>others\<close> is the sleep until the next cycle, during which the other threads run.\<close>

partial_function (option) periodic_loop ::
  "'t port \<Rightarrow> ('t master \<Rightarrow> 't master) \<Rightarrow> 't master \<Rightarrow> 't master option" where
  "periodic_loop port others m =
     (if g_running m
      then Option.bind (periodic_cycle port m) (\<lambda>m1. periodic_loop port others (others m1))
      else Some m)"

definition periodic_thread_func ::
  "'t port \<Rightarrow> ('t master \<Rightarrow> 't master) \<Rightarrow> 't master \<Rightarrow> 't master option" where
  "periodic_thread_func port others m =
     (let m1 = (if g_dc_state m = 1 then dc_init m else m);
          (_, m2) = on_world (osal_monotonic_ns port) m1 in
      periodic_loop port others m2)"

record master_settings =
  iface_name :: string
  cfg_dst_mac :: bytes
  cfg_src_mac :: bytes
  rt_priority :: int
  dc_enable :: bool

definition ul_ecat_master_init :: "'t port \<Rightarrow> master_settings option \<Rightarrow> 't master \<Rightarrow> bool \<times> 't master" where
  "ul_ecat_master_init port cfg m =
     (case cfg of
        None \<Rightarrow> (False, m)
      | Some c \<Rightarrow>
          let (s, m1) = on_world (transport_open port (iface_name c)) (m\<lparr>world := osal_init port (world m)\<rparr>) in
          if s < 0 then (False, m1)
          else
            let m2 = m1\<lparr>g_sockfd := s, world := osal_realtime_hint port (rt_priority c) (world m1),
                        g_dst_mac := take 6 (cfg_dst_mac c), g_src_mac := take 6 (cfg_src_mac c),
                        g_dc_state := (if dc_enable c then 1 else 0), g_running := True,
                        g_dgram_index_seq := 0\<rparr>;
                (r, m3) = on_world (osal_worker_start port (rt_priority c)) m2 in
            if r \<noteq> 0 then (False, m3\<lparr>world := transport_close port (g_sockfd m3) (world m3), g_sockfd := -1\<rparr>)
            else (True, m3))"

definition ul_ecat_master_shutdown :: "'t port \<Rightarrow> 't master \<Rightarrow> bool \<times> 't master" where
  "ul_ecat_master_shutdown port m =
     (if g_sockfd m < 0 then (False, m)
      else
        let m1 = m\<lparr>g_running := False, world := osal_worker_join port (world m)\<rparr>;
            m2 = m1\<lparr>world := transport_close port (g_sockfd m1) (world m1), g_sockfd := -1\<rparr> in
        (True, m2\<lparr>world := osal_shutdown port (world m2)\<rparr>))"

end
