(* ===== verification/MasterCli.thy ===== *)
theory MasterCli
  imports MasterCycle "HOL-Library.Sublist"
begin

text \<open>
  ESI files and the command line of the master: \<open>ul_ecat_esi_parse_file\<close>, its tag helpers,
  \<open>ul_ecat_scan_slaves_with_esi\<close> and \<open>ul_ecat_app_execute\<close> of \<open>src/master/ul_ecat_master.c\<close>.

  A C string is the list of its characters before the terminator, a pointer into a string is the
  suffix it points to. The file system is a parameter that maps a name to the contents, \<^const>\<open>None\<close>
  when the file cannot be opened; allocation is taken to succeed. \<open>unsigned long\<close> has 64 bits.
\<close>

section \<open>C strings\<close>

fun strstr :: "string \<Rightarrow> string \<Rightarrow> string option" where
  "strstr [] needle = (if needle = [] then Some [] else None)"
| "strstr (c # cs) needle = (if prefix needle (c # cs) then Some (c # cs) else strstr cs needle)"

definition char_code :: "char \<Rightarrow> nat" where
  "char_code c = of_char c"

definition is_space :: "char \<Rightarrow> bool" where
  "is_space c \<longleftrightarrow> char_code c = 32 \<or> (9 \<le> char_code c \<and> char_code c \<le> 13)"

definition digit_of :: "char \<Rightarrow> nat" where
  "digit_of c =
     (let n = char_code c in
      if 48 \<le> n \<and> n \<le> 57 then n - 48
      else if 65 \<le> n \<and> n \<le> 90 then n - 55
      else if 97 \<le> n \<and> n \<le> 122 then n - 87
      else 36)"

definition digits_value :: "nat \<Rightarrow> string \<Rightarrow> nat" where
  "digits_value base s = foldl (\<lambda>v c. v * base + digit_of c) 0 (takeWhile (\<lambda>c. digit_of c < base) s)"

text \<open>The sign and the magnitude \<open>strtoul\<close> and \<open>strtol\<close> read, with base 0 resolved by the prefix.\<close>

definition skip_0x :: "string \<Rightarrow> string" where
  "skip_0x s = (if prefix ''0x'' s \<or> prefix ''0X'' s then drop 2 s else s)"

definition scan_number :: "nat \<Rightarrow> string \<Rightarrow> bool \<times> nat" where
  "scan_number base s =
     (let s1 = dropWhile is_space s;
          neg = prefix ''-'' s1;
          s2 = (if neg \<or> prefix ''+'' s1 then drop 1 s1 else s1) in
      (neg,
       if base = 16 then digits_value 16 (skip_0x s2)
       else if base = 0 then
         (if prefix ''0x'' s2 \<or> prefix ''0X'' s2 then digits_value 16 (drop 2 s2)
          else if prefix ''0'' s2 then digits_value 8 s2
          else digits_value 10 s2)
       else digits_value base s2))"

definition strtoul :: "string \<Rightarrow> nat \<Rightarrow> u64" where
  "strtoul s base =
     (let (neg, v) = scan_number base s in
      if v \<ge> 2 ^ 64 then - 1
      else if neg then - word_of_nat v else word_of_nat v)"

definition strtol :: "string \<Rightarrow> nat \<Rightarrow> int" where
  "strtol s base =
     (let (neg, v) = scan_number base s in
      if neg then - int (min v (2 ^ 63)) else int (min v (2 ^ 63 - 1)))"

section \<open>ESI files\<close>

definition tag_open :: "string \<Rightarrow> string" where "tag_open tag = ''<'' @ tag @ ''>''"
definition tag_close :: "string \<Rightarrow> string" where "tag_close tag = ''</'' @ tag @ ''>''"

definition tag_body :: "string \<Rightarrow> string \<Rightarrow> string option" where
  "tag_body xml tag =
     (case strstr xml (tag_open tag) of
        None \<Rightarrow> None
      | Some s0 \<Rightarrow>
          let s = drop (length (tag_open tag)) s0 in
          case strstr s (tag_close tag) of
            None \<Rightarrow> None
          | Some e \<Rightarrow> Some (take (length s - length e) s))"

text \<open>On failure the output keeps what it held.\<close>

definition parse_hex_tag :: "string \<Rightarrow> string \<Rightarrow> u32 \<Rightarrow> u32" where
  "parse_hex_tag xml tag val =
     (case tag_body xml tag of None \<Rightarrow> val | Some body \<Rightarrow> ucast (strtoul (take 127 body) 16))"

definition parse_string_tag :: "string \<Rightarrow> string \<Rightarrow> string \<Rightarrow> nat \<Rightarrow> string" where
  "parse_string_tag xml tag out out_sz =
     (case tag_body xml tag of None \<Rightarrow> out | Some body \<Rightarrow> take (out_sz - 1) body)"

definition parse_device :: "string \<Rightarrow> esi_device" where
  "parse_device temp =
     \<lparr>ed_vendor_id = parse_hex_tag temp ''VendorID'' 0,
      ed_product_code = parse_hex_tag temp ''ProductCode'' 0,
      ed_revision_no = parse_hex_tag temp ''RevisionNo'' 0,
      ed_serial_no = parse_hex_tag temp ''SerialNo'' 0,
      ed_device_name = parse_string_tag temp ''Name'' [] 128\<rparr>"

fun parse_devices :: "nat \<Rightarrow> string \<Rightarrow> esi_device list" where
  "parse_devices 0 search = []"
| "parse_devices (Suc left) search =
     (case strstr search ''<Device>'' of
        None \<Rightarrow> []
      | Some dev_open \<Rightarrow>
          (case strstr dev_open ''</Device>'' of
             None \<Rightarrow> []
           | Some dev_close \<Rightarrow>
               let dlen = length dev_open - length dev_close + 8;
                   dlen = (if dlen \<ge> 4096 then 4095 else dlen) in
               parse_device (take dlen dev_open) # parse_devices left (drop 8 dev_close)))"

definition ul_ecat_esi_parse_file :: "(string \<Rightarrow> string option) \<Rightarrow> string \<Rightarrow> esi_device list option" where
  "ul_ecat_esi_parse_file fs filename =
     (case fs filename of
        None \<Rightarrow> None
      | Some contents \<Rightarrow>
          if contents = [] then None
          else Some (parse_devices 16 (takeWhile (\<lambda>c. char_code c \<noteq> 0) contents)))"

fun merge_esi_res :: "esi_device list \<Rightarrow> esi_device list \<Rightarrow> esi_device list" where
  "merge_esi_res [] lib = lib"
| "merge_esi_res (d # ds) lib = (if length lib \<ge> 64 then lib else merge_esi_res ds (lib @ [d]))"

definition esi_apply :: "esi_device list \<Rightarrow> mslave \<Rightarrow> mslave" where
  "esi_apply lib s =
     (case find (\<lambda>ed. ed_vendor_id ed = m_vendor_id s \<and> ed_product_code ed = m_product_code s) lib of
        None \<Rightarrow> s
      | Some ed \<Rightarrow>
          s\<lparr>m_revision_no := ed_revision_no ed, m_serial_no := ed_serial_no ed,
            m_device_name := (if ed_device_name ed \<noteq> [] then ed_device_name ed else m_device_name s)\<rparr>)"

definition load_esi_files :: "(string \<Rightarrow> string option) \<Rightarrow> string list \<Rightarrow> esi_device list" where
  "load_esi_files fs files =
     foldl (\<lambda>lib f. case ul_ecat_esi_parse_file fs f of None \<Rightarrow> lib | Some res \<Rightarrow> merge_esi_res res lib) [] files"

definition ul_ecat_scan_slaves_with_esi ::
  "(string \<Rightarrow> string option) \<Rightarrow> string list \<Rightarrow> 't master \<Rightarrow> 't master" where
  "ul_ecat_scan_slaves_with_esi fs files m =
     (let lib = load_esi_files fs files in
      m\<lparr>g_esi_lib := lib, g_slaves_db := map (esi_apply lib) (g_slaves_db m)\<rparr>)"

section \<open>Command line\<close>

definition cli_settings :: "string \<Rightarrow> master_settings" where
  "cli_settings iface =
     \<lparr>iface_name = iface, cfg_dst_mac = replicate 6 0xFF, cfg_src_mac = [2, 0, 0, 0, 0, 1],
      rt_priority = 50, dc_enable = False\<rparr>"

definition u16_arg :: "string \<Rightarrow> nat \<Rightarrow> u16" where
  "u16_arg s base = word_of_int (strtol s base)"

definition int_arg :: "string \<Rightarrow> int" where
  "int_arg s = sint (word_of_int (strtol s 10) :: u32)"

text \<open>
  The dispatch between start-up and shutdown: the exit code, the bytes \<open>read\<close> prints, and the state.
\<close>

definition cli_command ::
  "'t port \<Rightarrow> (string \<Rightarrow> string option) \<Rightarrow> string list \<Rightarrow> 't master \<Rightarrow> (int \<times> bytes) \<times> 't master" where
  "cli_command port fs argv m =
     (let cmd = argv ! 2; argc = length argv in
      if cmd = ''scan'' then ((0, []), ul_ecat_scan_network port m)
      else if cmd = ''scan-esi'' then
        (if argc < 4 then ((1, []), m)
         else ((0, []), ul_ecat_scan_slaves_with_esi fs
                 (take 63 (takeWhile (\<lambda>a. a \<noteq> ''null'') (drop 3 argv))) m))
      else if cmd = ''slave-state'' then
        (if argc < 5 then ((1, []), m)
         else ((0, []), snd (ul_ecat_request_slave_state port (int_arg (argv ! 3))
                               (word_of_int (int_arg (argv ! 4))) m)))
      else if cmd = ''read'' then
        (if argc < 6 then ((1, []), m)
         else
           let adp = u16_arg (argv ! 3) 16; ado = u16_arg (argv ! 4) 16; ln = u16_arg (argv ! 5) 0 in
           if ln = 0 \<or> ln > 512 then ((1, []), m)
           else
             let ((n, out), m1) = ul_ecat_fprd_sync port adp ado ln (Some (stack_bytes port 512 (world m))) 2000 m in
             ((0, case (n, out) of (Some k, Some buf) \<Rightarrow> take k buf | _ \<Rightarrow> []), m1))
      else if cmd = ''write'' then
        (if argc < 6 then ((1, []), m)
         else
           let adp = u16_arg (argv ! 3) 16; ado = u16_arg (argv ! 4) 16;
               val = word_of_int (strtol (argv ! 5) 16) :: u32;
               sz = (if argc \<ge> 7 then u16_arg (argv ! 6) 0 else 4) in
           if sz = 0 \<or> sz > 4 then ((1, []), m)
           else ((0, []), snd (ul_ecat_fpwr_sync port adp ado (Some (le32 val)) sz 2000 m)))
      else ((0, []), m))"

text \<open>\<open>stop\<close> shuts down and returns 0, as an unknown command does after its message.\<close>

definition ul_ecat_app_execute ::
  "'t port \<Rightarrow> (string \<Rightarrow> string option) \<Rightarrow> string list \<Rightarrow> 't master \<Rightarrow> (int \<times> bytes) \<times> 't master" where
  "ul_ecat_app_execute port fs argv m =
     (if length argv < 3 then ((1, []), m)
      else
        let (ok, m1) = ul_ecat_master_init port (Some (cli_settings (argv ! 1))) m in
        if \<not> ok then ((1, []), m1)
        else
          let (r, m2) = cli_command port fs argv m1 in
          (r, snd (ul_ecat_master_shutdown port m2)))"

end
