(* ===== verification/MasterQueue.thy ===== *)
theory MasterQueue
  imports MasterCycle
begin

text \<open>
  What the master promises of its two bounded queues and of the loops that empty them: the datagram
  queue that \<open>ul_ecat_send_batched_frames\<close> packs into frames, and the event queue that
  \<open>ul_ecat_eventloop_run\<close> hands to the callbacks (\<open>src/master/ul_ecat_master.c\<close>).

  Both queues meet the contract \<open>bounded_queue\<close>, proved once and interpreted on \<open>q_push_encoded\<close>
  and on \<open>post_evt\<close>. The theory also holds \<open>peer_port\<close>, the port whose other end is one peer, with
  a clock read off the peer; the examples use it with a peer that never answers.
\<close>

section \<open>Bounded queues\<close>

text \<open>
  The contract both queues of the master offer: an element that fits is appended while there is
  room, and otherwise nothing changes.
\<close>

locale bounded_queue =
  fixes push :: "'a \<Rightarrow> 's \<Rightarrow> bool \<times> 's"
    and items :: "'s \<Rightarrow> 'a list"
    and cap :: nat
    and fits :: "'a \<Rightarrow> bool"
  assumes push_accepts: "fits x \<Longrightarrow> length (items s) < cap \<Longrightarrow>
      fst (push x s) \<and> items (snd (push x s)) = items s @ [x]"
    and push_refuses: "\<not> fits x \<or> cap \<le> length (items s) \<Longrightarrow> push x s = (False, s)"
begin

definition push_all :: "'a list \<Rightarrow> 's \<Rightarrow> 's" where
  "push_all xs s = foldl (\<lambda>s x. snd (push x s)) s xs"

definition queue_ok :: "'s \<Rightarrow> bool" where
  "queue_ok s \<longleftrightarrow> length (items s) \<le> cap \<and> (\<forall>x \<in> set (items s). fits x)"

lemma push_items:
  "items (snd (push x s)) = (if fits x \<and> length (items s) < cap then items s @ [x] else items s)"
  using push_accepts [of x s] push_refuses [of x s] by (auto simp: not_less)

lemma push_ok: "queue_ok s \<Longrightarrow> queue_ok (snd (push x s))"
  by (auto simp: queue_ok_def push_items)

lemma push_all_ok: "queue_ok s \<Longrightarrow> queue_ok (push_all xs s)"
  by (induction xs arbitrary: s) (simp_all add: push_all_def push_ok)

lemma push_all_items:
  "length (items s) \<le> cap \<Longrightarrow>
     items (push_all xs s) = items s @ take (cap - length (items s)) (filter fits xs)"
proof (induction xs arbitrary: s)
  case Nil
  then show ?case by (simp add: push_all_def)
next
  case (Cons x xs)
  have "length (items (snd (push x s))) \<le> cap" using Cons.prems by (simp add: push_items)
  from Cons.IH [OF this] have IH: "items (push_all (x # xs) s)
      = items (snd (push x s)) @ take (cap - length (items (snd (push x s)))) (filter fits xs)"
    by (simp add: push_all_def)
  show ?case
  proof (cases "fits x \<and> length (items s) < cap")
    case True
    then have "cap - length (items s) = Suc (cap - Suc (length (items s)))"
      by (metis Suc_diff_Suc)
    with IH True show ?thesis by (simp add: push_items)
  next
    case False
    with IH Cons.prems show ?thesis by (auto simp: push_items)
  qed
qed

end

definition dgram_fits :: "bytes \<Rightarrow> bool" where
  "dgram_fits w \<longleftrightarrow> length w \<le> DGRAM_BUF"

interpretation dq: bounded_queue q_push_encoded g_q Q_MAX dgram_fits
  by unfold_locales (auto simp: q_push_encoded_def dgram_fits_def)

interpretation eq: bounded_queue post_evt g_evt_queue MAX_EVENTS "\<lambda>_. True"
  by unfold_locales (auto simp: post_evt_def)

section \<open>Events\<close>

text \<open>
  An interleaving of posts and stops by any thread with passes of the loop and the reset of the
  stop flag at its start: the events accepted, the events taken, and the state it leaves.
\<close>

datatype evt_action = Post event | Pass | Stop | Start

fun evt_run :: "evt_action list \<Rightarrow> 't master \<Rightarrow> event list \<times> event list \<times> 't master" where
  "evt_run [] m = ([], [], m)"
| "evt_run (Post e # as) m =
     (let (ok, m1) = post_evt e m; (acc, tk, m2) = evt_run as m1 in ((if ok then [e] else []) @ acc, tk, m2))"
| "evt_run (Pass # as) m =
     (let (r, m1) = eventloop_pass m; (acc, tk, m2) = evt_run as m1 in
      (acc, (case r of Taken e \<Rightarrow> [e] | _ \<Rightarrow> []) @ tk, m2))"
| "evt_run (Stop # as) m = evt_run as (ul_ecat_eventloop_stop m)"
| "evt_run (Start # as) m = evt_run as (m\<lparr>g_evt_stop := False\<rparr>)"

lemma handles_cong: "g_cb_dc m' = g_cb_dc m \<Longrightarrow> g_cb_fr m' = g_cb_fr m \<Longrightarrow> handles m' = handles m"
  by (rule ext) (metis event.exhaust handles.simps)

lemma evt_run_fifo:
  "evt_run as m = (acc, tk, m') \<Longrightarrow> length (g_evt_queue m) \<le> MAX_EVENTS \<Longrightarrow>
     g_evt_queue m @ acc = tk @ g_evt_queue m' \<and> delivered m' = delivered m @ filter (handles m) tk \<and>
     length (g_evt_queue m') \<le> MAX_EVENTS"
proof (induction as m arbitrary: acc tk m' rule: evt_run.induct)
  case (1 m)
  then show ?case by simp
next
  case (2 e as m)
  obtain ok m1 where p: "post_evt e m = (ok, m1)" by fastforce
  obtain acc1 where r: "evt_run as m1 = (acc1, tk, m')" "acc = (if ok then [e] else []) @ acc1"
    using 2(2) p by (auto split: prod.splits)
  have q: "g_evt_queue m1 = g_evt_queue m @ (if ok then [e] else [])" "handles m1 = handles m"
    "delivered m1 = delivered m" "length (g_evt_queue m1) \<le> MAX_EVENTS"
    using p 2(3) by (auto simp: post_evt_def intro!: handles_cong split: if_splits)
  show ?case using 2(1) [OF p [symmetric] refl r(1) q(4)] q r(2) by simp
next
  case (3 as m)
  obtain r m1 where p: "eventloop_pass m = (r, m1)" by fastforce
  obtain tk1 where t: "evt_run as m1 = (acc, tk1, m')" "tk = (case r of Taken e \<Rightarrow> [e] | _ \<Rightarrow> []) @ tk1"
    using 3(2) p by (auto split: prod.splits)
  have q: "g_evt_queue m = (case r of Taken e \<Rightarrow> [e] | _ \<Rightarrow> []) @ g_evt_queue m1" "handles m1 = handles m"
    "delivered m1 = delivered m @ filter (handles m) (case r of Taken e \<Rightarrow> [e] | _ \<Rightarrow> [])"
    "length (g_evt_queue m1) \<le> MAX_EVENTS"
    using p 3(3) by (auto simp: eventloop_pass_def intro!: handles_cong split: if_splits list.splits)
  show ?case using 3(1) [OF p [symmetric] refl t(1) q(4)] q t(2) by simp
next
  case (4 as m)
  have "handles (ul_ecat_eventloop_stop m) = handles m" by (auto simp: ul_ecat_eventloop_stop_def intro!: handles_cong)
  with 4 show ?case by (simp add: ul_ecat_eventloop_stop_def)
next
  case (5 as m)
  have "handles (m\<lparr>g_evt_stop := False\<rparr>) = handles m" by (auto intro!: handles_cong)
  with 5 show ?case by simp
qed

text \<open>
  For every interleaving of posts, loop passes and stops that starts with an empty
  event queue, the events accepted are exactly the events the loop took, in the order they were
  posted, followed by those still queued; the callbacks received the taken events of the kinds
  that have one registered, in that order, and the queue never holds more than
  \<open>MAX_EVENTS\<close>.
\<close>

theorem events_in_order:
  assumes "evt_run as m = (acc, tk, m')" "g_evt_queue m = []"
  shows "acc = tk @ g_evt_queue m' \<and> delivered m' = delivered m @ filter (handles m) tk \<and>
    length (g_evt_queue m') \<le> MAX_EVENTS"
  using evt_run_fifo [OF assms(1)] assms(2) by simp

section \<open>The event loop\<close>

text \<open>Another thread asks for a stop once the queue is empty.\<close>

definition stop_when_empty :: "'t master \<Rightarrow> 't master" where
  "stop_when_empty m = (if g_evt_queue m = [] then ul_ecat_eventloop_stop m else m)"

lemma eventloop_from_drains:
  "\<not> g_evt_stop m \<Longrightarrow> eventloop_from stop_when_empty m
     = Some (m\<lparr>g_evt_queue := [], delivered := delivered m @ filter (handles m) (g_evt_queue m), g_evt_stop := True\<rparr>)"
proof (induction "g_evt_queue m" arbitrary: m)
  case Nil
  let ?m1 = "stop_when_empty m"
  have "?m1 = m\<lparr>g_evt_stop := True\<rparr>" using Nil by (simp add: stop_when_empty_def ul_ecat_eventloop_stop_def)
  moreover have "eventloop_from stop_when_empty m = eventloop_from stop_when_empty ?m1"
    using Nil by (subst eventloop_from.simps) (simp add: eventloop_pass_def)
  moreover have "eventloop_from stop_when_empty (m\<lparr>g_evt_stop := True\<rparr>) = Some (m\<lparr>g_evt_stop := True\<rparr>)"
    by (subst eventloop_from.simps) (simp add: eventloop_pass_def)
  ultimately show ?case using Nil by simp
next
  case (Cons e es)
  let ?m1 = "m\<lparr>g_evt_queue := es, delivered := delivered m @ (if handles m e then [e] else [])\<rparr>"
  have h: "handles ?m1 = handles m" by (auto intro!: handles_cong)
  have step: "eventloop_from stop_when_empty m = eventloop_from stop_when_empty (stop_when_empty ?m1)"
    using Cons.prems Cons.hyps(2) [symmetric] by (subst eventloop_from.simps) (simp add: eventloop_pass_def)
  show ?case
  proof (cases "es = []")
    case True
    have s: "stop_when_empty ?m1 = ?m1\<lparr>g_evt_stop := True\<rparr>"
      using True by (simp add: stop_when_empty_def ul_ecat_eventloop_stop_def)
    have "eventloop_from stop_when_empty (?m1\<lparr>g_evt_stop := True\<rparr>) = Some (?m1\<lparr>g_evt_stop := True\<rparr>)"
      by (subst eventloop_from.simps) (simp add: eventloop_pass_def)
    then show ?thesis using step s True Cons.hyps(2) [symmetric] by simp
  next
    case False
    then have "stop_when_empty ?m1 = ?m1" by (simp add: stop_when_empty_def)
    then show ?thesis
      using step Cons.hyps(1) [of ?m1] Cons.hyps(2) [symmetric] Cons.prems h by simp
  qed
qed

text \<open>
  When another thread asks for a stop once the queue is empty,
  \<open>ul_ecat_eventloop_run\<close> returns: it has emptied the queue and passed every event
  that was queued to its callback, in order, whether or not a stop had been asked for before.
\<close>

theorem eventloop_drains:
  "ul_ecat_eventloop_run stop_when_empty m
     = Some (m\<lparr>g_evt_queue := [], delivered := delivered m @ filter (handles m) (g_evt_queue m), g_evt_stop := True\<rparr>)"
proof -
  have "handles (m\<lparr>g_evt_stop := False\<rparr>) = handles m" by (auto intro!: handles_cong)
  then show ?thesis
    using eventloop_from_drains [of "m\<lparr>g_evt_stop := False\<rparr>"] by (simp add: ul_ecat_eventloop_run_def)
qed

lemma eventloop_idle:
  assumes "eventloop_from others m = Some m'"
  shows "others = (\<lambda>m. m) \<longrightarrow> g_evt_queue m = [] \<longrightarrow> g_evt_stop m"
proof (rule eventloop_from.raw_induct [where P = "\<lambda>others m m'. others = (\<lambda>m. m) \<longrightarrow> g_evt_queue m = [] \<longrightarrow> g_evt_stop m", OF _ assms],
    intro impI, rule ccontr)
  fix loop :: "('a master \<Rightarrow> 'a master) \<Rightarrow> 'a master \<Rightarrow> 'a master option" and others m m'
  assume IH: "\<And>others m m'. loop others m = Some m' \<Longrightarrow> others = (\<lambda>m. m) \<longrightarrow> g_evt_queue m = [] \<longrightarrow> g_evt_stop m"
    and run: "(case eventloop_pass m of (Stopped, m1) \<Rightarrow> Some m1 | (_, m1) \<Rightarrow> loop others (others m1)) = Some m'"
    and idle: "others = (\<lambda>m. m)" "g_evt_queue m = []" "\<not> g_evt_stop m"
  from run idle have "loop others m = Some m'" by (simp add: eventloop_pass_def)
  from IH [OF this] idle show False by simp
qed

text \<open>
  A stop asked for before \<open>ul_ecat_eventloop_run\<close> is lost, because the
  run clears the flag: with an empty queue and no other thread acting, the loop then never
  returns.
\<close>

theorem stop_before_run_is_lost:
  assumes "g_evt_queue m = []"
  shows "ul_ecat_eventloop_run (\<lambda>m. m) (ul_ecat_eventloop_stop m) = None"
  using eventloop_idle [of "\<lambda>m. m" "(ul_ecat_eventloop_stop m)\<lparr>g_evt_stop := False\<rparr>"] assms
  by (auto simp: ul_ecat_eventloop_run_def ul_ecat_eventloop_stop_def
      split: option.splits intro: ccontr)

section \<open>Batched transmission\<close>

text \<open>The greedy packing the inner loop performs, as a function on the queue alone.\<close>

lemma fill_payload_spec:
  "fill_payload ds buf = (buf', rest) \<Longrightarrow>
     \<exists>taken. ds = taken @ rest \<and> buf' = buf @ concat taken \<and>
       (length buf \<le> UL_ECAT_MAX_EC_PAYLOAD \<longrightarrow> length buf' \<le> UL_ECAT_MAX_EC_PAYLOAD) \<and>
       (rest \<noteq> [] \<longrightarrow> length buf' + length (hd rest) > UL_ECAT_MAX_EC_PAYLOAD)"
proof (induction ds buf rule: fill_payload.induct)
  case (2 d ds buf)
  show ?case
  proof (cases "length buf + length d > UL_ECAT_MAX_EC_PAYLOAD")
    case True
    with 2(2) show ?thesis by (intro exI [of _ "[]"]) auto
  next
    case False
    with 2(2) have "fill_payload ds (buf @ d) = (buf', rest)" by simp
    from 2(1) [OF False this] False show ?thesis
      by (auto intro: exI [of _ "d # _"])
  qed
qed simp

definition send_frame :: "'t port \<Rightarrow> 't master \<Rightarrow> bytes \<Rightarrow> 't master" where
  "send_frame port m f = snd (on_world (transport_send port (g_sockfd m) f) m)"

lemma send_frame_keeps:
  "g_sockfd (send_frame port m f) = g_sockfd m" "g_dst_mac (send_frame port m f) = g_dst_mac m"
  "g_src_mac (send_frame port m f) = g_src_mac m" "g_q (send_frame port m f) = g_q m"
  by (simp_all add: send_frame_def on_world_def split: prod.split)

text \<open>
  A batching of \<open>q\<close>: the groups of datagrams that travel together, none empty, each within the
  payload limit and each closed only because the next datagram would not have fitted.
\<close>

fun greedy :: "bytes list list \<Rightarrow> bool" where
  "greedy [] \<longleftrightarrow> True"
| "greedy [g] \<longleftrightarrow> True"
| "greedy (g # h # gs) \<longleftrightarrow> length (concat g) + length (hd h) > UL_ECAT_MAX_EC_PAYLOAD \<and> greedy (h # gs)"

definition batching :: "bytes list list \<Rightarrow> bytes list \<Rightarrow> bool" where
  "batching gs q \<longleftrightarrow> concat gs = q \<and> greedy gs \<and> (\<forall>g \<in> set gs. g \<noteq> [] \<and> length (concat g) \<le> UL_ECAT_MAX_EC_PAYLOAD)"

lemma batch_loop_batching:
  "\<forall>d \<in> set q. length d \<le> DGRAM_BUF \<Longrightarrow>
     \<exists>gs fs. batching gs q \<and>
       list_all2 (\<lambda>g f. ul_ecat_build_eth_frame (g_dst_mac m) (g_src_mac m) (concat g) 1600 = Some f) gs fs \<and>
       batch_loop port q m = Some (foldl (send_frame port) m fs)"
proof (induction "length q" arbitrary: q m rule: less_induct)
  case less
  show ?case
  proof (cases q)
    case Nil
    then show ?thesis
      by (intro exI [of _ "[]"]) (simp add: batching_def batch_loop.simps)
  next
    case (Cons d ds)
    obtain buf rest where fp: "fill_payload q [] = (buf, rest)" by fastforce
    from fill_payload_spec [OF fp] obtain taken where tk: "q = taken @ rest" "buf = concat taken"
      "length buf \<le> UL_ECAT_MAX_EC_PAYLOAD" "rest \<noteq> [] \<longrightarrow> length buf + length (hd rest) > UL_ECAT_MAX_EC_PAYLOAD"
      by auto
    have ne: "taken \<noteq> []"
    proof
      assume "taken = []"
      then show False using tk less.prems Cons by auto
    qed
    obtain f where f: "ul_ecat_build_eth_frame (g_dst_mac m) (g_src_mac m) buf 1600 = Some f"
      using tk(3) by (simp add: ul_ecat_build_eth_frame_def Let_def)
    have sm: "length rest < length q" "\<forall>d \<in> set rest. length d \<le> DGRAM_BUF"
      using tk(1) ne less.prems by auto
    from less.hyps [OF this, of "send_frame port m f"] obtain gs fs where gf: "batching gs rest"
      "list_all2 (\<lambda>g f. ul_ecat_build_eth_frame (g_dst_mac m) (g_src_mac m) (concat g) 1600 = Some f) gs fs"
      "batch_loop port rest (send_frame port m f) = Some (foldl (send_frame port) (send_frame port m f) fs)"
      by (auto simp: send_frame_keeps)
    have "greedy (taken # gs)"
    proof (cases gs)
      case (Cons h hs)
      then have "h \<noteq> []" "rest = h @ concat hs" using gf(1) by (auto simp: batching_def)
      then show ?thesis using Cons gf(1) tk(2,4) by (simp add: batching_def)
    qed simp
    then have "batching (taken # gs) q" using gf(1) tk(1-3) ne by (simp add: batching_def)
    moreover have "batch_loop port q m = Some (foldl (send_frame port) m (f # fs))"
      using gf(3) fp f Cons by (subst batch_loop.simps) (simp add: send_frame_def)
    ultimately show ?thesis using gf(2) f tk(2) by (intro exI [of _ "taken # gs"] exI [of _ "f # fs"]) simp
  qed
qed

text \<open>
  Property C20. \<open>ul_ecat_send_batched_frames\<close> on an open socket returns with an empty
  queue, and has sent the queued datagrams in order, each exactly once, as the payloads of
  Ethernet frames: no frame is empty or over the payload limit, and a frame is closed only because
  the next datagram would not have fitted into it.
\<close>

theorem batch_sends_queue:
  assumes "\<forall>d \<in> set (g_q m). length d \<le> DGRAM_BUF" "0 \<le> g_sockfd m"
  shows "\<exists>gs fs. concat gs = g_q m \<and> greedy gs \<and>
    (\<forall>g \<in> set gs. g \<noteq> [] \<and> length (concat g) \<le> UL_ECAT_MAX_EC_PAYLOAD) \<and>
    list_all2 (\<lambda>g f. ul_ecat_build_eth_frame (g_dst_mac m) (g_src_mac m) (concat g) 1600 = Some f) gs fs \<and>
    ul_ecat_send_batched_frames port m = Some ((foldl (send_frame port) m fs)\<lparr>g_q := []\<rparr>)"
proof -
  obtain gs fs where "batching gs (g_q m)"
    "list_all2 (\<lambda>g f. ul_ecat_build_eth_frame (g_dst_mac m) (g_src_mac m) (concat g) 1600 = Some f) gs fs"
    "batch_loop port (g_q m) m = Some (foldl (send_frame port) m fs)"
    using batch_loop_batching [OF assms(1), of m port] by blast
  then show ?thesis
    using assms(2) by (intro exI [of _ gs] exI [of _ fs]) (simp add: batching_def ul_ecat_send_batched_frames_def)
qed

section \<open>The datagram queue\<close>

record q_request =
  rq_cmd :: byte
  rq_adp :: u16
  rq_ado :: u16
  rq_data :: "bytes option"
  rq_len :: u16

definition queue_request :: "'t master \<Rightarrow> q_request \<Rightarrow> 't master" where
  "queue_request m r = queue_dgram (rq_cmd r) (rq_adp r) (rq_ado r) (rq_data r) (rq_len r) m"

lemma queue_request_ok: "dq.queue_ok m \<Longrightarrow> dq.queue_ok (queue_request m r)"
proof -
  let ?m1 = "m\<lparr>g_dgram_index_seq := g_dgram_index_seq m + 1\<rparr>"
  assume "dq.queue_ok m"
  then have "dq.queue_ok ?m1" by (simp add: dq.queue_ok_def)
  from dq.push_ok [OF this] this show ?thesis
    by (simp add: queue_request_def queue_dgram_def Let_def split: option.split)
qed

lemma queue_request_sockfd: "g_sockfd (queue_request m r) = g_sockfd m"
  by (simp add: queue_request_def queue_dgram_def q_push_encoded_def Let_def split: option.split)

text \<open>
  Property C40. Whatever requests (any command, address, length, data) are queued on an empty
  queue, the queue stays a queue of at most \<open>Q_MAX\<close> datagrams that each fit their
  buffer, so the next batched transmission returns and leaves it empty.
\<close>

theorem queued_requests_leave:
  fixes rs :: "q_request list" and m :: "'t master"
  assumes "g_q m = []" "0 \<le> g_sockfd m"
  defines "m1 \<equiv> foldl queue_request m rs"
  shows "length (g_q m1) \<le> Q_MAX \<and> (\<exists>m2. ul_ecat_send_batched_frames port m1 = Some m2 \<and> g_q m2 = [])"
proof -
  have "dq.queue_ok m1 \<and> 0 \<le> g_sockfd m1"
    unfolding m1_def
  proof (induction rs rule: rev_induct)
    case Nil
    then show ?case using assms(1,2) by (simp add: dq.queue_ok_def)
  next
    case (snoc r rs)
    then show ?case by (simp add: queue_request_ok queue_request_sockfd)
  qed
  then have ok: "length (g_q m1) \<le> Q_MAX" "\<forall>d \<in> set (g_q m1). length d \<le> DGRAM_BUF" "0 \<le> g_sockfd m1"
    by (auto simp: dq.queue_ok_def dgram_fits_def)
  obtain fs where "batch_loop port (g_q m1) m1 = Some (foldl (send_frame port) m1 fs)"
    using batch_loop_batching [OF ok(2), of m1 port] by blast
  with ok show ?thesis by (simp add: ul_ecat_send_batched_frames_def)
qed

section \<open>Accesses longer than a datagram buffer\<close>

text \<open>
  \<open>ul_ecat_fprd_sync\<close> and \<open>ul_ecat_fpwr_sync\<close> fail for
  every length above 500 bytes without sending anything, although their own check admits up to
  512: the datagram header and working counter no longer fit the 512-byte buffer.
\<close>

theorem sync_length_limit:
  assumes "500 < unat len"
  shows "ul_ecat_fprd_sync port adp ado len out t m = ((None, out), m) \<and>
    ul_ecat_fpwr_sync port adp ado data len t m = (False, m)"
proof -
  have "ul_ecat_dgram_encode 512 c 0 adp ado len 0 0 d = None" for c d
    using assms by (simp add: ul_ecat_dgram_encode_def ul_ecat_dgram_wire_size_def Let_def)
  then show ?thesis
    by (simp add: ul_ecat_fprd_sync_def ul_ecat_fpwr_sync_def fprd_blocking_def fpwr_blocking_def
        write_blocking_def split: option.split)
qed

section \<open>A port with one peer\<close>

text \<open>
  The wire: a frame that is sent is handed to the peer, whose answer, if any, waits to be received.
  \<open>'p\<close> is the peer's state, and \<open>now\<close> reads the clock off it.
\<close>

definition peer_port :: "('p \<Rightarrow> u64) \<Rightarrow> (bytes \<Rightarrow> 'p \<Rightarrow> bytes option \<times> 'p) \<Rightarrow> ('p \<times> bytes list) port" where
  "peer_port now peer =
     \<lparr>transport_open = \<lambda>_ w. (3, w),
      transport_close = \<lambda>_ w. w,
      transport_send = \<lambda>_ f (p, q).
        (let (a, p') = peer f p in (int (length f), p', q @ (case a of None \<Rightarrow> [] | Some g \<Rightarrow> [g]))),
      transport_recv = \<lambda>_ cap _ (p, q).
        (case q of [] \<Rightarrow> (None, p, []) | g # gs \<Rightarrow> (Some (take cap g), p, gs)),
      transport_wait_readable = \<lambda>_ _ (p, q). (if q = [] then 0 else 1, p, q),
      osal_monotonic_ns = \<lambda>w. (now (fst w), w),
      osal_sleep_us = \<lambda>_ w. w,
      osal_init = \<lambda>w. w,
      osal_shutdown = \<lambda>w. w,
      osal_realtime_hint = \<lambda>_ w. w,
      osal_worker_start = \<lambda>_ w. (0, w),
      osal_worker_join = \<lambda>w. w,
      stack_bytes = \<lambda>n w. replicate n 0xCC\<rparr>"

text \<open>Nobody answers; the peer's state counts the frames sent.\<close>

definition silent_port :: "(nat \<times> bytes list) port" where
  "silent_port = peer_port (\<lambda>_. 0) (\<lambda>_ n. (None, Suc n))"

section \<open>Witnesses\<close>

definition idle_master :: "'t \<Rightarrow> 't master" where
  "idle_master w =
     \<lparr>world = w, g_sockfd = 3, g_dst_mac = [0xFF, 0xFF, 0xFF, 0xFF, 0xFF, 0xFF], g_src_mac = [2, 0, 0, 0, 0, 1],
      g_running = True, g_dc_state = 0, g_dc_offset = 0, g_dc_timeout = 0, g_dc_error_code = 0,
      g_slaves_db = [], g_esi_lib = [], g_q = [], g_dgram_index_seq = 0, g_evt_queue = [], g_evt_stop = False,
      g_cb_dc = False, g_cb_fr = False, delivered = []\<rparr>"

lemma idle_master_sel [simp]:
  "world (idle_master w) = w" "g_sockfd (idle_master w) = 3" "length (g_dst_mac (idle_master w)) = 6"
  "length (g_src_mac (idle_master w)) = 6" "g_slaves_db (idle_master w) = []" "g_q (idle_master w) = []"
  "g_evt_queue (idle_master w) = []" "g_dgram_index_seq (idle_master w) = 0" "delivered (idle_master w) = []"
  by (simp_all add: idle_master_def)

abbreviation demo_event :: event where
  "demo_event \<equiv> EV_DC \<lparr>dc_event_kind = UL_ECAT_DC_EVENT_INIT, offset_ns = 0, dc_error = 0\<rparr>"

theorem events_in_order_witness:
  "\<exists>m'. evt_run [Post demo_event, Stop, Pass] (idle_master ()) = ([demo_event], [], m') \<and>
     g_evt_queue m' = [demo_event] \<and> length (g_evt_queue m') \<le> MAX_EVENTS"
proof -
  obtain acc tk m' where r: "evt_run [Post demo_event, Stop, Pass] (idle_master ()) = (acc, tk, m')"
    by (metis surj_pair)
  have "acc = [demo_event]" "tk = []"
    using r by (auto simp: post_evt_def eventloop_pass_def ul_ecat_eventloop_stop_def)
  with events_in_order [OF r] r show ?thesis by simp
qed

theorem stop_before_run_is_lost_witness:
  "ul_ecat_eventloop_run (\<lambda>m. m) (ul_ecat_eventloop_stop (idle_master ())) = None"
  by (rule stop_before_run_is_lost) simp

theorem batch_sends_queue_witness:
  "\<exists>fs. ul_ecat_send_batched_frames silent_port ((idle_master (0, []))\<lparr>g_q := [[1, 2], [3]]\<rparr>)
     = Some ((foldl (send_frame silent_port) ((idle_master (0, []))\<lparr>g_q := [[1, 2], [3]]\<rparr>) fs)\<lparr>g_q := []\<rparr>)"
  using batch_sends_queue [of "(idle_master (0, []))\<lparr>g_q := [[1, 2], [3]]\<rparr>" silent_port] by auto

theorem queued_requests_leave_witness:
  "\<exists>m2. ul_ecat_send_batched_frames silent_port (foldl queue_request (idle_master (0, []))
       [\<lparr>rq_cmd = 4, rq_adp = 0x1000, rq_ado = 0x130, rq_data = None, rq_len = 2\<rparr>]) = Some m2 \<and> g_q m2 = []"
  using queued_requests_leave [of "idle_master (0, [])" "[\<lparr>rq_cmd = 4, rq_adp = 0x1000, rq_ado = 0x130, rq_data = None, rq_len = 2\<rparr>]" silent_port]
  by simp

theorem sync_length_limit_witness:
  "ul_ecat_fprd_sync silent_port 0x1000 0x130 512 None 2000 (idle_master (0, [])) = ((None, None), idle_master (0, []))"
  using sync_length_limit [of 512 silent_port "0x1000" "0x130" None 2000 "idle_master (0, [])"] by simp

end
