(* ===== verification/Network.thy ===== *)
theory Network
  imports ControllerProps MasterCli MasterQueue
begin

text \<open>
  Master and slave on one wire. \<open>slave_port\<close> is the master's port when the peer is the slave of
  \<open>SlavePdu\<close> (\<open>ul_ecat_slave_process_ethernet\<close> with the full frame capacity), \<open>controller_port\<close>
  when it is the slave controller with its CoE server, \<open>silent_port\<close> when nobody answers. The
  operations of the master are run against them, so a property here is about what both programs do
  together, frame by frame: nothing is assumed about the other end.

  The lemmas go up one layer at a time: one exchange (\<open>exchange_peer\<close>, \<open>exchange_slave\<close>), one
  blocking read or write (\<open>fprd_slave\<close>, \<open>write_slave\<close>), the operations built from them.
\<close>

text \<open>One exchange with the peer while nothing else is pending.\<close>

lemma exchange_peer:
  assumes "world m = (p, [])" "ul_ecat_build_eth_frame (g_dst_mac m) (g_src_mac m) ec 1600 = Some f"
    and "peer f p = (a, p')" "\<forall>g. a = Some g \<longrightarrow> length g \<le> 1600"
  shows "exchange_ec_payload (peer_port now peer) ec cap t m =
    (case a of
       None \<Rightarrow> None
     | Some g \<Rightarrow> (case ul_ecat_parse_eth_frame g of
                    None \<Rightarrow> None
                  | Some pdu \<Rightarrow> if length pdu > cap then None else Some pdu),
     m\<lparr>world := (p', [])\<rparr>)"
proof (cases a)
  case None
  then show ?thesis
    using assms by (simp add: exchange_ec_payload_def send_ec_payload_def recv_eth_frame_def on_world_def peer_port_def)
next
  case (Some g)
  then show ?thesis
    using assms by (simp add: exchange_ec_payload_def send_ec_payload_def recv_eth_frame_def on_world_def peer_port_def)
qed

section \<open>The slave as the peer\<close>

definition slave_peer :: "bytes \<Rightarrow> slave \<Rightarrow> bytes option \<times> slave" where
  "slave_peer f s = ul_ecat_slave_process_ethernet s f 1518"

definition slave_port :: "(slave \<times> bytes list) port" where
  "slave_port = peer_port (\<lambda>_. 0) slave_peer"

definition attached :: "(slave \<times> bytes list) master \<Rightarrow> slave \<Rightarrow> bool" where
  "attached m s \<longleftrightarrow> world m = (s, []) \<and> length (mac s) = 6 \<and> length (g_dst_mac m) = 6 \<and> length (g_src_mac m) = 6"

lemma build_ok: "length p \<le> 1498 \<Longrightarrow> 18 + length p \<le> cap \<Longrightarrow> \<exists>f. ul_ecat_build_eth_frame d s p cap = Some f"
  by (simp add: ul_ecat_build_eth_frame_def Let_def)

lemma build_length:
  assumes "ul_ecat_build_eth_frame d s p cap = Some f" "length d = 6" "length s = 6"
  shows "length f = 18 + length p" "length p \<le> 1498"
  using build_parse_frame(4) [OF assms] assms(1)
  by (simp_all add: ul_ecat_build_eth_frame_def Let_def split: if_splits)

lemma slave_peer_dgram:
  assumes "ul_ecat_build_eth_frame d1 s1 (dgram_bytes d) cap = Some f" "length d1 = 6" "length s1 = 6" "length (mac s) = 6"
    and "valid_dgram d" "unat (d_len d) \<le> DG_DATA_MAX" "serve1 s d = (r, s')"
  shows "\<exists>g. slave_peer f s = (Some g, s') \<and> ul_ecat_parse_eth_frame g = Some (dgram_bytes r) \<and>
    length g = 18 + length (dgram_bytes d)"
proof -
  note l = build_length [OF assms(1-3)] and sh = serve1_shape [OF assms(7,5)]
  have "ul_ecat_slave_process_pdu s (dgram_bytes d) UL_ECAT_MAX_EC_PAYLOAD = (Some (dgram_bytes r), s')"
    using process_pdu_encoded [of "[d]" UL_ECAT_MAX_EC_PAYLOAD s "[r]" s'] assms(5-7) l(2) by simp
  then have run: "slave_peer f s = (ul_ecat_build_eth_frame s1 (mac s') (dgram_bytes r) 1518, s')"
    using process_ethernet_eq [OF assms(1-3), of s "[]" 1518] by (simp add: slave_peer_def)
  have b: "length (dgram_bytes r) \<le> 1498" "18 + length (dgram_bytes r) \<le> 1518"
    using assms(5,6) sh(9) by (simp_all add: length_dgram_bytes valid_dgram_def)
  obtain g where g: "ul_ecat_build_eth_frame s1 (mac s') (dgram_bytes r) 1518 = Some g"
    using build_ok [OF b] by blast
  have m: "length (mac s') = 6" using sh(10) assms(4) by simp
  show ?thesis
    using run g build_parse_frame(1) [OF g assms(3) m, of "[]"] build_length(1) [OF g assms(3) m] sh(9) by simp
qed

lemma exchange_slave:
  assumes "attached m s" "valid_dgram d" "unat (d_len d) \<le> DG_DATA_MAX" "serve1 s d = (r, s')"
  shows "exchange_ec_payload slave_port (dgram_bytes d) 512 t m = (Some (dgram_bytes r), m\<lparr>world := (s', [])\<rparr>)"
proof -
  have b: "length (dgram_bytes d) \<le> 1498" "18 + length (dgram_bytes d) \<le> 1600"
    using assms(2,3) by (simp_all add: length_dgram_bytes valid_dgram_def)
  note at = assms(1) [unfolded attached_def]
  obtain f where f: "ul_ecat_build_eth_frame (g_dst_mac m) (g_src_mac m) (dgram_bytes d) 1600 = Some f"
    using build_ok [OF b] by blast
  obtain g where g: "slave_peer f s = (Some g, s')" "ul_ecat_parse_eth_frame g = Some (dgram_bytes r)"
    "length g = 18 + length (dgram_bytes d)"
    using slave_peer_dgram [OF f _ _ _ assms(2-4)] at by blast
  have "length (dgram_bytes r) \<le> 512"
    using serve1_shape(9) [OF assms(4,2)] assms(2,3) by (simp add: length_dgram_bytes valid_dgram_def)
  then show ?thesis
    using exchange_peer [where peer = slave_peer, OF _ f g(1)] at g(2,3) b by (simp add: slave_port_def)
qed

lemma attached_next: "attached m s \<Longrightarrow> serve1 s d = (r, s') \<Longrightarrow> valid_dgram d \<Longrightarrow> attached (m\<lparr>world := (s', [])\<rparr>) s'"
  using serve1_shape(10) [of s d r s'] by (simp add: attached_def)

text \<open>The two blocking accesses are the execution of one datagram on the slave.\<close>

definition read_dgram :: "u16 \<Rightarrow> u16 \<Rightarrow> u16 \<Rightarrow> dgram" where
  "read_dgram adp ado len = \<lparr>d_cmd = UL_ECAT_CMD_FPRD, d_index = 0, d_adp = adp, d_ado = ado,
     d_len = len, d_irq = 0, d_wkc = 0, d_data = replicate (unat len) 0\<rparr>"

definition write_dgram :: "byte \<Rightarrow> u16 \<Rightarrow> u16 \<Rightarrow> bytes \<Rightarrow> dgram" where
  "write_dgram cmd adp ado data = \<lparr>d_cmd = cmd, d_index = 0, d_adp = adp, d_ado = ado,
     d_len = word_of_nat (length data), d_irq = 0, d_wkc = 0, d_data = data\<rparr>"

lemma encode_read_dgram:
  "unat len \<le> 256 \<Longrightarrow> ul_ecat_dgram_encode 512 UL_ECAT_CMD_FPRD 0 adp ado len 0 0 None = Some (dgram_bytes (read_dgram adp ado len))"
  by (simp add: ul_ecat_dgram_encode_def ul_ecat_dgram_wire_size_def Let_def dgram_bytes_def read_dgram_def)

lemma encode_write_dgram:
  "length data \<le> 256 \<Longrightarrow> ul_ecat_dgram_encode 512 cmd 0 adp ado (word_of_nat (length data)) 0 0 (Some data)
     = Some (dgram_bytes (write_dgram cmd adp ado data))"
  by (simp add: ul_ecat_dgram_encode_def ul_ecat_dgram_wire_size_def Let_def dgram_bytes_def write_dgram_def unat_of_nat)

lemma dgram_valid:
  "unat len \<le> 256 \<Longrightarrow> valid_dgram (read_dgram adp ado len)"
  "length data \<le> 256 \<Longrightarrow> valid_dgram (write_dgram cmd adp ado data)"
  by (simp_all add: valid_dgram_def read_dgram_def write_dgram_def unat_of_nat)

lemma parse_reply:
  assumes "valid_dgram r" "unat (d_len r) \<le> n"
  shows "ul_ecat_dgram_parse (dgram_bytes r) 0 (Some n) = Some r"
    and "ul_ecat_dgram_parse (dgram_bytes r) 0 None = Some (r\<lparr>d_data := []\<rparr>)"
proof -
  have 1: "pdu_split (dgram_bytes r) = Some [dgram_bytes r]"
    using pdu_split_dgrams [of "[r]"] assms(1) by simp
  show "ul_ecat_dgram_parse (dgram_bytes r) 0 (Some n) = Some r"
    using dgram_parse_split [OF 1, of 0 "Some n"] parse_dgram_bytes [OF assms(1), of "Some n"] assms
    by (simp add: valid_dgram_def)
  show "ul_ecat_dgram_parse (dgram_bytes r) 0 None = Some (r\<lparr>d_data := []\<rparr>)"
    using dgram_parse_split [OF 1, of 0 None] parse_dgram_bytes [OF assms(1), of None] assms
    by (simp add: valid_dgram_def)
qed

lemma overlay_full [simp]: "length new = length old \<Longrightarrow> overlay new old = new"
  by (simp add: overlay_def)

lemma fprd_slave:
  assumes "attached m s" "unat len \<le> 256" "serve1 s (read_dgram adp ado len) = (r, s')"
  shows "fprd_blocking slave_port adp ado out len t m = (Some (d_wkc r, overlay (d_data r) out), m\<lparr>world := (s', [])\<rparr>)"
proof -
  note v = dgram_valid(1) [OF assms(2), of adp ado]
  note sh = serve1_shape(1,2) [OF assms(3) v]
  have l: "d_len r = len" "length (d_data r) = unat len"
    using sh by (simp_all add: read_dgram_def valid_dgram_def)
  show ?thesis
    using exchange_slave [OF assms(1) v _ assms(3)] assms(2) l parse_reply(1) [OF sh(1), of "unat len"]
    by (simp add: fprd_blocking_def encode_read_dgram) (simp add: read_dgram_def overlay_def)
qed

lemma write_slave:
  assumes "attached m s" "length data \<le> 256" "serve1 s (write_dgram cmd adp ado data) = (r, s')"
  shows "write_blocking slave_port cmd adp ado data (word_of_nat (length data)) t m
    = (Some (d_wkc r), m\<lparr>world := (s', [])\<rparr>)"
proof -
  note v = dgram_valid(2) [OF assms(2), of cmd adp ado]
  note sh = serve1_shape(1,2) [OF assms(3) v]
  have "unat (d_len (write_dgram cmd adp ado data)) \<le> 256" using assms(2) by (simp add: write_dgram_def unat_of_nat)
  then show ?thesis
    using exchange_slave [OF assms(1) v _ assms(3)] assms(2) parse_reply(2) [OF sh(1) order_refl]
    by (simp add: write_blocking_def encode_write_dgram)
qed

section \<open>Synchronous accesses end to end\<close>

lemma write_dgram_sel [simp]:
  "d_cmd (write_dgram cmd adp ado data) = cmd" "d_adp (write_dgram cmd adp ado data) = adp"
  "d_ado (write_dgram cmd adp ado data) = ado" "d_data (write_dgram cmd adp ado data) = data"
  "length data < 65536 \<Longrightarrow> unat (d_len (write_dgram cmd adp ado data)) = length data"
  by (simp_all add: write_dgram_def unat_of_nat)

lemma read_dgram_sel [simp]:
  "d_cmd (read_dgram adp ado len) = UL_ECAT_CMD_FPRD" "d_adp (read_dgram adp ado len) = adp"
  "d_ado (read_dgram adp ado len) = ado" "d_len (read_dgram adp ado len) = len"
  by (simp_all add: read_dgram_def)

lemma of_nat_length_nonzero: "data \<noteq> [] \<Longrightarrow> length data \<le> 256 \<Longrightarrow> (word_of_nat (length data) :: u16) \<noteq> 0"
  by (simp add: word_unat_eq_iff unat_of_nat)

lemma write_reaches_slave:
  assumes "station_of s = st" "st \<noteq> 0" "data \<noteq> []" "length data \<le> 256" "unat ado + length data \<le> 4096"
  defines "d \<equiv> write_dgram UL_ECAT_CMD_FPWR st ado data"
  shows "is_write d" "addressed s d" "in_mirror d" "valid_dgram d" "d_wkc (fst (serve1 s d)) = 1"
proof -
  show 1: "is_write d" by (simp add: d_def is_write_def)
  show 2: "addressed s d" using assms(1,2) by (simp add: d_def addressed_def station_of_def)
  show 3: "in_mirror d"
    using assms(3-5) of_nat_length_nonzero [OF assms(3,4)] by (simp add: d_def in_mirror_def) (simp add: write_dgram_def)
  show 4: "valid_dgram d" using dgram_valid(2) [OF assms(4)] by (simp add: d_def)
  show "d_wkc (fst (serve1 s d)) = 1" using serve1_write [OF 1 2 3 4] by simp
qed

lemma read_reaches_slave:
  assumes "station_of s = st" "st \<noteq> 0" "len \<noteq> 0" "unat ado + unat len \<le> 4096"
  shows "serve1 s (read_dgram st ado len) =
    ((read_dgram st ado len)\<lparr>d_wkc := 1, d_data := mem_read (esc s) (unat ado) (unat len)\<rparr>,
     ul_ecat_slave_mailbox_on_sm1_read s ado len)"
  using serve1_read [of "read_dgram st ado len" s] assms
  by (simp add: addressed_def in_mirror_def station_of_def)

lemma fpwr_sync_slave:
  assumes "attached m s" "0 \<le> g_sockfd m" "station_of s = st" "st \<noteq> 0"
    and "data \<noteq> []" "length data \<le> 256" "unat ado + length data \<le> 4096" "unat len = length data"
  defines "w \<equiv> write_dgram UL_ECAT_CMD_FPWR st ado data"
  shows "ul_ecat_fpwr_sync slave_port st ado (Some data) len t m = (True, m\<lparr>world := (snd (serve1 s w), [])\<rparr>)"
    and "attached (m\<lparr>world := (snd (serve1 s w), [])\<rparr>) (snd (serve1 s w))"
proof -
  note w = write_reaches_slave [OF assms(3-7), folded w_def]
  have n: "len = word_of_nat (length data)" by (simp flip: assms(8))
  have n2: "len \<noteq> 0" "\<not> 512 < len" using assms(5,6,8) by (auto simp: word_less_nat_alt)
  show "ul_ecat_fpwr_sync slave_port st ado (Some data) len t m = (True, m\<lparr>world := (snd (serve1 s w), [])\<rparr>)"
    using write_slave [OF assms(1,6) prod.collapse [symmetric], of UL_ECAT_CMD_FPWR st ado t] w(5) n2 assms(2)
    unfolding n by (simp add: ul_ecat_fpwr_sync_def fpwr_blocking_def w_def)
  show "attached (m\<lparr>world := (snd (serve1 s w), [])\<rparr>) (snd (serve1 s w))"
    by (rule attached_next [OF assms(1) prod.collapse [symmetric] w(4)])
qed

lemma write_lands:
  assumes "station_of s = st" "st \<noteq> 0" "data \<noteq> []" "length data \<le> 256" "unat ado + length data \<le> 4096"
    and "\<forall>j. unat ado \<le> j \<and> j < unat ado + length data \<longrightarrow> j \<notin> slave_owned \<and> j \<noteq> 0x10 \<and> j \<noteq> 0x11"
  defines "s1 \<equiv> snd (serve1 s (write_dgram UL_ECAT_CMD_FPWR st ado data))"
  shows "station_of s1 = st" "mem_read (esc s1) (unat ado) (length data) = data"
proof -
  let ?w = "write_dgram UL_ECAT_CMD_FPWR st ado data"
  note w = write_reaches_slave [OF assms(1-5)]
  have cov: "covers ?w j \<longleftrightarrow> unat ado \<le> j \<and> j < unat ado + length data" for j
    using assms(4) by (simp add: covers_def)
  have "esc s1 j = esc s j" if "j \<in> {0x10, 0x11}" for j
    unfolding s1_def
  proof (rule serve1_frame [OF prod.collapse [symmetric] w(4)])
    have "\<not> covers ?w j" using cov [of j] assms(6) that by blast
    then show "\<not> (is_write ?w \<and> covers ?w j)" by simp
    show "j \<notin> slave_owned" using that by (auto simp: slave_owned_def)
  qed
  with assms(1) show "station_of s1 = st" by (simp add: station_of_def read_u16_reg)
  show "mem_read (esc s1) (unat ado) (length data) = data"
  proof (rule nth_equalityI)
    fix k assume "k < length (mem_read (esc s1) (unat ado) (length data))"
    then have k: "k < length data" by simp
    then have "covers ?w (unat ado + k)" "unat ado + k \<notin> slave_owned" using cov assms(6) by simp_all
    from serve1_write_lands [OF w(1) w(2) w(3) w(4) this]
    show "mem_read (esc s1) (unat ado) (length data) ! k = data ! k"
      unfolding nth_mem_read [OF k] s1_def by (simp only: write_dgram_sel add_diff_cancel_left')
  qed simp
qed

lemma fprd_sync_slave:
  assumes "attached m s" "0 \<le> g_sockfd m" "station_of s = st" "st \<noteq> 0" "len \<noteq> 0" "unat len \<le> 256"
    and "unat ado + unat len \<le> 4096" "unat len \<le> length buf"
  shows "ul_ecat_fprd_sync slave_port st ado len (Some buf) t m
    = ((Some (unat len), Some (overlay (mem_read (esc s) (unat ado) (unat len)) buf)),
       m\<lparr>world := (ul_ecat_slave_mailbox_on_sm1_read s ado len, [])\<rparr>)"
proof -
  have "\<not> 512 < len" using assms(6) by (simp add: word_less_nat_alt)
  then show ?thesis
    using fprd_slave [OF assms(1,6) read_reaches_slave [OF assms(3,4,5,7)], of buf t] assms(2,5,8)
    by (simp add: ul_ecat_fprd_sync_def)
qed

text \<open>
  Over the wire, what \<open>ul_ecat_fpwr_sync\<close> writes to an area of the
  slave's mirror that the slave does not manage itself (AL and SyncManager registers, mailboxes),
  and that is not its station address, \<open>ul_ecat_fprd_sync\<close> reads back: both calls
  succeed and the buffer holds the data.
\<close>

theorem master_write_read:
  assumes "attached m s" "0 \<le> g_sockfd m" "station_of s = st" "st \<noteq> 0"
    and "data \<noteq> []" "length data \<le> 256" "unat ado + length data \<le> 4096"
    and "\<forall>j. unat ado \<le> j \<and> j < unat ado + length data \<longrightarrow> j \<notin> slave_owned \<and> j \<noteq> 0x10 \<and> j \<noteq> 0x11"
    and "length buf = length data"
  shows "\<exists>m1 m2. ul_ecat_fpwr_sync slave_port st ado (Some data) (word_of_nat (length data)) t m = (True, m1) \<and>
    ul_ecat_fprd_sync slave_port st ado (word_of_nat (length data)) (Some buf) t m1
      = ((Some (length data), Some data), m2)"
proof -
  have n: "unat (word_of_nat (length data) :: u16) = length data" "(word_of_nat (length data) :: u16) \<noteq> 0"
    using assms(6) of_nat_length_nonzero [OF assms(5,6)] by (simp_all add: unat_of_nat)
  note put = fpwr_sync_slave [OF assms(1-7) n(1)] and there = write_lands [OF assms(3-8)]
  have "ul_ecat_fprd_sync slave_port st ado (word_of_nat (length data)) (Some buf) t
      (m\<lparr>world := (snd (serve1 s (write_dgram UL_ECAT_CMD_FPWR st ado data)), [])\<rparr>) = ((Some (length data), Some data),
        m\<lparr>world := (ul_ecat_slave_mailbox_on_sm1_read (snd (serve1 s (write_dgram UL_ECAT_CMD_FPWR st ado data))) ado
          (word_of_nat (length data)), [])\<rparr>)"
    using fprd_sync_slave [OF put(2) _ there(1) assms(4) n(2), of ado buf t] n(1) assms(2,6,7,9) there(2)
    by (simp add: overlay_def)
  with put(1) show ?thesis by blast
qed

section \<open>AL state requests end to end\<close>

lemma write_dgram_al: "write_dgram UL_ECAT_CMD_FPWR st 0x120 (le16 w) = al_request st w"
  by (simp add: write_dgram_def al_request_def)

lemma write_al_control_slave:
  assumes "attached m s" "al_shows (esc s) v" "station_of s = st" "st \<noteq> 0"
  obtains s' where "write_al_control_blocking slave_port st w t m = (True, m\<lparr>world := (s', [])\<rparr>)"
    "attached (m\<lparr>world := (s', [])\<rparr>) s'" "station_of s' = st"
    "al_shows (esc s') (al_spec (ul_ecat_sm_validate_mailbox_pair (esc s)) v
       (ucast (w AND UL_ECAT_AL_MASK_STATE)) (w AND UL_ECAT_AL_CTRL_ACK \<noteq> 0))"
    "ul_ecat_sm_validate_mailbox_pair (esc s') = ul_ecat_sm_validate_mailbox_pair (esc s)"
proof -
  obtain r s' where rs: "serve1 s (al_request st w) = (r, s')" by (cases "serve1 s (al_request st w)")
  note step = al_request_step [OF assms(2,3,4) rs]
  have "write_al_control_blocking slave_port st w t m = (True, m\<lparr>world := (s', [])\<rparr>)"
    using write_slave [OF assms(1), of "le16 w" UL_ECAT_CMD_FPWR st "0x120" r s' t] rs step(1)
    by (simp add: write_al_control_blocking_def fpwr_blocking_def write_dgram_al)
  then show thesis
    by (rule that [OF _ attached_next [OF assms(1) rs al_request_valid(1)] step(3,2,4)])
qed

lemma read_al_status_slave:
  assumes "attached m s" "al_shows (esc s) v" "station_of s = st" "st \<noteq> 0"
  obtains s' where "read_al_status_blocking slave_port st t m = (Some (al_word (al_st v) (al_err v)), m\<lparr>world := (s', [])\<rparr>)"
    "attached (m\<lparr>world := (s', [])\<rparr>) s'" "al_shows (esc s') v" "station_of s' = st"
    "ul_ecat_sm_validate_mailbox_pair (esc s') = ul_ecat_sm_validate_mailbox_pair (esc s)"
proof -
  let ?s' = "ul_ecat_slave_mailbox_on_sm1_read s 0x130 2"
  have r: "serve1 s (read_dgram st 0x130 2) =
    ((read_dgram st 0x130 2)\<lparr>d_wkc := 1, d_data := mem_read (esc s) 0x130 2\<rparr>, ?s')"
    using read_reaches_slave [OF assms(3,4), of 2 "0x130"] by simp
  have raw: "r16_le (mem_read (esc s) 0x130 2) 0 = al_word (al_st v) (al_err v)"
    using assms(2) by (simp add: al_shows_def r16_le_def nth_mem_read read_u16_reg)
  have "length (stack_bytes slave_port 2 (world m)) = 2"
    by (simp add: slave_port_def peer_port_def)
  with fprd_slave [OF assms(1) _ r, of "stack_bytes slave_port 2 (world m)" t] have
    "read_al_status_blocking slave_port st t m = (Some (al_word (al_st v) (al_err v)), m\<lparr>world := (?s', [])\<rparr>)"
    by (simp add: read_al_status_blocking_def raw)
  moreover have far: "esc ?s' j = esc s j" if "j \<noteq> 0x80D" for j
    using that by (simp add: on_sm1_read_frame)
  moreover have "al_shows (esc ?s') v"
    using assms(2) far by (subst al_shows_cong [of _ "esc s"]) auto
  moreover have "station_of ?s' = st" using assms(3) far by (simp add: station_of_def read_u16_reg)
  moreover have "ul_ecat_sm_validate_mailbox_pair (esc ?s') = ul_ecat_sm_validate_mailbox_pair (esc s)"
    using configured_cong(4) [of ?s' s 0] configured_cong(4) [of ?s' s 1] far
    by (simp add: validate_mailbox_pair_iff)
  moreover have "attached (m\<lparr>world := (?s', [])\<rparr>) ?s'"
    by (rule attached_next [OF assms(1) r]) (simp add: dgram_valid)
  ultimately show thesis by (intro that [of ?s'])
qed


lemma poll_state_slave:
  assumes "attached m s" "al_shows (esc s) v" "station_of s = st" "st \<noteq> 0" "station_address (g_slaves_db m ! i) = st"
    and "0 < t" "al_err v \<or> desired = ucast (al_code (al_st v))"
  obtains s' where "poll_from slave_port i desired t 0 m
     = (\<not> al_err v, if al_err v then m\<lparr>world := (s', [])\<rparr> else set_state i desired (m\<lparr>world := (s', [])\<rparr>))"
    "attached (m\<lparr>world := (s', [])\<rparr>) s'" "al_shows (esc s') v" "station_of s' = st"
    "ul_ecat_sm_validate_mailbox_pair (esc s') = ul_ecat_sm_validate_mailbox_pair (esc s)"
proof -
  obtain s' where s': "read_al_status_blocking slave_port st 200 m = (Some (al_word (al_st v) (al_err v)), m\<lparr>world := (s', [])\<rparr>)"
    "attached (m\<lparr>world := (s', [])\<rparr>) s'" "al_shows (esc s') v" "station_of s' = st"
    "ul_ecat_sm_validate_mailbox_pair (esc s') = ul_ecat_sm_validate_mailbox_pair (esc s)"
    by (rule read_al_status_slave [OF assms(1-4)])
  have "poll_from slave_port i desired t 0 m
     = (\<not> al_err v, if al_err v then m\<lparr>world := (s', [])\<rparr> else set_state i desired (m\<lparr>world := (s', [])\<rparr>))"
    using s'(1) assms(5-7) al_word_error [of "al_st v" "al_err v"] al_status_word(1) [of "al_st v" "al_err v"]
    by (subst poll_from.simps) (auto simp del: al_status_word)
  then show thesis using s'(2-5) by (rule that)
qed

lemma state_nibble: "ucast (ul_ecat_al_control_word (ucast ((ucast (al_code t) :: u32) AND 0x0F)) ack AND UL_ECAT_AL_MASK_STATE) = al_code t"
  by (cases t; cases ack) (simp_all add: ul_ecat_al_control_word_def)

lemma al_spec_reached: "\<not> al_err (al_spec mbx v (al_code t) False) \<Longrightarrow> al_st (al_spec mbx v (al_code t) False) = t"
  by (auto simp: al_spec_def al_reject_def split: if_splits option.splits)

lemma request_state_slave:
  fixes t :: al_state and v :: al_view
  assumes "attached m s" "al_shows (esc s) v" "station_of s = st" "st \<noteq> 0"
    and "i < length (g_slaves_db m)" "station_address (g_slaves_db m ! i) = st"
  defines "v' \<equiv> al_spec (ul_ecat_sm_validate_mailbox_pair (esc s)) v (al_code t) False"
  shows "\<exists>ok m' s'. ul_ecat_request_slave_state slave_port (int i) (ucast (al_code t)) m = (ok, m') \<and>
    attached m' s' \<and> station_of s' = st \<and> g_sockfd m' = g_sockfd m \<and>
    ul_ecat_sm_validate_mailbox_pair (esc s') = ul_ecat_sm_validate_mailbox_pair (esc s) \<and>
    (if al_err v' then \<not> ok \<and> al_shows (esc s') v' \<and> g_slaves_db m' = g_slaves_db m
     else ok \<and> al_shows (esc s') \<lparr>al_st = t, al_err = False, al_status_code = 0\<rparr> \<and>
          g_slaves_db m' = (g_slaves_db m)[i := (g_slaves_db m ! i)\<lparr>m_state := ucast (al_code t)\<rparr>])"
proof -
  let ?w = "\<lambda>ack. ul_ecat_al_control_word (ucast ((ucast (al_code t) :: u32) AND 0x0F)) ack"
  obtain s1 where s1: "write_al_control_blocking slave_port st (?w False) 500 m = (True, m\<lparr>world := (s1, [])\<rparr>)"
    "attached (m\<lparr>world := (s1, [])\<rparr>) s1" "station_of s1 = st" "al_shows (esc s1) v'"
    "ul_ecat_sm_validate_mailbox_pair (esc s1) = ul_ecat_sm_validate_mailbox_pair (esc s)"
    by (rule write_al_control_slave [OF assms(1-4), of "?w False" 500])
       (simp add: state_nibble control_word_ack v'_def)
  have db: "station_address (g_slaves_db (m\<lparr>world := (s1, [])\<rparr>) ! i) = st" using assms(6) by simp
  have target: "al_err v' \<or> ucast (al_code t) = (ucast (al_code (al_st v')) :: u32)"
    by (cases "al_err v'") (simp_all add: v'_def al_spec_reached)
  obtain s2 where s2: "poll_from slave_port i (ucast (al_code t)) 3000 0 (m\<lparr>world := (s1, [])\<rparr>)
     = (\<not> al_err v', if al_err v' then m\<lparr>world := (s2, [])\<rparr> else set_state i (ucast (al_code t)) (m\<lparr>world := (s2, [])\<rparr>))"
    "attached (m\<lparr>world := (s2, [])\<rparr>) s2" "al_shows (esc s2) v'" "station_of s2 = st"
    "ul_ecat_sm_validate_mailbox_pair (esc s2) = ul_ecat_sm_validate_mailbox_pair (esc s)"
    using s1(5) poll_state_slave [OF s1(2,4,3) assms(4) db _ target, of 3000] by (auto cong: if_cong)
  show ?thesis
  proof (cases "al_err v'")
    case True
    with s1(1) s2(1) assms(5,6)
    have "ul_ecat_request_slave_state slave_port (int i) (ucast (al_code t)) m = (False, m\<lparr>world := (s2, [])\<rparr>)"
      by (simp add: ul_ecat_request_slave_state_def ul_ecat_request_slave_state_mailbox_def
          ul_ecat_poll_slave_state_def Let_def)
    with True s2(2-5) show ?thesis
      by (intro exI [of _ False] exI [of _ "m\<lparr>world := (s2, [])\<rparr>"] exI [of _ s2]) simp
  next
    case False
    let ?m2 = "set_state i (ucast (al_code t)) (m\<lparr>world := (s2, [])\<rparr>)"
    have at2: "attached ?m2 s2" using s2(2) by (simp add: attached_def set_state_def)
    have st': "al_st v' = t" using al_spec_reached False by (simp add: v'_def)
    obtain s3 where s3: "write_al_control_blocking slave_port st (?w True) 500 ?m2 = (True, ?m2\<lparr>world := (s3, [])\<rparr>)"
      "attached (?m2\<lparr>world := (s3, [])\<rparr>) s3" "station_of s3 = st"
      "al_shows (esc s3) \<lparr>al_st = t, al_err = False, al_status_code = 0\<rparr>"
      "ul_ecat_sm_validate_mailbox_pair (esc s3) = ul_ecat_sm_validate_mailbox_pair (esc s2)"
      by (rule write_al_control_slave [OF at2 s2(3,4) assms(4), of "?w True" 500])
         (use st' False in \<open>cases v'; simp add: state_nibble control_word_ack al_spec_def\<close>)
    let ?m3 = "?m2\<lparr>world := (s3, [])\<rparr>"
    have "ul_ecat_request_slave_state slave_port (int i) (ucast (al_code t)) m = (True, ?m3)"
      using False s1(1) s2(1) s3(1) assms(5,6)
      by (simp add: ul_ecat_request_slave_state_def ul_ecat_request_slave_state_mailbox_def
          ul_ecat_poll_slave_state_def Let_def)
    moreover have "g_slaves_db ?m3 = (g_slaves_db m)[i := (g_slaves_db m ! i)\<lparr>m_state := ucast (al_code t)\<rparr>]"
      "g_sockfd ?m3 = g_sockfd m"
      by (simp_all add: set_state_def)
    ultimately show ?thesis
      using False s2(5) s3(2-5) by (intro exI [of _ True] exI [of _ ?m3] exI [of _ s3]) simp
  qed
qed

text \<open>
  Property C13. \<open>ul_ecat_request_slave_state\<close> against the slave does what the abstract
  AL machine says: if the machine takes the transition, the call succeeds, the slave shows the
  requested state and the master's database records it; if it refuses, the call fails, the slave
  shows the refusal and the database is unchanged.
\<close>

theorem master_state_request:
  fixes t :: al_state and v :: al_view
  assumes "attached m s" "al_shows (esc s) v" "station_of s = st" "st \<noteq> 0"
    and "i < length (g_slaves_db m)" "station_address (g_slaves_db m ! i) = st"
  defines "v' \<equiv> al_spec (ul_ecat_sm_validate_mailbox_pair (esc s)) v (al_code t) False"
  shows "\<exists>ok m' s'. ul_ecat_request_slave_state slave_port (int i) (ucast (al_code t)) m = (ok, m') \<and>
    attached m' s' \<and> station_of s' = st \<and>
    (if al_err v' then \<not> ok \<and> al_shows (esc s') v' \<and> g_slaves_db m' = g_slaves_db m
     else ok \<and> al_shows (esc s') \<lparr>al_st = t, al_err = False, al_status_code = 0\<rparr> \<and>
          g_slaves_db m' = (g_slaves_db m)[i := (g_slaves_db m ! i)\<lparr>m_state := ucast (al_code t)\<rparr>])"
  using request_state_slave [OF assms(1-6), of t] unfolding v'_def by blast

section \<open>Scanning\<close>

text \<open>What any scan leaves behind: the entries are the positions answered, in order.\<close>

definition db_entry :: "nat \<Rightarrow> mslave \<Rightarrow> bool" where
  "db_entry i e \<longleftrightarrow> station_address e = word_of_nat (0x1000 + i) \<and> m_state e = UL_ECAT_SLAVE_STATE_INIT \<and> m_device_name e = []"

lemma exchange_db [simp]: "exchange_ec_payload port ec cap t m = (r, m') \<Longrightarrow> g_slaves_db m' = g_slaves_db m"
  by (auto simp: exchange_ec_payload_def send_ec_payload_def recv_eth_frame_def on_world_def
      split: option.splits prod.splits if_splits)

lemma fprd_db: "fprd_blocking port st ado out len t m = (r, m') \<Longrightarrow> g_slaves_db m' = g_slaves_db m"
  by (auto simp: fprd_blocking_def split: option.splits prod.splits)

lemma write_db: "write_blocking port c st ado data len t m = (r, m') \<Longrightarrow> g_slaves_db m' = g_slaves_db m"
  by (auto simp: write_blocking_def split: option.splits prod.splits)

lemma read_identity_db: "read_identity port st reg tmp m = (v, tmp', m') \<Longrightarrow> g_slaves_db m' = g_slaves_db m"
  by (auto simp: read_identity_def dest: fprd_db split: option.splits prod.splits)

lemma scan_positions_db:
  "length (g_slaves_db m) = k \<Longrightarrow> \<forall>i < k. db_entry i (g_slaves_db m ! i) \<Longrightarrow> k \<le> n \<Longrightarrow>
     (let db = g_slaves_db (scan_positions port [k ..< n] m) in
      length db \<le> n \<and> (\<forall>i < length db. db_entry i (db ! i)))"
proof (induction "n - k" arbitrary: k m)
  case 0
  then show ?case by simp
next
  case (Suc d)
  then have up: "[k ..< n] = k # [Suc k ..< n]" by (simp add: upt_conv_Cons)
  obtain r m1 where a: "apwr_blocking port (word_of_nat k) 0x0010 (le16 (word_of_nat (0x1000 + k))) 2 200 m = (r, m1)"
    by (metis surj_pair)
  have db1: "g_slaves_db m1 = g_slaves_db m" using a by (simp add: apwr_blocking_def write_db)
  show ?case
  proof (cases "\<exists>wkc. r = Some wkc \<and> \<not> wkc < 1")
    case False
    then have "scan_positions port [k ..< n] m = m1"
      using a unfolding up by (auto simp: Let_def split: option.splits)
    then show ?thesis using db1 Suc.prems by (simp add: Let_def)
  next
    case True
    let ?st = "word_of_nat (0x1000 + k) :: u16"
    obtain vid t1 m2 where r1: "read_identity port ?st 0x0012 (stack_bytes port 4 (world m1)) m1 = (vid, t1, m2)"
      by (metis surj_pair)
    obtain pid t2 m3 where r2: "read_identity port ?st 0x0016 t1 m2 = (pid, t2, m3)" by (metis surj_pair)
    obtain rev t3 m4 where r3: "read_identity port ?st 0x001A t2 m3 = (rev, t3, m4)" by (metis surj_pair)
    obtain ser t4 m5 where r4: "read_identity port ?st 0x001E t3 m4 = (ser, t4, m5)" by (metis surj_pair)
    let ?e = "\<lparr>station_address = ?st, m_state = UL_ECAT_SLAVE_STATE_INIT, m_vendor_id = vid,
       m_product_code = pid, m_revision_no = rev, m_serial_no = ser, m_device_name = []\<rparr>"
    let ?m = "m5\<lparr>g_slaves_db := g_slaves_db m5 @ [?e]\<rparr>"
    have db5: "g_slaves_db m5 = g_slaves_db m"
      using db1 read_identity_db [OF r1] read_identity_db [OF r2] read_identity_db [OF r3] read_identity_db [OF r4] by simp
    have step: "scan_positions port [k ..< n] m = scan_positions port [Suc k ..< n] ?m"
      using True a r1 r2 r3 r4 unfolding up by (auto simp: Let_def)
    have "length (g_slaves_db ?m) = Suc k" using db5 Suc.prems(1) by simp
    moreover have "\<forall>i < Suc k. db_entry i (g_slaves_db ?m ! i)"
      using Suc.prems(1,2) db5 by (simp add: nth_append less_Suc_eq db_entry_def)
    moreover have "Suc k \<le> n" "d = n - Suc k" using Suc.hyps(2) by simp_all
    ultimately show ?thesis
      unfolding step using Suc.hyps(1) [of "Suc k" ?m] by blast
  qed
qed

text \<open>
  Whatever the network answers, \<open>ul_ecat_scan_network\<close> leaves at most
  \<open>UL_ECAT_MAX_SLAVES\<close> entries, entry i has station address 0x1000 + i, and every
  entry is in state INIT.
\<close>

theorem scan_database:
  "length (g_slaves_db (ul_ecat_scan_network port m)) \<le> UL_ECAT_MAX_SLAVES \<and>
   map station_address (g_slaves_db (ul_ecat_scan_network port m))
     = map (\<lambda>i. word_of_nat (0x1000 + i)) [0 ..< length (g_slaves_db (ul_ecat_scan_network port m))] \<and>
   list_all (\<lambda>e. m_state e = UL_ECAT_SLAVE_STATE_INIT) (g_slaves_db (ul_ecat_scan_network port m))"
proof -
  have "length db \<le> 16 \<and> (\<forall>i < length db. db_entry i (db ! i))"
    if "db = g_slaves_db (ul_ecat_scan_network port m)" for db
    using scan_positions_db [of "m\<lparr>g_slaves_db := []\<rparr>" 0 16 port] that
    by (simp add: ul_ecat_scan_network_def Let_def)
  from this [OF refl] show ?thesis
    by (auto intro!: nth_equalityI simp: db_entry_def list_all_length)
qed

section \<open>Scanning a slave\<close>

lemma apwr_position:
  assumes "attached m s" "logical_position s = 0"
  shows "k = 0 \<Longrightarrow> apwr_blocking slave_port (word_of_nat k) 0x0010 (le16 w) 2 200 m
      = (Some 1, m\<lparr>world := (s\<lparr>esc := mem_write (esc s) 0x10 (le16 w)\<rparr>, [])\<rparr>)"
    and "k = 1 \<Longrightarrow> apwr_blocking slave_port (word_of_nat k) 0x0010 (le16 w) 2 200 m = (Some 0, m\<lparr>world := (s, [])\<rparr>)"
proof -
  let ?d = "\<lambda>k. write_dgram UL_ECAT_CMD_APWR (word_of_nat k) 0x10 (le16 w)"
  have v: "valid_dgram (?d k)" for k by (rule dgram_valid(2)) simp
  have l: "d_len (write_dgram c a r (le16 w)) = 2" for c a r by (simp add: write_dgram_def)
  have 0: "serve1 s (?d 0) = ((?d 0)\<lparr>d_wkc := 1\<rparr>, s\<lparr>esc := mem_write (esc s) 0x10 (le16 w)\<rparr>)"
    by (subst serve1_write [OF _ _ _ v])
       (simp_all add: is_write_def addressed_def in_mirror_def covers_def l assms(2))
  have 1: "serve1 s (?d 1) = ((?d 1)\<lparr>d_wkc := 0\<rparr>, s)"
    by (rule serve1_unaddressed [OF _ v]) (simp add: addressed_def assms(2))
  show "k = 0 \<Longrightarrow> apwr_blocking slave_port (word_of_nat k) 0x0010 (le16 w) 2 200 m
      = (Some 1, m\<lparr>world := (s\<lparr>esc := mem_write (esc s) 0x10 (le16 w)\<rparr>, [])\<rparr>)"
    using write_slave [OF assms(1) _ 0, of 200] by (simp add: apwr_blocking_def)
  show "k = 1 \<Longrightarrow> apwr_blocking slave_port (word_of_nat k) 0x0010 (le16 w) 2 200 m = (Some 0, m\<lparr>world := (s, [])\<rparr>)"
    using write_slave [OF assms(1) _ 1, of 200] by (simp add: apwr_blocking_def)
qed

lemma read_identity_slave:
  assumes "attached m s" "station_of s = st" "st \<noteq> 0" "unat reg + 4 \<le> 0x100" "length tmp = 4"
  shows "\<exists>tmp'. length tmp' = 4 \<and> read_identity slave_port st reg tmp m
    = (of_le32 (esc s (unat reg)) (esc s (unat reg + 1)) (esc s (unat reg + 2)) (esc s (unat reg + 3)), tmp',
       m\<lparr>world := (ul_ecat_slave_mailbox_on_sm1_read s reg 4, [])\<rparr>) \<and>
     attached (m\<lparr>world := (ul_ecat_slave_mailbox_on_sm1_read s reg 4, [])\<rparr>) (ul_ecat_slave_mailbox_on_sm1_read s reg 4)"
proof -
  have r: "serve1 s (read_dgram st reg 4) =
    ((read_dgram st reg 4)\<lparr>d_wkc := 1, d_data := mem_read (esc s) (unat reg) 4\<rparr>,
     ul_ecat_slave_mailbox_on_sm1_read s reg 4)"
    using read_reaches_slave [OF assms(2,3), of 4 reg] assms(4) by simp
  have v: "valid_dgram (read_dgram st reg 4)" by (simp add: dgram_valid)
  show ?thesis
    using fprd_slave [OF assms(1) _ r, of tmp 200] assms(5) attached_next [OF assms(1) r v]
    by (simp add: read_identity_def nth_mem_read)
qed

lemma sm1_read_keep: "j < 0x800 \<Longrightarrow> esc (ul_ecat_slave_mailbox_on_sm1_read s a n) j = esc s j"
  by (simp add: on_sm1_read_frame)

text \<open>A double word of the identity block, and a slave that later still shows what \<open>s\<close> showed.\<close>

definition reg32 :: "mem \<Rightarrow> nat \<Rightarrow> u32" where
  "reg32 e a = of_le32 (e a) (e (a + 1)) (e (a + 2)) (e (a + 3))"

definition still :: "slave \<Rightarrow> slave \<Rightarrow> bool" where
  "still s s' \<longleftrightarrow> (\<forall>j < 0x800. esc s' j = esc s j) \<and> logical_position s' = logical_position s \<and> mac s' = mac s"

lemma still_refl: "still s s"
  by (simp add: still_def)

lemma still_station: "still s s' \<Longrightarrow> station_of s' = station_of s"
  by (simp add: still_def station_of_def read_u16_reg)

lemma still_reg32: "still s s' \<Longrightarrow> a + 4 \<le> 0x100 \<Longrightarrow> reg32 (esc s') a = reg32 (esc s) a"
  by (simp add: still_def reg32_def)

lemma read_identity_still:
  assumes "attached m s1" "still s s1" "station_of s = st" "st \<noteq> 0" "unat reg + 4 \<le> 0x100" "length tmp = 4"
  obtains tmp' s2 where "read_identity slave_port st reg tmp m = (reg32 (esc s) (unat reg), tmp', m\<lparr>world := (s2, [])\<rparr>)"
    "attached (m\<lparr>world := (s2, [])\<rparr>) s2" "still s s2" "length tmp' = 4"
proof -
  let ?s2 = "ul_ecat_slave_mailbox_on_sm1_read s1 reg 4"
  have "station_of s1 = st" using assms(2,3) still_station by simp
  from read_identity_slave [OF assms(1) this assms(4-6)] obtain tmp' where
    "length tmp' = 4" "read_identity slave_port st reg tmp m = (reg32 (esc s1) (unat reg), tmp', m\<lparr>world := (?s2, [])\<rparr>)"
    "attached (m\<lparr>world := (?s2, [])\<rparr>) ?s2"
    unfolding reg32_def by blast
  moreover have "still s ?s2"
    using assms(2) by (simp add: still_def sm1_read_keep) (simp add: on_sm1_read_eq Let_def)
  ultimately show ?thesis using that still_reg32 [OF assms(2,5)] by simp
qed

lemma init_identity:
  fixes mc :: bytes and ident :: slave_identity and w :: u16
  defines "e \<equiv> mem_write (esc (ul_ecat_slave_init mc ident)) 0x10 (le16 w)"
  shows "reg32 e 0x12 = vendor_id ident" "reg32 e 0x16 = product_code ident" "reg32 e 0x1A = revision ident"
    "reg32 e 0x1E = serial ident"
  by (simp_all add: e_def reg32_def ul_ecat_slave_init_def ul_ecat_esc_set_al_status_init_def
      ul_ecat_esc_apply_identity_def Let_def le16_def le32_def of_le32_bytes)

text \<open>What a scan of one fresh slave leaves: the master as it was but for its database, and the slave with its address.\<close>

definition assigned :: "bytes \<Rightarrow> slave_identity \<Rightarrow> slave" where
  "assigned mc ident =
     (let s = ul_ecat_slave_init mc ident in s\<lparr>esc := mem_write (esc s) 0x10 (le16 0x1000)\<rparr>)"

definition found :: "slave_identity \<Rightarrow> mslave" where
  "found ident =
     \<lparr>station_address = 0x1000, m_state = UL_ECAT_SLAVE_STATE_INIT, m_vendor_id = vendor_id ident,
      m_product_code = product_code ident, m_revision_no = revision ident, m_serial_no = serial ident,
      m_device_name = []\<rparr>"

lemma assigned_facts: "station_of (assigned mc ident) = 0x1000"
  "al_shows (esc (assigned mc ident)) \<lparr>al_st = Init, al_err = False, al_status_code = 0\<rparr>"
proof -
  show "station_of (assigned mc ident) = 0x1000"
    by (simp add: assigned_def Let_def station_of_def read_u16_reg le16_def of_le16_def)
  show "al_shows (esc (assigned mc ident)) \<lparr>al_st = Init, al_err = False, al_status_code = 0\<rparr>"
    using slave_init_al [of mc ident]
    by (subst al_shows_cong [of _ "esc (ul_ecat_slave_init mc ident)"]) (simp_all add: assigned_def Let_def mem_write_outside)
qed

lemma still_al: "still s s' \<Longrightarrow> al_shows (esc s) v \<Longrightarrow> al_shows (esc s') v"
  by (subst al_shows_cong [of _ "esc s"]) (simp_all add: still_def)

lemma scan_fresh_slave:
  assumes "world m = (ul_ecat_slave_init mc ident, [])" "length mc = 6" "length (g_dst_mac m) = 6" "length (g_src_mac m) = 6"
  obtains s where "ul_ecat_scan_network slave_port m = m\<lparr>g_slaves_db := [found ident], world := (s, [])\<rparr>"
    "still (assigned mc ident) s" "attached (m\<lparr>g_slaves_db := [found ident], world := (s, [])\<rparr>) s"
proof -
  define s0 where "s0 = ul_ecat_slave_init mc ident"
  define s1 where s1: "s1 = assigned mc ident"
  have s1_def: "s1 = s0\<lparr>esc := mem_write (esc s0) 0x10 (le16 0x1000)\<rparr>" by (simp add: s1 assigned_def s0_def Let_def)
  let ?m0 = "m\<lparr>g_slaves_db := []\<rparr>" and ?on = "\<lambda>s. m\<lparr>g_slaves_db := [], world := (s, [])\<rparr>"
  have at0: "attached ?m0 s0" and at1: "attached (?on s1) s1"
    using assms by (simp_all add: attached_def s1_def s0_def ul_ecat_slave_init_def)
  have st1: "station_of s1 = 0x1000" by (simp add: s1 assigned_facts)
  have tmp0: "length (stack_bytes slave_port 4 (world (?on s1))) = 4" by (simp add: slave_port_def peer_port_def)
  note ids = init_identity [of mc ident "0x1000", folded s0_def]
  obtain t1 s2 where 2: "read_identity slave_port 0x1000 0x12 (stack_bytes slave_port 4 (world (?on s1))) (?on s1)
      = (vendor_id ident, t1, ?on s2)" "attached (?on s2) s2" "still s1 s2" "length t1 = 4"
    by (rule read_identity_still [OF at1 still_refl st1 _ _ tmp0, of "0x12"]) (simp_all add: ids s1_def)
  obtain t2 s3 where 3: "read_identity slave_port 0x1000 0x16 t1 (?on s2) = (product_code ident, t2, ?on s3)"
      "attached (?on s3) s3" "still s1 s3" "length t2 = 4"
    by (rule read_identity_still [OF 2(2,3) st1 _ _ 2(4), of "0x16"]) (simp_all add: ids s1_def)
  obtain t3 s4 where 4: "read_identity slave_port 0x1000 0x1A t2 (?on s3) = (revision ident, t3, ?on s4)"
      "attached (?on s4) s4" "still s1 s4" "length t3 = 4"
    by (rule read_identity_still [OF 3(2,3) st1 _ _ 3(4), of "0x1A"]) (simp_all add: ids s1_def)
  obtain t4 s5 where 5: "read_identity slave_port 0x1000 0x1E t3 (?on s4) = (serial ident, t4, ?on s5)"
      "attached (?on s5) s5" "still s1 s5"
    by (rule read_identity_still [OF 4(2,3) st1 _ _ 4(4), of "0x1E"]) (simp_all add: ids s1_def)
  let ?m5 = "(?on s5)\<lparr>g_slaves_db := [found ident]\<rparr>"
  have at5: "attached ?m5 s5" using 5(2) by (simp add: attached_def)
  have first: "apwr_blocking slave_port (word_of_nat 0) 0x0010 (le16 0x1000) 2 200 ?m0 = (Some 1, ?on s1)"
    using apwr_position(1) [OF at0, of 0 "0x1000"] by (simp add: s0_def ul_ecat_slave_init_def s1_def)
  have last: "apwr_blocking slave_port (word_of_nat 1) 0x0010 (le16 (word_of_nat (0x1000 + 1))) 2 200 ?m5 = (Some 0, ?m5\<lparr>world := (s5, [])\<rparr>)"
    by (rule apwr_position(2) [OF at5]) (use 5(3) in \<open>simp_all add: still_def s1_def s0_def ul_ecat_slave_init_def\<close>)
  have up: "[0 ..< 16] = 0 # 1 # [2 ..< 16]" by (simp add: upt_conv_Cons)
  have scan: "ul_ecat_scan_network slave_port m = ?m5\<lparr>world := (s5, [])\<rparr>"
    unfolding ul_ecat_scan_network_def up using first 2(1) 3(1) 4(1) 5(1) last by (simp add: Let_def found_def)
  show ?thesis
    by (rule that [of s5]) (use scan 5(3) at5 in \<open>simp_all add: s1 attached_def\<close>)
qed

text \<open>
  Property C14. Scanning a network of one freshly initialised slave finds exactly it: the database
  holds one entry with station address 0x1000 and the vendor, product, revision and serial numbers
  of the slave's identity, the slave has taken that station address, and it is still in INIT.
\<close>

theorem scan_finds_slave:
  assumes "world m = (ul_ecat_slave_init mc ident, [])" "length mc = 6" "length (g_dst_mac m) = 6" "length (g_src_mac m) = 6"
  shows "g_slaves_db (ul_ecat_scan_network slave_port m) =
      [\<lparr>station_address = 0x1000, m_state = UL_ECAT_SLAVE_STATE_INIT, m_vendor_id = vendor_id ident,
        m_product_code = product_code ident, m_revision_no = revision ident, m_serial_no = serial ident,
        m_device_name = []\<rparr>] \<and>
    (\<exists>s. attached (ul_ecat_scan_network slave_port m) s \<and> station_of s = 0x1000 \<and>
       al_shows (esc s) \<lparr>al_st = Init, al_err = False, al_status_code = 0\<rparr>)"
proof -
  obtain s where "ul_ecat_scan_network slave_port m = m\<lparr>g_slaves_db := [found ident], world := (s, [])\<rparr>"
    "still (assigned mc ident) s" "attached (m\<lparr>g_slaves_db := [found ident], world := (s, [])\<rparr>) s"
    by (rule scan_fresh_slave [OF assms])
  then show ?thesis
    using still_station still_al [OF _ assigned_facts(2)] assigned_facts(1) by (auto simp: found_def)
qed

section \<open>Draining the port\<close>

text \<open>
  What one received frame does to the master, with the clock as a value: no part of it looks at the
  transport.
\<close>

definition dc_effect :: "u64 \<Rightarrow> u64 \<Rightarrow> 't master \<Rightarrow> 't master" where
  "dc_effect now slave_time m =
     (let off = slave_time - now; m1 = m\<lparr>g_dc_offset := off, g_dc_timeout := 0\<rparr> in
      if llabs off > g_dc_threshold_ns
      then snd (post_evt (EV_DC \<lparr>dc_event_kind = UL_ECAT_DC_EVENT_ERROR, offset_ns = off, dc_error = 1\<rparr>)
             (m1\<lparr>g_dc_error_code := 1, g_dc_state := 3\<rparr>))
      else snd (post_evt (EV_DC \<lparr>dc_event_kind = UL_ECAT_DC_EVENT_SYNC, offset_ns = off, dc_error = 0\<rparr>)
             (ul_ecat_queue_fpwr 0 0x0920 (le32 (ucast (- off))) 4 m1)))"

definition rx_effect :: "u64 \<Rightarrow> bytes \<Rightarrow> nat \<Rightarrow> 't master \<Rightarrow> 't master" where
  "rx_effect now pdu i m =
     (case ul_ecat_dgram_parse pdu i (Some 32) of
        None \<Rightarrow> m
      | Some d \<Rightarrow> if d_cmd d = UL_ECAT_CMD_FPRD \<and> d_ado d = 0x0910 \<and> d_len d \<ge> 8 \<and> d_wkc d \<ge> 1
                  then dc_effect now (of_le64 (d_data d)) m else m)"

definition frame_effect :: "u64 \<Rightarrow> bytes \<Rightarrow> 't master \<Rightarrow> 't master" where
  "frame_effect now rx m =
     (case ul_ecat_parse_eth_frame rx of
        None \<Rightarrow> m
      | Some pdu \<Rightarrow>
          let m1 = foldl (\<lambda>m i. rx_effect now pdu i m) m
                     [0 ..< (case ul_ecat_pdu_count_datagrams pdu of None \<Rightarrow> 0 | Some nd \<Rightarrow> nd)] in
          if length rx \<le> 1514 then snd (post_evt (EV_FRAME (frame_of rx) (length rx)) m1) else m1)"

definition blind :: "('t master \<Rightarrow> 't master) \<Rightarrow> bool" where
  "blind f \<longleftrightarrow> (\<forall>m w. f (m\<lparr>world := w\<rparr>) = (f m)\<lparr>world := w\<rparr> \<and> world (f m) = world m)"

lemma blind_simps: "blind f \<Longrightarrow> f (m\<lparr>world := w\<rparr>) = (f m)\<lparr>world := w\<rparr>" "blind f \<Longrightarrow> world (f m) = world m"
  by (simp_all add: blind_def)

lemma blind_post: "blind (\<lambda>m. snd (post_evt e m))"
  by (simp add: blind_def post_evt_def)

lemma blind_queue: "blind (queue_dgram c a r d n)"
  by (simp add: blind_def queue_dgram_def q_push_encoded_def Let_def split: option.split)

lemma blind_foldl: "(\<And>x. blind (f x)) \<Longrightarrow> blind (\<lambda>m. foldl (\<lambda>m x. f x m) m xs)"
proof (induction xs rule: rev_induct)
  case Nil
  then show ?case by (simp add: blind_def)
next
  case (snoc x xs)
  then show ?case by (simp add: blind_def)
qed

lemma blind_dc: "blind (dc_effect now t)"
proof -
  have 1: "blind (\<lambda>m. snd (post_evt e (m\<lparr>g_dc_offset := off, g_dc_timeout := 0, g_dc_error_code := 1, g_dc_state := 3\<rparr>)))"
    for e off by (simp add: blind_def post_evt_def)
  have 2: "blind (\<lambda>m. snd (post_evt e (queue_dgram c a r d n (m\<lparr>g_dc_offset := off, g_dc_timeout := 0\<rparr>))))"
    for e off c a r d n
    by (simp add: blind_def post_evt_def queue_dgram_def q_push_encoded_def Let_def split: option.split)
  show ?thesis
    unfolding dc_effect_def Let_def ul_ecat_queue_fpwr_def
    by (cases "llabs (t - now) > g_dc_threshold_ns") (simp_all add: 1 [simplified] 2)
qed

lemma blind_id: "blind (\<lambda>m. m)"
  by (simp add: blind_def)

lemma blind_comp: "blind f \<Longrightarrow> blind g \<Longrightarrow> blind (\<lambda>m. g (f m))"
  by (simp add: blind_def)

lemma blind_if: "blind f \<Longrightarrow> blind g \<Longrightarrow> blind (\<lambda>m. if c then f m else g m)"
  by (cases c) simp_all

lemma blind_rx: "blind (rx_effect now pdu i)"
  unfolding rx_effect_def
  by (cases "ul_ecat_dgram_parse pdu i (Some 32)") (simp_all add: blind_id blind_if blind_dc)

lemma blind_frame: "blind (frame_effect now rx)"
  unfolding frame_effect_def Let_def
  by (cases "ul_ecat_parse_eth_frame rx"; cases "length rx \<le> 1514")
     (simp_all add: blind_id blind_comp [OF blind_foldl blind_post] blind_foldl blind_rx)

lemma dc_response_peer: "handle_dc_response (peer_port now peer) t m = dc_effect (now (fst (world m))) t m"
  by (simp add: handle_dc_response_def dc_effect_def on_world_def peer_port_def Let_def ul_ecat_eventloop_post_dc_event_def)

lemma rx_datagram_peer:
  "process_rx_datagram (peer_port now peer) pdu i m = rx_effect (now (fst (world m))) pdu i m"
  by (auto simp: process_rx_datagram_def rx_effect_def dc_response_peer split: option.split)

lemma rx_datagrams_peer:
  "world m = (p, fs) \<Longrightarrow> foldl (\<lambda>m i. process_rx_datagram (peer_port now peer) pdu i m) m js
     = foldl (\<lambda>m i. rx_effect (now p) pdu i m) m js"
proof (induction js rule: rev_induct)
  case (snoc j js)
  have "world (foldl (\<lambda>m i. rx_effect (now p) pdu i m) m js) = (p, fs)"
    using blind_simps(2) [OF blind_foldl [of "\<lambda>i. rx_effect (now p) pdu i" js, OF blind_rx], of m] snoc.prems by simp
  with snoc show ?case by (simp add: rx_datagram_peer)
qed simp

lemma receive_one_peer:
  assumes "world m = (p, fs)"
  shows "receive_one (peer_port now peer) rx m = frame_effect (now p) rx m"
  using rx_datagrams_peer [OF assms, of now peer]
  by (simp add: receive_one_def frame_effect_def process_rx_datagrams_def ul_ecat_eventloop_post_frame_event_def
      Let_def split: option.split)

lemma receive_loop_peer:
  "world m = (p, fs) \<Longrightarrow> \<forall>f \<in> set fs. length f \<le> 1600 \<Longrightarrow>
     receive_loop (peer_port now peer) m
       = Some (foldl (\<lambda>m rx. frame_effect (now p) rx m) (m\<lparr>world := (p, [])\<rparr>) fs)"
proof (induction fs arbitrary: m)
  case Nil
  then show ?case by (subst receive_loop.simps) (simp add: on_world_def peer_port_def)
next
  case (Cons f fs)
  let ?m1 = "m\<lparr>world := (p, fs)\<rparr>"
  have w: "world (frame_effect (now p) f ?m1) = (p, fs)" by (simp add: blind_simps(2) [OF blind_frame])
  have "receive_loop (peer_port now peer) m = receive_loop (peer_port now peer) (receive_one (peer_port now peer) f ?m1)"
    using Cons.prems by (subst receive_loop.simps) (simp add: on_world_def peer_port_def)
  also have "\<dots> = receive_loop (peer_port now peer) (frame_effect (now p) f ?m1)"
    by (simp add: receive_one_peer [of ?m1 p fs])
  also have "\<dots> = Some (foldl (\<lambda>m rx. frame_effect (now p) rx m) ((frame_effect (now p) f ?m1)\<lparr>world := (p, [])\<rparr>) fs)"
    using Cons.IH [OF w] Cons.prems by simp
  also have "(frame_effect (now p) f ?m1)\<lparr>world := (p, [])\<rparr> = frame_effect (now p) f (m\<lparr>world := (p, [])\<rparr>)"
    by (simp flip: blind_simps(1) [OF blind_frame])
  finally show ?case by simp
qed

lemma wait_peer: "on_world (transport_wait_readable (peer_port now peer) fd t) m = (if snd (world m) = [] then 0 else 1, m)"
  by (cases "world m") (simp add: on_world_def peer_port_def)

lemma drain_peer:
  assumes "world m = (p, fs)" "0 \<le> g_sockfd m" "\<forall>f \<in> set fs. length f \<le> 1600"
  shows "ul_ecat_receive_frames_nonblock (peer_port now peer) m
    = Some (foldl (\<lambda>m rx. frame_effect (now p) rx m) (m\<lparr>world := (p, [])\<rparr>) fs)"
proof (cases "fs = []")
  case True
  then have "m\<lparr>world := (p, [])\<rparr> = m" using assms(1) by simp
  with True show ?thesis using assms by (simp add: ul_ecat_receive_frames_nonblock_def wait_peer)
next
  case False
  then show ?thesis
    using receive_loop_peer [OF assms(1,3), of now peer] assms(1,2)
    by (simp add: ul_ecat_receive_frames_nonblock_def wait_peer)
qed

text \<open>
  Property C35. \<open>ul_ecat_receive_frames_nonblock\<close> returns after it has taken every
  pending frame off the port, and its effect is that of the frames, one after the other in order
  of arrival, as \<open>frame_effect\<close> defines it on the frame and the clock alone.
\<close>

theorem reception_drains:
  assumes "world m = (p, fs)" "0 \<le> g_sockfd m" "\<forall>f \<in> set fs. length f \<le> 1600"
  shows "ul_ecat_receive_frames_nonblock (peer_port now peer) m
    = Some (foldl (\<lambda>m rx. frame_effect (now p) rx m) (m\<lparr>world := (p, [])\<rparr>) fs)"
  by (rule drain_peer [OF assms])

section \<open>Distributed clocks against the slave\<close>

fun periodic_cycles :: "'t port \<Rightarrow> nat \<Rightarrow> 't master \<Rightarrow> 't master option" where
  "periodic_cycles port 0 m = Some m"
| "periodic_cycles port (Suc n) m = Option.bind (periodic_cycles port n m) (periodic_cycle port)"

definition dc_read :: "byte \<Rightarrow> dgram" where
  "dc_read i = \<lparr>d_cmd = UL_ECAT_CMD_FPRD, d_index = i, d_adp = 0, d_ado = 0x0910, d_len = 8, d_irq = 0,
     d_wkc = 0, d_data = replicate 8 0\<rparr>"

lemma dc_read_valid: "valid_dgram (dc_read i)" "length (dgram_bytes (dc_read i)) = 20"
  by (simp_all add: dc_read_def valid_dgram_def length_dgram_bytes)

lemma dc_read_refused: "serve1 s (dc_read i) = (dc_read i, s)"
proof -
  have "\<not> addressed s (dc_read i)" by (auto simp: addressed_def dc_read_def)
  then have "serve1 s (dc_read i) = ((dc_read i)\<lparr>d_wkc := 0\<rparr>, s)"
    by (intro serve1_unaddressed dc_read_valid) simp
  then show ?thesis by (simp add: dc_read_def)
qed

lemma queue_dc_read:
  "g_q m = [] \<Longrightarrow> ul_ecat_queue_fprd 0x0000 0x0910 8 m
     = m\<lparr>g_dgram_index_seq := g_dgram_index_seq m + 1, g_q := [dgram_bytes (dc_read (g_dgram_index_seq m))]\<rparr>"
  by (simp add: ul_ecat_queue_fprd_def queue_dgram_def ul_ecat_dgram_encode_def ul_ecat_dgram_wire_size_def
      Let_def dc_read_def dgram_bytes_def q_push_encoded_def)

lemma frame_effect_dc_read:
  assumes "ul_ecat_parse_eth_frame g = Some (dgram_bytes (dc_read i))" "length g = 38"
  shows "frame_effect now g m = snd (post_evt (EV_FRAME (frame_of g) 38) m)"
proof -
  have "pdu_split (dgram_bytes (dc_read i)) = Some [dgram_bytes (dc_read i)]"
    using pdu_split_dgrams [of "[dc_read i]"] dc_read_valid by simp
  then have "ul_ecat_pdu_count_datagrams (dgram_bytes (dc_read i)) = Some 1"
    by (simp add: count_datagrams_split)
  moreover have "ul_ecat_dgram_parse (dgram_bytes (dc_read i)) 0 (Some 32) = Some (dc_read i)"
    by (rule parse_reply(1) [OF dc_read_valid(1)]) (simp add: dc_read_def)
  moreover have "d_wkc (dc_read i) = 0" by (simp add: dc_read_def)
  ultimately show ?thesis using assms by (simp add: frame_effect_def rx_effect_def)
qed

definition no_sync :: "'t master \<Rightarrow> bool" where
  "no_sync m \<longleftrightarrow> (\<forall>i. EV_DC i \<in> set (g_evt_queue m) \<longrightarrow> dc_event_kind i \<noteq> UL_ECAT_DC_EVENT_SYNC)"

lemma send_receive_dc_read:
  assumes "attached m s" "0 \<le> g_sockfd m" "g_q m = [dgram_bytes (dc_read i)]"
  shows "\<exists>g. Option.bind (ul_ecat_send_batched_frames slave_port m) (ul_ecat_receive_frames_nonblock slave_port)
     = Some (snd (post_evt (EV_FRAME (frame_of g) 38) (m\<lparr>g_q := []\<rparr>)))"
proof -
  note at = assms(1) [unfolded attached_def]
  have l: "length (dgram_bytes (dc_read i)) \<le> 1498" "18 + length (dgram_bytes (dc_read i)) \<le> 1600"
    by (simp_all add: dc_read_valid)
  obtain f where f: "ul_ecat_build_eth_frame (g_dst_mac m) (g_src_mac m) (dgram_bytes (dc_read i)) 1600 = Some f"
    using build_ok [OF l] by blast
  have "unat (d_len (dc_read i)) \<le> 256" by (simp add: dc_read_def)
  then obtain g where g: "slave_peer f s = (Some g, s)" "ul_ecat_parse_eth_frame g = Some (dgram_bytes (dc_read i))" "length g = 38"
    using slave_peer_dgram [OF f _ _ _ dc_read_valid(1) _ dc_read_refused] at
    by (auto simp: dc_read_valid)
  have "ul_ecat_send_batched_frames slave_port m = Some (m\<lparr>g_q := [], world := (s, [g])\<rparr>)"
    using assms(2,3) f g(1) at
    by (simp add: ul_ecat_send_batched_frames_def batch_loop.simps dc_read_valid on_world_def slave_port_def peer_port_def)
  moreover have "m\<lparr>g_q := [], world := (s, [])\<rparr> = m\<lparr>g_q := []\<rparr>" using at by (cases m) simp
  ultimately show ?thesis
    using drain_peer [of "m\<lparr>g_q := [], world := (s, [g])\<rparr>" s "[g]" "\<lambda>_. 0" slave_peer] assms(2) g(2,3)
    by (auto simp: frame_effect_dc_read slave_port_def)
qed

lemma dc_cycle_read:
  assumes "g_dc_state m \<in> {1, 2}" "g_q m = []" "g_dc_timeout m < 50"
  shows "dc_cycle m = m\<lparr>g_dc_state := 2, g_dgram_index_seq := g_dgram_index_seq m + 1,
     g_q := [dgram_bytes (dc_read (g_dgram_index_seq m))], g_dc_timeout := g_dc_timeout m + 1\<rparr>"
  using assms queue_dc_read [of m] queue_dc_read [of "m\<lparr>g_dc_state := 2\<rparr>"]
  by (auto simp: dc_cycle_def Let_def)

lemma dc_cycle_gives_up:
  assumes "g_dc_state m = 2" "g_q m = []" "g_dc_timeout m = 50"
  shows "\<exists>info. dc_event_kind info = UL_ECAT_DC_EVENT_ERROR \<and>
     dc_cycle m = snd (post_evt (EV_DC info) (m\<lparr>g_dgram_index_seq := g_dgram_index_seq m + 1,
       g_q := [dgram_bytes (dc_read (g_dgram_index_seq m))], g_dc_timeout := 51, g_dc_error_code := 2, g_dc_state := 3\<rparr>))"
  using assms queue_dc_read [of m]
  by (intro exI [of _ "\<lparr>dc_event_kind = UL_ECAT_DC_EVENT_ERROR, offset_ns = g_dc_offset m, dc_error = 2\<rparr>"])
     (simp add: dc_cycle_def Let_def ul_ecat_eventloop_post_dc_event_def)

definition dc_waiting :: "nat \<Rightarrow> (slave \<times> bytes list) master \<Rightarrow> slave \<Rightarrow> bool" where
  "dc_waiting n m s \<longleftrightarrow> attached m s \<and> 0 \<le> g_sockfd m \<and> g_q m = [] \<and> no_sync m \<and>
     (if n \<le> 50 then (g_dc_state m = 2 \<or> n = 0 \<and> g_dc_state m = 1) \<and> g_dc_timeout m = n
      else g_dc_state m = 3 \<and> g_dc_error_code m = 2)"

lemma dc_waiting_post:
  "dc_waiting n (snd (post_evt (EV_FRAME fr k) m)) s = dc_waiting n m s"
  by (auto simp: dc_waiting_def post_evt_def no_sync_def attached_def)

lemma dc_waiting_step:
  assumes "dc_waiting n m s"
  shows "\<exists>m'. periodic_cycle slave_port m = Some m' \<and> dc_waiting (Suc n) m' s"
proof -
  note w = assms [unfolded dc_waiting_def]
  have sent: "\<exists>m'. periodic_cycle slave_port m = Some m' \<and> dc_waiting (Suc n) m' s"
    if "g_q (dc_cycle m) = [dgram_bytes (dc_read i)]" "dc_waiting (Suc n) ((dc_cycle m)\<lparr>g_q := []\<rparr>) s" for i
  proof -
    have "attached (dc_cycle m) s" "0 \<le> g_sockfd (dc_cycle m)"
      using that(2) by (simp_all add: dc_waiting_def attached_def)
    from send_receive_dc_read [OF this that(1)] that(2) show ?thesis
      by (auto simp: periodic_cycle_def dc_waiting_post)
  qed
  consider "n < 50" | "n = 50" | "50 < n" by linarith
  then show ?thesis
  proof cases
    case 1
    then have "dc_cycle m = m\<lparr>g_dc_state := 2, g_dgram_index_seq := g_dgram_index_seq m + 1,
       g_q := [dgram_bytes (dc_read (g_dgram_index_seq m))], g_dc_timeout := g_dc_timeout m + 1\<rparr>"
      using w by (intro dc_cycle_read) auto
    with w 1 show ?thesis
      by (intro sent [of "g_dgram_index_seq m"]) (auto simp: dc_waiting_def attached_def no_sync_def)
  next
    case 2
    then obtain info where "dc_event_kind info = UL_ECAT_DC_EVENT_ERROR"
      "dc_cycle m = snd (post_evt (EV_DC info) (m\<lparr>g_dgram_index_seq := g_dgram_index_seq m + 1,
       g_q := [dgram_bytes (dc_read (g_dgram_index_seq m))], g_dc_timeout := 51, g_dc_error_code := 2, g_dc_state := 3\<rparr>))"
      using dc_cycle_gives_up [of m] w by auto
    with w 2 show ?thesis
      by (intro sent [of "g_dgram_index_seq m"]) (auto simp: dc_waiting_def attached_def no_sync_def post_evt_def)
  next
    case 3
    have "dc_cycle m = m" using w 3 by (simp add: dc_cycle_def)
    then have "periodic_cycle slave_port m = Some m"
      using w
      by (simp add: periodic_cycle_def ul_ecat_send_batched_frames_def batch_loop.simps
          ul_ecat_receive_frames_nonblock_def slave_port_def wait_peer attached_def)
    then show ?thesis using assms 3 by (simp add: dc_waiting_def)
  qed
qed

lemma dc_waiting_run:
  "dc_waiting 0 m s \<Longrightarrow> \<exists>m'. periodic_cycles slave_port n m = Some m' \<and> dc_waiting n m' s"
proof (induction n)
  case (Suc n)
  then obtain m1 where "periodic_cycles slave_port n m = Some m1" "dc_waiting n m1 s" by blast
  with dc_waiting_step [of n m1 s] show ?case by auto
qed simp

text \<open>
  Property C39. With distributed clocks started, a network of one slave never brings the master's
  clock to SYNC: the DC read goes to station address 0, which no slave answers, the slave is left
  as it was, and after more than 50 cycles the DC state is the timeout error 2.
\<close>

theorem dc_never_synchronises:
  assumes "attached m s" "0 \<le> g_sockfd m" "g_q m = []" "g_evt_queue m = []"
  shows "\<exists>m'. periodic_cycles slave_port n (dc_init m) = Some m' \<and> world m' = (s, []) \<and>
    (\<forall>i. EV_DC i \<in> set (g_evt_queue m') \<longrightarrow> dc_event_kind i \<noteq> UL_ECAT_DC_EVENT_SYNC) \<and>
    (n > 50 \<longrightarrow> g_dc_state m' = 3 \<and> g_dc_error_code m' = 2)"
proof -
  have "dc_waiting 0 (dc_init m) s"
    using assms by (auto simp: dc_waiting_def dc_init_def attached_def no_sync_def
        ul_ecat_eventloop_post_dc_event_def post_evt_def)
  from dc_waiting_run [OF this, of n] show ?thesis
    by (auto simp: dc_waiting_def no_sync_def attached_def)
qed

section \<open>An SDO from the master to the server\<close>

definition controller_peer :: "bytes \<Rightarrow> 'u controller \<Rightarrow> bytes option \<times> 'u controller" where
  "controller_peer f c =
     (let (r, c') = ul_ecat_slave_controller_process_ethernet c f 1518 in
      (case r of Inl _ \<Rightarrow> None | Inr g \<Rightarrow> Some g, c'))"

definition controller_port :: "('u controller \<times> bytes list) port" where
  "controller_port = peer_port (\<lambda>_. 0) controller_peer"

lemma exchange_controller:
  assumes "world m = (c, [])" "length (g_dst_mac m) = 6" "length (g_src_mac m) = 6" "length (mac (c_slave c)) = 6"
    and "c_backend c = SOFTWARE_ETHERNET" "valid_dgram d" "unat (d_len d) \<le> DG_DATA_MAX"
    and "serve1 (c_slave c) d = (r, s')"
  shows "exchange_ec_payload controller_port (dgram_bytes d) 512 t m
    = (Some (dgram_bytes r), m\<lparr>world := (dispatch_mailbox_if_ready (c\<lparr>c_slave := s'\<rparr>), [])\<rparr>)"
proof -
  have b: "length (dgram_bytes d) \<le> 1498" "18 + length (dgram_bytes d) \<le> 1600" "length (dgram_bytes d) \<le> 268"
    using assms(6,7) by (simp_all add: length_dgram_bytes valid_dgram_def)
  obtain f where f: "ul_ecat_build_eth_frame (g_dst_mac m) (g_src_mac m) (dgram_bytes d) 1600 = Some f"
    using build_ok [OF b(1,2)] by blast
  have fl: "length f \<le> 1518" using build_length(1) [OF f assms(2,3)] b(3) by simp
  obtain g where g: "ul_ecat_slave_controller_process_ethernet c f 1518
      = (Inr g, dispatch_mailbox_if_ready (c\<lparr>c_slave := s'\<rparr>))"
    "ul_ecat_parse_eth_frame g = Some (dgram_bytes r)" "length g = length f"
    using controller_one_dgram [OF assms(5,2,3,4,6,7,8) f fl] by blast
  have peer: "controller_peer f c = (Some g, dispatch_mailbox_if_ready (c\<lparr>c_slave := s'\<rparr>))"
    using g(1) by (simp add: controller_peer_def)
  have "length (dgram_bytes r) \<le> 512"
    using serve1_shape(9) [OF assms(8,6)] b(3) by simp
  then show ?thesis
    using exchange_peer [where peer = controller_peer, OF assms(1) f peer] g(2,3) fl by (simp add: controller_port_def)
qed

lemma mailbox_dgrams:
  assumes "mailbox_configured s" "length req \<le> sm_capacity 0 s"
  shows "mailbox_write s req = write_dgram UL_ECAT_CMD_FPWR (station_of s) (start_addr (ul_ecat_sm_read (esc s) 0))
      (padded (sm_capacity 0 s) req)"
    and "mailbox_fetch s = read_dgram (station_of s) (start_addr (ul_ecat_sm_read (esc s) 1)) (sm_length (ul_ecat_sm_read (esc s) 1))"
  using assms(2) by (simp_all add: mailbox_write_def mailbox_fetch_def write_dgram_def read_dgram_def Let_def sm_capacity_def)

text \<open>One synchronous write and one synchronous read against the controller.\<close>

lemma controller_fpwr_sync:
  fixes st ado :: u16 and data :: bytes
  assumes "world m = (c, [])" "0 \<le> g_sockfd m" "length (g_dst_mac m) = 6" "length (g_src_mac m) = 6"
    and "length (mac (c_slave c)) = 6" "c_backend c = SOFTWARE_ETHERNET"
    and "data \<noteq> []" "length data \<le> 256" "unat len = length data"
  defines "d \<equiv> write_dgram UL_ECAT_CMD_FPWR st ado data"
  assumes "serve1 (c_slave c) d = (d\<lparr>d_wkc := 1\<rparr>, s')"
  shows "ul_ecat_fpwr_sync controller_port st ado (Some data) len t m
    = (True, m\<lparr>world := (dispatch_mailbox_if_ready (c\<lparr>c_slave := s'\<rparr>), [])\<rparr>)"
proof -
  have v: "valid_dgram d" "unat (d_len d) \<le> DG_DATA_MAX" using dgram_valid(2) [OF assms(8)] assms(8) by (simp_all add: d_def)
  have "exchange_ec_payload controller_port (dgram_bytes d) 512 t m
      = (Some (dgram_bytes (d\<lparr>d_wkc := 1\<rparr>)), m\<lparr>world := (dispatch_mailbox_if_ready (c\<lparr>c_slave := s'\<rparr>), [])\<rparr>)"
    by (rule exchange_controller [OF assms(1,3-6) v assms(11)])
  moreover have "ul_ecat_dgram_encode 512 UL_ECAT_CMD_FPWR 0 st ado len 0 0 (Some data) = Some (dgram_bytes d)"
    using encode_write_dgram [OF assms(8), of UL_ECAT_CMD_FPWR st ado] by (simp add: d_def flip: assms(9))
  moreover have "len \<noteq> 0" "\<not> 512 < len" using assms(7-9) by (auto simp: word_less_nat_alt)
  moreover have "ul_ecat_dgram_parse (dgram_bytes (d\<lparr>d_wkc := 1\<rparr>)) 0 None = Some (d\<lparr>d_wkc := 1, d_data := []\<rparr>)"
    using parse_reply(2) [of "d\<lparr>d_wkc := 1\<rparr>", OF _ order_refl] v(1) by (simp add: valid_dgram_def)
  ultimately show ?thesis
    using assms(2) by (simp add: ul_ecat_fpwr_sync_def fpwr_blocking_def write_blocking_def)
qed

lemma controller_fprd_sync:
  fixes st ado len :: u16
  assumes "world m = (c, [])" "0 \<le> g_sockfd m" "length (g_dst_mac m) = 6" "length (g_src_mac m) = 6"
    and "length (mac (c_slave c)) = 6" "c_backend c = SOFTWARE_ETHERNET"
    and "len \<noteq> 0" "unat len \<le> 256" "length data = unat len" "length buf = unat len"
  defines "d \<equiv> read_dgram st ado len"
  assumes "serve1 (c_slave c) d = (d\<lparr>d_wkc := 1, d_data := data\<rparr>, s')"
  shows "ul_ecat_fprd_sync controller_port st ado len (Some buf) t m
    = ((Some (unat len), Some data), m\<lparr>world := (dispatch_mailbox_if_ready (c\<lparr>c_slave := s'\<rparr>), [])\<rparr>)"
proof -
  have v: "valid_dgram d" "unat (d_len d) \<le> DG_DATA_MAX" using assms(8) by (simp_all add: d_def dgram_valid)
  have v1: "valid_dgram (d\<lparr>d_wkc := 1, d_data := data\<rparr>)" by (rule serve1_shape(1) [OF assms(12) v(1)])
  have "exchange_ec_payload controller_port (dgram_bytes d) 512 t m
      = (Some (dgram_bytes (d\<lparr>d_wkc := 1, d_data := data\<rparr>)), m\<lparr>world := (dispatch_mailbox_if_ready (c\<lparr>c_slave := s'\<rparr>), [])\<rparr>)"
    by (rule exchange_controller [OF assms(1,3-6) v assms(12)])
  moreover have "\<not> 512 < len" using assms(8) by (simp add: word_less_nat_alt)
  ultimately show ?thesis
    using encode_read_dgram [of len st ado] assms(2,7-10) parse_reply(1) [OF v1, of "unat len"]
    by (simp add: ul_ecat_fprd_sync_def fprd_blocking_def d_def overlay_def)
qed

text \<open>
  Property C4. A whole SDO exchange over the wire, with the slave controller's own CoE server at
  the other end: writing the request to the area of SM0 succeeds, and reading the area of SM1
  returns what the server answers to that request, padded with zeros to the mailbox size; the
  server keeps its new state.
\<close>

theorem master_sdo_exchange:
  assumes "c_slave c = s"
    and "world m = (c, [])" "0 \<le> g_sockfd m" "length (g_dst_mac m) = 6" "length (g_src_mac m) = 6" "length (mac s) = 6"
    and "c_backend c = SOFTWARE_ETHERNET" "on_mailbox_rx c = Some DefaultCoe"
    and "mailbox_configured s" "station_of s \<noteq> 0" "16 \<le> length req" "length req \<le> sm_capacity 0 s"
    and "ul_ecat_slave_coe_process (c_coe c) req 256 = (reply, coe')" "reply \<noteq> []" "length reply \<le> sm_capacity 1 s"
    and "length buf = sm_capacity 1 s"
  shows "\<exists>m1 m2 c2.
    ul_ecat_fpwr_sync controller_port (station_of s) (start_addr (ul_ecat_sm_read (esc s) 0))
      (Some (padded (sm_capacity 0 s) req)) (sm_length (ul_ecat_sm_read (esc s) 0)) t m = (True, m1) \<and>
    ul_ecat_fprd_sync controller_port (station_of s) (start_addr (ul_ecat_sm_read (esc s) 1))
      (sm_length (ul_ecat_sm_read (esc s) 1)) (Some buf) t m1
      = ((Some (sm_capacity 1 s), Some (padded (sm_capacity 1 s) reply)), m2) \<and>
    world m2 = (c2, []) \<and> c_coe c2 = coe' \<and> \<not> mbx_full (esc (c_slave c2)) 0 \<and> \<not> mbx_full (esc (c_slave c2)) 1"
proof -
  let ?sm0 = "ul_ecat_sm_read (esc s) 0" and ?sm1 = "ul_ecat_sm_read (esc s) 1"
  obtain s1 s2 s3 where st:
    "serve1 s (mailbox_write s req) = ((mailbox_write s req)\<lparr>d_wkc := 1\<rparr>, s1)"
    "dispatch_mailbox_if_ready (c\<lparr>c_slave := s1\<rparr>) = c\<lparr>c_slave := s2, c_coe := coe'\<rparr>"
    "serve1 s2 (mailbox_fetch s) = ((mailbox_fetch s)\<lparr>d_wkc := 1, d_data := padded (sm_capacity 1 s) reply\<rparr>, s3)"
    "dispatch_mailbox_if_ready (c\<lparr>c_slave := s3, c_coe := coe'\<rparr>) = c\<lparr>c_slave := s3, c_coe := coe'\<rparr>"
    "mac s2 = mac s" "\<not> mbx_full (esc s3) 0" "\<not> mbx_full (esc s3) 1"
    by (rule sdo_steps [OF assms(8) assms(1) assms(9-15)])
  have cap: "sm_capacity 0 s = unat (sm_length ?sm0)" "sm_capacity 1 s = unat (sm_length ?sm1)"
    "unat (sm_length ?sm0) \<le> 256" "unat (sm_length ?sm1) \<le> 256" "sm_length ?sm0 \<noteq> 0" "sm_length ?sm1 \<noteq> 0"
    using configured_slot0 [OF assms(9)] configured_slot1 [OF assms(9)] by (simp_all add: sm_capacity_def)
  note dg = mailbox_dgrams [OF assms(9,12)]
  let ?c1 = "c\<lparr>c_slave := s2, c_coe := coe'\<rparr>" and ?c2 = "c\<lparr>c_slave := s3, c_coe := coe'\<rparr>"
  have mac: "length (mac (c_slave c)) = 6" "length (mac (c_slave ?c1)) = 6" using assms(1,6) st(5) by simp_all
  have pl: "length (padded (sm_capacity 0 s) req) = unat (sm_length ?sm0)"
    "length (padded (sm_capacity 1 s) reply) = unat (sm_length ?sm1)"
    using assms(12,15) cap(1,2) by simp_all
  then have ne: "padded (sm_capacity 0 s) req \<noteq> []" using cap(5) by (metis list.size(3) unat_eq_zero)
  have put: "ul_ecat_fpwr_sync controller_port (station_of s) (start_addr ?sm0)
      (Some (padded (sm_capacity 0 s) req)) (sm_length ?sm0) t m = (True, m\<lparr>world := (?c1, [])\<rparr>)"
    using controller_fpwr_sync [OF assms(2-5) mac(1) assms(7) ne _ pl(1) [symmetric]] st(1,2) pl(1) cap(3) assms(1)
    by (simp add: dg(1))
  have swap: "c\<lparr>c_coe := coe', c_slave := s3\<rparr> = ?c2" by simp
  have get: "ul_ecat_fprd_sync controller_port (station_of s) (start_addr ?sm1) (sm_length ?sm1) (Some buf) t (m\<lparr>world := (?c1, [])\<rparr>)
      = ((Some (sm_capacity 1 s), Some (padded (sm_capacity 1 s) reply)), m\<lparr>world := (?c2, [])\<rparr>)"
    using controller_fprd_sync [of "m\<lparr>world := (?c1, [])\<rparr>" ?c1 "sm_length ?sm1" "padded (sm_capacity 1 s) reply" buf
        "station_of s" "start_addr ?sm1" s3 t, OF _ _ _ _ mac(2)] st(3) st(4) [folded swap] assms(3-5,7,16) cap(2,4,6) pl(2)
    by (simp add: dg(2))
  from put get st(6,7) show ?thesis
    by (intro exI [of _ "m\<lparr>world := (?c1, [])\<rparr>"] exI [of _ "m\<lparr>world := (?c2, [])\<rparr>"] exI [of _ ?c2]) simp
qed

section \<open>A silent network\<close>

lemma read_al_status_silent:
  assumes "world m = (n, [])"
  shows "read_al_status_blocking silent_port st t m = (None, m\<lparr>world := (Suc n, [])\<rparr>)"
proof -
  have l: "length (dgram_bytes (read_dgram st 0x130 2)) \<le> 1498" "18 + length (dgram_bytes (read_dgram st 0x130 2)) \<le> 1600"
    by (simp_all add: length_dgram_bytes read_dgram_def)
  obtain f where "ul_ecat_build_eth_frame (g_dst_mac m) (g_src_mac m) (dgram_bytes (read_dgram st 0x130 2)) 1600 = Some f"
    using build_ok [OF l] by blast
  from exchange_peer [OF assms this, of "\<lambda>_ n. (None, Suc n)" None "Suc n" "\<lambda>_. 0" 512 t]
  have "exchange_ec_payload silent_port (dgram_bytes (read_dgram st 0x130 2)) 512 t m = (None, m\<lparr>world := (Suc n, [])\<rparr>)"
    by (simp add: silent_port_def)
  then show ?thesis
    using encode_read_dgram [of 2 st "0x130"] by (simp add: read_al_status_blocking_def fprd_blocking_def)
qed

lemma poll_from_silent:
  "world m = (n, []) \<Longrightarrow> poll_from silent_port i st t e m = (False, m\<lparr>world := (n + nat ((t - e + 19) div 20), [])\<rparr>)"
proof (induction "nat (t - e)" arbitrary: e m n rule: less_induct)
  case less
  show ?case
  proof (cases "e < t")
    case False
    then have "nat ((t - e + 19) div 20) = 0" by simp
    moreover have "m\<lparr>world := (n, [])\<rparr> = m" using less.prems by (cases m) simp
    ultimately show ?thesis using False by (subst poll_from.simps) simp
  next
    case True
    let ?m1 = "m\<lparr>world := (Suc n, [])\<rparr>"
    have "sleep_step silent_port ?m1 = ?m1"
      by (simp add: sleep_step_def silent_port_def peer_port_def)
    then have "poll_from silent_port i st t e m = poll_from silent_port i st t (e + 20) ?m1"
      using True read_al_status_silent [OF less.prems] by (subst poll_from.simps) simp
    also have "\<dots> = (False, ?m1\<lparr>world := (Suc n + nat ((t - (e + 20) + 19) div 20), [])\<rparr>)"
      using True by (intro less.hyps) auto
    also have "Suc n + nat ((t - (e + 20) + 19) div 20) = n + nat ((t - e + 19) div 20)"
    proof -
      have "(t - e + 19) div 20 = (t - (e + 20) + 19) div 20 + 1" by linarith
      moreover have "0 \<le> (t - (e + 20) + 19) div 20" using True by simp
      ultimately show ?thesis by simp
    qed
    finally show ?thesis by simp
  qed
qed

text \<open>
  When nobody answers, \<open>ul_ecat_poll_slave_state\<close> fails after asking
  once every 20 ms of its timeout, rounded up, and leaves the master as it was.
\<close>

theorem poll_gives_up:
  assumes "world m = (n, [])" "i < length (g_slaves_db m)"
  shows "ul_ecat_poll_slave_state silent_port (int i) st t m
    = (False, m\<lparr>world := (n + nat ((t + 19) div 20), [])\<rparr>)"
  using poll_from_silent [OF assms(1), of i st t 0] assms(2) by (simp add: ul_ecat_poll_slave_state_def)

section \<open>Witnesses\<close>


definition known_slave :: mslave where
  "known_slave = \<lparr>station_address = 0x1000, m_state = 1, m_vendor_id = 2, m_product_code = 0, m_revision_no = 0,
     m_serial_no = 0, m_device_name = []\<rparr>"

lemma mailbox_slave_attached: "length (mac mailbox_slave) = 6" "station_of mailbox_slave = 0x1000"
  using mailbox_slave_configured by simp_all

theorem scan_finds_slave_witness:
  "map station_address (g_slaves_db (ul_ecat_scan_network slave_port
     (idle_master (ul_ecat_slave_init demo_mac demo_ident, [])))) = [0x1000]"
  using scan_finds_slave [of "idle_master (ul_ecat_slave_init demo_mac demo_ident, [])" demo_mac demo_ident]
  by (simp add: demo_mac_def)

theorem master_state_request_witness:
  "fst (ul_ecat_request_slave_state slave_port (int 0) (ucast (al_code Preop))
     ((idle_master (mailbox_slave, []))\<lparr>g_slaves_db := [known_slave]\<rparr>))"
proof -
  have "attached ((idle_master (mailbox_slave, []))\<lparr>g_slaves_db := [known_slave]\<rparr>) mailbox_slave"
    using mailbox_slave_attached by (simp add: attached_def)
  from master_state_request [OF this mailbox_slave_al mailbox_slave_attached(2), of 0 Preop] mailbox_slave_validates
  show ?thesis by (auto simp: known_slave_def al_spec_def al_edge_simps)
qed

theorem master_write_read_witness:
  "\<exists>m1 m2. ul_ecat_fpwr_sync slave_port 0x1000 0xF80 (Some [1, 2, 3]) (word_of_nat (length [1, 2, 3 :: byte])) 100
      (idle_master (mailbox_slave, [])) = (True, m1) \<and>
    ul_ecat_fprd_sync slave_port 0x1000 0xF80 (word_of_nat (length [1, 2, 3 :: byte])) (Some [0, 0, 0]) 100 m1
      = ((Some (length [1, 2, 3 :: byte]), Some [1, 2, 3]), m2)"
  by (rule master_write_read [where s = mailbox_slave])
     (use mailbox_slave_attached in \<open>auto simp: attached_def slave_owned_def\<close>)

theorem dc_never_synchronises_witness:
  "\<exists>m'. periodic_cycles slave_port 51 (dc_init (idle_master (mailbox_slave, []))) = Some m' \<and> g_dc_error_code m' = 2"
  using dc_never_synchronises [of "idle_master (mailbox_slave, [])" mailbox_slave 51] mailbox_slave_attached
  by (auto simp: attached_def)

theorem reception_drains_witness:
  "\<exists>m'. ul_ecat_receive_frames_nonblock (peer_port (\<lambda>_. 0) (\<lambda>_ n. (None, n))) (idle_master (0 :: nat, [[1, 2, 3], []])) = Some m' \<and>
     world m' = (0, [])"
  using reception_drains [of "idle_master (0 :: nat, [[1, 2, 3], []])" 0 "[[1, 2, 3], []]" "\<lambda>_. 0" "\<lambda>_ n. (None, n)"]
  by (simp add: frame_effect_def ul_ecat_parse_eth_frame_def)

theorem poll_gives_up_witness:
  "ul_ecat_poll_slave_state silent_port (int 0) 2 3000 ((idle_master (0, []))\<lparr>g_slaves_db := [known_slave]\<rparr>)
     = (False, (idle_master (0, []))\<lparr>g_slaves_db := [known_slave], world := (150, [])\<rparr>)"
  using poll_gives_up [of "(idle_master (0, []))\<lparr>g_slaves_db := [known_slave]\<rparr>" 0 0 2 3000] by simp

theorem master_sdo_exchange_witness:
  "\<exists>m1 m2. ul_ecat_fpwr_sync controller_port 0x1000 0xE00
      (Some (padded 128 (sdo_frame demo_hdr (download_req 0x1008 0 [1])))) 128 100
      (idle_master (demo_ctl SOFTWARE_ETHERNET, [])) = (True, m1) \<and>
    ul_ecat_fprd_sync controller_port 0x1000 0xE80 128 (Some (replicate 128 0)) 100 m1
      = ((Some 128, Some (padded 128 (sdo_abort demo_hdr 0x1008 0 UL_ECAT_SDO_ABORT_WRITE_RO))), m2)"
proof -
  let ?c = "demo_ctl SOFTWARE_ETHERNET" and ?req = "sdo_frame demo_hdr (download_req 0x1008 0 [1])"
  let ?reply = "sdo_abort demo_hdr 0x1008 0 UL_ECAT_SDO_ABORT_WRITE_RO"
  have coe: "c_coe ?c = demo_coe" by (simp add: demo_coe_def ul_ecat_od_set_table_def idle_upload_def)
  have run: "ul_ecat_slave_coe_process (c_coe ?c) ?req 256 = (?reply, demo_coe)"
    unfolding coe
    by (subst coe_download_init [OF demo_hdr_client])
       (simp_all add: handle_download_init_def demo_name_entry od_ro_def abort_frame [OF demo_hdr_client] sdo_abort_def)
  have cap: "sm_capacity 0 mailbox_slave = 128" "sm_capacity 1 mailbox_slave = 128"
    by (simp_all add: sm_capacity_def mailbox_slave_sm [simplified])
  have len: "length ?req = 16" "length ?reply = 16"
    by (simp_all add: sdo_abort_def sdo_frame_def sdo_reply_def download_req_def demo_hdr_def)
  then have ne: "?reply \<noteq> []" by force
  note conf = mailbox_slave_configured
  have "length (mac mailbox_slave) = 6" "station_of mailbox_slave \<noteq> 0" using conf by simp_all
  from master_sdo_exchange [of ?c mailbox_slave "idle_master (?c, [])" ?req ?reply demo_coe "replicate 128 0" 100,
      OF _ _ _ _ _ this(1) _ _ conf(1) this(2) _ _ run ne]
  show ?thesis using len cap conf by (simp add: mailbox_slave_sm [simplified]) blast
qed

end
