(* ===== verification/Commissioning.thy ===== *)
theory Commissioning
  imports Network
begin

text \<open>
  Longer stories on the wire of \<open>Network\<close>: bringing a fresh slave up to OP, running the command-line
  tool against a slave, and what happens when a reply is still waiting that belongs to somebody else.
\<close>

section \<open>Bringing a slave up\<close>

lemma validate_written:
  assumes "length cfg = 16" "\<And>j. j \<noteq> 0x805 \<Longrightarrow> e' j = mem_write e 0x800 cfg j"
  shows "ul_ecat_sm_validate_mailbox_pair e' = ul_ecat_sm_validate_mailbox_pair (mem_write (\<lambda>_. 0) 0x800 cfg)"
proof -
  let ?on = "\<lambda>e. \<lparr>esc = e, mac = [], logical_position = 0\<rparr>"
  have "\<forall>j \<in> {0x800 ..< 0x810} - {0x805, 0x80D}. esc (?on e') j = esc (?on (mem_write (\<lambda>_. 0) 0x800 cfg)) j"
    using assms by (auto simp: mem_write_apply)
  from configured_cong(4) [OF this] show ?thesis by (simp add: validate_mailbox_pair_iff)
qed

lemma write_sm_config:
  assumes "attached m s" "0 \<le> g_sockfd m" "station_of s = st" "st \<noteq> 0" "length cfg = 16" "al_shows (esc s) v"
  obtains s' where "ul_ecat_fpwr_sync slave_port st 0x800 (Some cfg) 16 t m = (True, m\<lparr>world := (s', [])\<rparr>)"
    "attached (m\<lparr>world := (s', [])\<rparr>) s'" "station_of s' = st" "al_shows (esc s') v"
    "ul_ecat_sm_validate_mailbox_pair (esc s') = ul_ecat_sm_validate_mailbox_pair (mem_write (\<lambda>_. 0) 0x800 cfg)"
proof -
  let ?w = "write_dgram UL_ECAT_CMD_FPWR st 0x800 cfg"
  define s' where "s' = snd (serve1 s ?w)"
  have d: "cfg \<noteq> []" "length cfg \<le> 256" "unat (0x800 :: u16) + length cfg \<le> 4096" "unat (16 :: u16) = length cfg"
    using assms(5) by auto
  note put = fpwr_sync_slave [OF assms(1-4) d, folded s'_def]
  note w = write_reaches_slave [OF assms(3,4) d(1-3)]
  have "\<not> covers ?w 0x120" using assms(5) by (simp add: covers_def)
  then have "serve1 s ?w = (?w\<lparr>d_wkc := 1\<rparr>,
      snd (ul_ecat_slave_mailbox_on_sm0_write (s\<lparr>esc := mem_write (esc s) 0x800 cfg\<rparr>) 0x800 (d_len ?w)))"
    using serve1_write [OF w(1-4)] by simp
  then have far: "esc s' j = mem_write (esc s) 0x800 cfg j" if "j \<noteq> 0x805" for j
    using that by (simp add: s'_def on_sm0_write_frame)
  then have low: "esc s' j = esc s j" if "j < 0x800" for j using that by (simp add: mem_write_outside)
  have "station_of s' = st" using assms(3) low by (simp add: station_of_def read_u16_reg)
  moreover have "al_shows (esc s') v" using assms(6) low by (subst al_shows_cong [of _ "esc s"]) simp_all
  moreover have "ul_ecat_sm_validate_mailbox_pair (esc s') = ul_ecat_sm_validate_mailbox_pair (mem_write (\<lambda>_. 0) 0x800 cfg)"
    by (rule validate_written [OF assms(5) far])
  ultimately show ?thesis using put by (intro that [of s'])
qed

text \<open>One granted state request, as a step that can be repeated.\<close>

lemma request_granted:
  assumes "attached m s" "al_shows (esc s) \<lparr>al_st = a, al_err = False, al_status_code = 0\<rparr>" "station_of s = st" "st \<noteq> 0"
    and "g_slaves_db m = [e]" "station_address e = st" "ul_ecat_sm_validate_mailbox_pair (esc s)" "al_edge a b"
  obtains m' s' where "ul_ecat_request_slave_state slave_port 0 (ucast (al_code b)) m = (True, m')"
    "attached m' s'" "al_shows (esc s') \<lparr>al_st = b, al_err = False, al_status_code = 0\<rparr>" "station_of s' = st"
    "g_slaves_db m' = [e\<lparr>m_state := ucast (al_code b)\<rparr>]" "ul_ecat_sm_validate_mailbox_pair (esc s')"
proof -
  have sp: "\<not> al_err (al_spec True \<lparr>al_st = a, al_err = False, al_status_code = 0\<rparr> (al_code b) False)"
    using assms(8) by (simp add: al_spec_def al_code_eq al_code_not_boot)
  obtain ok m' s' where r: "ul_ecat_request_slave_state slave_port (int 0) (ucast (al_code b)) m = (ok, m')" "attached m' s'"
    "station_of s' = st" "ul_ecat_sm_validate_mailbox_pair (esc s') = ul_ecat_sm_validate_mailbox_pair (esc s)"
    "ok \<and> al_shows (esc s') \<lparr>al_st = b, al_err = False, al_status_code = 0\<rparr> \<and>
      g_slaves_db m' = (g_slaves_db m)[0 := (g_slaves_db m ! 0)\<lparr>m_state := ucast (al_code b)\<rparr>]"
    using request_state_slave [OF assms(1-4), of 0 b] assms(5-7) sp by auto
  then show ?thesis using assms(5,7) by (intro that [of m' s']) simp_all
qed

text \<open>
  Property C7. A network of one freshly initialised slave can be brought up:
  \<open>ul_ecat_scan_network\<close>, writing a SyncManager configuration that describes a
  mailbox pair to the slave the scan found, and requesting PREOP, SAFEOP and OP in this order all
  succeed; at the end the slave shows OP without an error and the master's database records state
  8 for it.
\<close>

theorem network_bring_up:
  assumes "world m = (ul_ecat_slave_init mc ident, [])" "length mc = 6" "length (g_dst_mac m) = 6" "length (g_src_mac m) = 6"
    and "0 \<le> g_sockfd m" "length cfg = 16" "ul_ecat_sm_validate_mailbox_pair (mem_write (\<lambda>_. 0) 0x800 cfg)"
  shows "\<exists>m1 m2 m3 m4 s. ul_ecat_fpwr_sync slave_port 0x1000 0x800 (Some cfg) 16 t (ul_ecat_scan_network slave_port m) = (True, m1) \<and>
    ul_ecat_request_slave_state slave_port 0 2 m1 = (True, m2) \<and>
    ul_ecat_request_slave_state slave_port 0 4 m2 = (True, m3) \<and>
    ul_ecat_request_slave_state slave_port 0 8 m3 = (True, m4) \<and>
    world m4 = (s, []) \<and> al_shows (esc s) \<lparr>al_st = Op, al_err = False, al_status_code = 0\<rparr> \<and>
    map m_state (g_slaves_db m4) = [8]"
proof -
  obtain s0 where scan: "ul_ecat_scan_network slave_port m = m\<lparr>g_slaves_db := [found ident], world := (s0, [])\<rparr>"
    "still (assigned mc ident) s0" "attached (m\<lparr>g_slaves_db := [found ident], world := (s0, [])\<rparr>) s0"
    by (rule scan_fresh_slave [OF assms(1-4)])
  let ?m0 = "m\<lparr>g_slaves_db := [found ident], world := (s0, [])\<rparr>"
  have s0: "station_of s0 = 0x1000" "al_shows (esc s0) \<lparr>al_st = Init, al_err = False, al_status_code = 0\<rparr>"
    using still_station [OF scan(2)] still_al [OF scan(2) assigned_facts(2)] assigned_facts(1) by simp_all
  obtain s1 where 1: "ul_ecat_fpwr_sync slave_port 0x1000 0x800 (Some cfg) 16 t ?m0 = (True, ?m0\<lparr>world := (s1, [])\<rparr>)"
    "attached (?m0\<lparr>world := (s1, [])\<rparr>) s1" "station_of s1 = 0x1000"
    "al_shows (esc s1) \<lparr>al_st = Init, al_err = False, al_status_code = 0\<rparr>" "ul_ecat_sm_validate_mailbox_pair (esc s1)"
    by (rule write_sm_config [OF scan(3) _ s0(1) _ assms(6) s0(2)]) (use assms(5,7) in simp_all)
  obtain m2 s2 where 2: "ul_ecat_request_slave_state slave_port 0 (ucast (al_code Preop)) (?m0\<lparr>world := (s1, [])\<rparr>) = (True, m2)"
    "attached m2 s2" "al_shows (esc s2) \<lparr>al_st = Preop, al_err = False, al_status_code = 0\<rparr>" "station_of s2 = 0x1000"
    "g_slaves_db m2 = [(found ident)\<lparr>m_state := ucast (al_code Preop)\<rparr>]" "ul_ecat_sm_validate_mailbox_pair (esc s2)"
    by (rule request_granted [OF 1(2,4,3) _ _ _ 1(5), of "found ident" Preop]) (simp_all add: found_def al_edge_simps)
  obtain m3 s3 where 3: "ul_ecat_request_slave_state slave_port 0 (ucast (al_code Safeop)) m2 = (True, m3)"
    "attached m3 s3" "al_shows (esc s3) \<lparr>al_st = Safeop, al_err = False, al_status_code = 0\<rparr>" "station_of s3 = 0x1000"
    "g_slaves_db m3 = [(found ident)\<lparr>m_state := ucast (al_code Safeop)\<rparr>]" "ul_ecat_sm_validate_mailbox_pair (esc s3)"
    by (rule request_granted [OF 2(2,3,4) _ 2(5) _ 2(6), of Safeop]) (simp_all add: found_def al_edge_simps)
  obtain m4 s4 where 4: "ul_ecat_request_slave_state slave_port 0 (ucast (al_code Op)) m3 = (True, m4)"
    "attached m4 s4" "al_shows (esc s4) \<lparr>al_st = Op, al_err = False, al_status_code = 0\<rparr>"
    "g_slaves_db m4 = [(found ident)\<lparr>m_state := ucast (al_code Op)\<rparr>]"
    by (rule request_granted [OF 3(2,3,4) _ 3(5) _ 3(6), of Op]) (simp_all add: found_def al_edge_simps)
  show ?thesis
    using scan(1) 1(1) 2(1) 3(1) 4 by (simp add: attached_def)
qed

text \<open>Mailboxes of 128 bytes at 0xE00 (written by the master) and 0xE80 (read by it).\<close>

definition demo_mailboxes :: bytes where
  "demo_mailboxes = [0x00, 0x0E, 0x80, 0x00, 0x26, 0x00, 0x01, 0x00, 0x80, 0x0E, 0x80, 0x00, 0x22, 0x00, 0x01, 0x00]"

theorem network_bring_up_witness:
  "\<exists>m1 m2 m3 m4 s. ul_ecat_fpwr_sync slave_port 0x1000 0x800 (Some demo_mailboxes) 16 2000
       (ul_ecat_scan_network slave_port (idle_master (ul_ecat_slave_init demo_mac demo_ident, []))) = (True, m1) \<and>
    ul_ecat_request_slave_state slave_port 0 2 m1 = (True, m2) \<and>
    ul_ecat_request_slave_state slave_port 0 4 m2 = (True, m3) \<and>
    ul_ecat_request_slave_state slave_port 0 8 m3 = (True, m4) \<and>
    world m4 = (s, []) \<and> al_shows (esc s) \<lparr>al_st = Op, al_err = False, al_status_code = 0\<rparr> \<and>
    map m_state (g_slaves_db m4) = [8]"
proof (rule network_bring_up [of _ demo_mac demo_ident demo_mailboxes 2000])
  show "ul_ecat_sm_validate_mailbox_pair (mem_write (\<lambda>_. 0) 0x800 demo_mailboxes)"
    by (simp add: validate_mailbox_pair_iff mailbox_sm_def ul_ecat_sm_is_active_def ul_ecat_sm_is_mailbox_def
        ul_ecat_sm_read_def Let_def demo_mailboxes_def mem_write_apply of_le16_def)
qed (simp_all add: demo_mac_def demo_mailboxes_def)

section \<open>The command line against a slave\<close>

lemma master_init_slave:
  assumes "world m = (s, [])" "length (mac s) = 6"
  obtains m1 where "ul_ecat_master_init slave_port (Some (cli_settings i)) m = (True, m1)" "attached m1 s" "0 \<le> g_sockfd m1"
  using assms that [of "snd (ul_ecat_master_init slave_port (Some (cli_settings i)) m)"]
  by (auto simp: ul_ecat_master_init_def on_world_def slave_port_def peer_port_def attached_def cli_settings_def Let_def)

lemma master_shutdown_slave: "0 \<le> g_sockfd m \<Longrightarrow> world (snd (ul_ecat_master_shutdown slave_port m)) = world m"
  by (simp add: ul_ecat_master_shutdown_def slave_port_def peer_port_def Let_def)

lemma write_take: "ul_ecat_fpwr_sync port adp ado (Some d) len t m = ul_ecat_fpwr_sync port adp ado (Some (take (unat len) d)) len t m"
  by (simp add: ul_ecat_fpwr_sync_def fpwr_blocking_def write_blocking_def ul_ecat_dgram_encode_def)

text \<open>
  Property C10. Two runs of the command-line tool against the slave: \<open>write\<close> of a
  value of 1 to 4 bytes to an area the slave does not manage itself, then \<open>read\<close> of
  as many bytes there. Both exit with 0, and the second prints the low bytes of the value, least
  significant first, whatever is left of the first process.
\<close>

theorem cli_write_then_read:
  fixes m m' :: "(slave \<times> bytes list) master"
  assumes "world m = (s, [])" "length (mac s) = 6" "station_of s = u16_arg a 16" "u16_arg a 16 \<noteq> 0"
    and "0 < unat (u16_arg n 0)" "unat (u16_arg n 0) \<le> 4" "unat (u16_arg b 16) + unat (u16_arg n 0) \<le> 4096"
    and "\<forall>j. unat (u16_arg b 16) \<le> j \<and> j < unat (u16_arg b 16) + unat (u16_arg n 0) \<longrightarrow> j \<notin> slave_owned \<and> j \<noteq> 0x10 \<and> j \<noteq> 0x11"
  shows "\<exists>m1 m2. ul_ecat_app_execute slave_port fs [prog, i, ''write'', a, b, v, n] m = ((0, []), m1) \<and>
    ul_ecat_app_execute slave_port fs [prog, i, ''read'', a, b, n] (m'\<lparr>world := world m1\<rparr>)
      = ((0, take (unat (u16_arg n 0)) (le32 (word_of_int (strtol v 16)))), m2)"
proof -
  define st ado sz where args: "st = u16_arg a 16" "ado = u16_arg b 16" "sz = u16_arg n 0"
  define data where "data = take (unat sz) (le32 (word_of_int (strtol v 16)))"
  note as = assms [folded args]
  have d: "length data = unat sz" using as(6) by (simp add: data_def le32_def)
  then have dl: "data \<noteq> []" "length data \<le> 256" "unat ado + length data \<le> 4096" "unat sz = length data"
    using as(5-7) by auto
  have szr: "sz \<noteq> 0" "\<not> 4 < sz" "\<not> 512 < sz" using as(5,6) by (auto simp: word_less_nat_alt)
  obtain mw where mw: "ul_ecat_master_init slave_port (Some (cli_settings i)) m = (True, mw)" "attached mw s" "0 \<le> g_sockfd mw"
    by (rule master_init_slave [OF as(1,2)])
  define s1 where "s1 = snd (serve1 s (write_dgram UL_ECAT_CMD_FPWR st ado data))"
  note put = fpwr_sync_slave [OF mw(2,3) as(3,4) dl, folded s1_def]
  note there = write_lands [OF as(3,4) dl(1-3) as(8) [folded d], folded s1_def]
  have wr: "cli_command slave_port fs [prog, i, ''write'', a, b, v, n] mw = ((0, []), mw\<lparr>world := (s1, [])\<rparr>)"
    using put(1) szr by (simp add: cli_command_def Let_def args [symmetric] write_take [of _ _ _ "le32 _"] flip: data_def)
  define m1 where "m1 = snd (ul_ecat_master_shutdown slave_port (mw\<lparr>world := (s1, [])\<rparr>))"
  have ex1: "ul_ecat_app_execute slave_port fs [prog, i, ''write'', a, b, v, n] m = ((0, []), m1)"
    using mw(1) wr by (simp add: ul_ecat_app_execute_def m1_def)
  have "world m1 = (s1, [])" using master_shutdown_slave [of "mw\<lparr>world := (s1, [])\<rparr>"] mw(3) by (simp add: m1_def)
  then have w1: "world (m'\<lparr>world := world m1\<rparr>) = (s1, [])" by simp
  have "length (mac s1) = 6" using put(2) by (simp add: attached_def)
  from master_init_slave [OF w1 this, of i] obtain mr where
    mr: "ul_ecat_master_init slave_port (Some (cli_settings i)) (m'\<lparr>world := world m1\<rparr>) = (True, mr)" "attached mr s1" "0 \<le> g_sockfd mr"
    by blast
  have "unat sz \<le> length (stack_bytes slave_port 512 (world mr))" using as(6) by (simp add: slave_port_def peer_port_def)
  note get = fprd_sync_slave [OF mr(2,3) there(1) as(4) szr(1) _ _ this, of ado 2000]
  have "cli_command slave_port fs [prog, i, ''read'', a, b, n] mr
      = ((0, data), mr\<lparr>world := (ul_ecat_slave_mailbox_on_sm1_read s1 ado sz, [])\<rparr>)"
    using get as(6,7) there(2) szr d by (simp add: cli_command_def Let_def args [symmetric] overlay_def)
  then have "\<exists>m2. ul_ecat_app_execute slave_port fs [prog, i, ''read'', a, b, n] (m'\<lparr>world := world m1\<rparr>) = ((0, data), m2)"
    using mr(1) by (simp add: ul_ecat_app_execute_def)
  with ex1 show ?thesis by (auto simp: data_def args)
qed

lemma demo_args: "u16_arg ''1000'' 16 = 0x1000" "u16_arg ''0f00'' 16 = 0xF00" "u16_arg ''2'' 0 = 2" "strtol ''12ab'' 16 = 0x12AB"
  by (simp_all add: u16_arg_def strtol_def scan_number_def is_space_def skip_0x_def digits_value_def digit_of_def char_code_def Let_def)

theorem cli_write_then_read_witness:
  "\<exists>m1 m2. ul_ecat_app_execute slave_port Map.empty [''ecat'', ''eth0'', ''write'', ''1000'', ''0f00'', ''12ab'', ''2''] (idle_master (mailbox_slave, []))
       = ((0, []), m1) \<and>
    ul_ecat_app_execute slave_port Map.empty [''ecat'', ''eth0'', ''read'', ''1000'', ''0f00'', ''2''] ((idle_master (mailbox_slave, []))\<lparr>world := world m1\<rparr>)
       = ((0, [0xAB, 0x12]), m2)"
proof -
  have "length (mac mailbox_slave) = 6" "station_of mailbox_slave = u16_arg ''1000'' 16"
    using mailbox_slave_configured by (simp_all add: demo_args)
  moreover have "unat (u16_arg ''2'' 0) = 2" "unat (u16_arg ''0f00'' 16) = 0xF00" by (simp_all add: demo_args)
  moreover have "take 2 (le32 (word_of_int (strtol ''12ab'' 16))) = [0xAB, 0x12 :: byte]"
    by (simp add: demo_args le32_def)
  ultimately show ?thesis
    using cli_write_then_read [of "idle_master (mailbox_slave, [])" mailbox_slave "''1000''" "''2''" "''0f00''" Map.empty "''ecat''" "''eth0''" "''12ab''"
        "idle_master (mailbox_slave, [])"]
    by (simp add: demo_args slave_owned_def)
qed

section \<open>Replies that belong to somebody else\<close>

text \<open>An answer \<open>d\<close> of the slave that nobody has received yet.\<close>

definition pending :: "(slave \<times> bytes list) master \<Rightarrow> slave \<Rightarrow> dgram \<Rightarrow> bool" where
  "pending m s d \<longleftrightarrow> (\<exists>g. world m = (s, [g]) \<and> ul_ecat_parse_eth_frame g = Some (dgram_bytes d) \<and> length g \<le> 1600) \<and>
     valid_dgram d \<and> length (mac s) = 6 \<and> length (g_dst_mac m) = 6 \<and> length (g_src_mac m) = 6"

lemma exchange_pending:
  assumes "pending m s d" "valid_dgram e" "unat (d_len e) \<le> DG_DATA_MAX" "serve1 s e = (r, s')" "length (dgram_bytes d) \<le> cap"
  obtains m' where "exchange_ec_payload slave_port (dgram_bytes e) cap t m = (Some (dgram_bytes d), m')" "pending m' s' r"
proof -
  have b: "length (dgram_bytes e) \<le> 1498" "18 + length (dgram_bytes e) \<le> 1600"
    using assms(2,3) by (simp_all add: length_dgram_bytes valid_dgram_def)
  obtain g0 where g0: "world m = (s, [g0])" "ul_ecat_parse_eth_frame g0 = Some (dgram_bytes d)" "length g0 \<le> 1600"
    using assms(1) by (auto simp: pending_def)
  note at = assms(1) [unfolded pending_def]
  obtain f where f: "ul_ecat_build_eth_frame (g_dst_mac m) (g_src_mac m) (dgram_bytes e) 1600 = Some f"
    using build_ok [OF b] by blast
  obtain g where g: "slave_peer f s = (Some g, s')" "ul_ecat_parse_eth_frame g = Some (dgram_bytes r)"
    "length g = 18 + length (dgram_bytes e)"
    using slave_peer_dgram [OF f _ _ _ assms(2-4)] at by blast
  have "exchange_ec_payload slave_port (dgram_bytes e) cap t m = (Some (dgram_bytes d), m\<lparr>world := (s', [g])\<rparr>)"
    using f g(1) g0 assms(5)
    by (simp add: exchange_ec_payload_def send_ec_payload_def recv_eth_frame_def on_world_def slave_port_def peer_port_def)
  moreover have "pending (m\<lparr>world := (s', [g])\<rparr>) s' r"
    using g(2,3) b at serve1_shape(1,10) [OF assms(4,2)] by (simp add: pending_def)
  ultimately show thesis by (rule that)
qed

text \<open>One datagram sent as a batch, its answer left where it is.\<close>

lemma batch_one:
  assumes "attached m s" "0 \<le> g_sockfd m" "g_q m = [dgram_bytes e]" "valid_dgram e" "unat (d_len e) \<le> DG_DATA_MAX"
    and "serve1 s e = (r, s')"
  obtains m' where "ul_ecat_send_batched_frames slave_port m = Some m'" "pending m' s' r" "g_sockfd m' = g_sockfd m" "g_q m' = []"
proof -
  have b: "length (dgram_bytes e) \<le> 1498" "18 + length (dgram_bytes e) \<le> 1600" "dgram_bytes e \<noteq> []"
    using assms(4,5) by (auto simp: length_dgram_bytes valid_dgram_def dgram_bytes_def)
  note at = assms(1) [unfolded attached_def]
  obtain f where f: "ul_ecat_build_eth_frame (g_dst_mac m) (g_src_mac m) (dgram_bytes e) 1600 = Some f"
    using build_ok [OF b(1,2)] by blast
  obtain g where g: "slave_peer f s = (Some g, s')" "ul_ecat_parse_eth_frame g = Some (dgram_bytes r)"
    "length g = 18 + length (dgram_bytes e)"
    using slave_peer_dgram [OF f _ _ _ assms(4-6)] at by blast
  let ?m' = "m\<lparr>world := (s', [g]), g_q := []\<rparr>"
  have "ul_ecat_send_batched_frames slave_port m = Some ?m'"
    using assms(2,3) b f g(1) at
    by (simp add: ul_ecat_send_batched_frames_def batch_loop.simps on_world_def slave_port_def peer_port_def)
  moreover have "pending ?m' s' r"
    using g(2,3) b at serve1_shape(1,10) [OF assms(6,4)] by (simp add: pending_def)
  ultimately show thesis by (rule that) simp_all
qed

text \<open>
  Property C31. A synchronous read does not check that the reply it takes is its own: started after
  a queued FPRD has been sent and before its reply is received, \<open>ul_ecat_fprd_sync\<close>
  reports success and returns the data of the queued request's register instead of those asked
  for.
\<close>

theorem sync_read_takes_batch_reply:
  assumes "attached m s" "0 \<le> g_sockfd m" "g_q m = []" "station_of s = st" "st \<noteq> 0"
    and "len \<noteq> 0" "unat len \<le> 256" "unat queued + unat len \<le> 4096" "length buf = unat len"
  shows "\<exists>m1 m2. ul_ecat_send_batched_frames slave_port (ul_ecat_queue_fprd st queued len m) = Some m1 \<and>
    ul_ecat_fprd_sync slave_port st ado len (Some buf) t m1 = ((Some (unat len), Some (mem_read (esc s) (unat queued) (unat len))), m2)"
proof -
  define e where "e = (read_dgram st queued len)\<lparr>d_index := g_dgram_index_seq m\<rparr>"
  define r where "r = e\<lparr>d_wkc := 1, d_data := mem_read (esc s) (unat queued) (unat len)\<rparr>"
  let ?mq = "ul_ecat_queue_fprd st queued len m" and ?s1 = "ul_ecat_slave_mailbox_on_sm1_read s queued len"
  have v: "valid_dgram e" "unat (d_len e) \<le> DG_DATA_MAX" using dgram_valid(1) [OF assms(7), of st queued] assms(7)
    by (simp_all add: e_def valid_dgram_def)
  have sv: "serve1 s e = (r, ?s1)"
    using serve1_read [of e s] assms(4-6,8)
    by (simp add: e_def r_def addressed_def in_mirror_def station_of_def)
  have "length (dgram_bytes e) \<le> DGRAM_BUF" using v by (simp add: length_dgram_bytes valid_dgram_def)
  moreover have "ul_ecat_dgram_encode DGRAM_BUF UL_ECAT_CMD_FPRD (g_dgram_index_seq m) st queued len 0 0 None = Some (dgram_bytes e)"
    using assms(7) by (simp add: ul_ecat_dgram_encode_def ul_ecat_dgram_wire_size_def Let_def dgram_bytes_def read_dgram_def e_def)
  ultimately have mq: "g_q ?mq = [dgram_bytes e]" "attached ?mq s" "g_sockfd ?mq = g_sockfd m"
    using assms(1,3) by (simp_all add: ul_ecat_queue_fprd_def queue_dgram_def q_push_encoded_def attached_def)
  obtain m1 where m1: "ul_ecat_send_batched_frames slave_port ?mq = Some m1" "pending m1 ?s1 r" "g_sockfd m1 = g_sockfd m"
    using batch_one [OF mq(2) _ mq(1) v sv] assms(2) mq(3) by auto
  let ?d = "read_dgram st ado len"
  note vd = dgram_valid(1) [OF assms(7), of st ado]
  have r: "valid_dgram r" "unat (d_len r) = unat len" "d_data r = mem_read (esc s) (unat queued) (unat len)" "d_wkc r = 1"
    using serve1_shape(1) [OF sv v(1)] by (simp_all add: r_def e_def)
  have l: "length (dgram_bytes r) \<le> 512" using r(1,2) assms(7) by (simp add: length_dgram_bytes valid_dgram_def)
  obtain m2 where "exchange_ec_payload slave_port (dgram_bytes ?d) 512 t m1 = (Some (dgram_bytes r), m2)"
    by (rule exchange_pending [OF m1(2) vd _ prod.collapse [symmetric] l, of t]) (use assms(7) in simp_all)
  then have "ul_ecat_fprd_sync slave_port st ado len (Some buf) t m1 = ((Some (unat len), Some (d_data r)), m2)"
    using assms(2,6,7,9) m1(3) r parse_reply(1) [OF r(1), of "unat len"]
    by (simp add: ul_ecat_fprd_sync_def fprd_blocking_def encode_read_dgram overlay_def word_less_nat_alt)
  with m1(1) r(3) show ?thesis by auto
qed

theorem sync_read_takes_batch_reply_witness:
  "\<exists>m1 m2. ul_ecat_send_batched_frames slave_port (ul_ecat_queue_fprd 0x1000 0x12 2 (idle_master (mailbox_slave, []))) = Some m1 \<and>
    ul_ecat_fprd_sync slave_port 0x1000 0x130 2 (Some [0, 0]) 200 m1 = ((Some 2, Some (mem_read (esc mailbox_slave) 0x12 2)), m2)"
  using sync_read_takes_batch_reply [of "idle_master (mailbox_slave, [])" mailbox_slave "0x1000" 2 "0x12" "[0, 0]" "0x130" 200]
    mailbox_slave_configured
  by (simp add: attached_def)

end
