(* ===== verification/Platform.thy ===== *)
theory Platform
  imports MasterCli MasterQueue "HOL-Library.Signed_Division"
begin

text \<open>
  The Linux platform: \<open>src/transport/transport_linux.c\<close> and \<open>src/osal/osal_linux.c\<close> over the system
  calls they make, and \<open>linux_port\<close>, the master's port built from them.

  The contract \<open>clean_port\<close> says what a port may leave behind, and the whole command line of the
  master is proved clean in it. It holds of \<open>linux_port\<close> over every kernel that keeps the promise
  \<open>posix_kernel\<close> about descriptors and threads, one of which takes every other outcome from an
  arbitrary script. The lock and condition wrappers of the OSAL are modelled in \<open>Threads\<close>.
\<close>

section \<open>System calls\<close>

text \<open>
  The calls \<open>transport_linux.c\<close> and \<open>osal_linux.c\<close> make, on a kernel of any type. A call whose result
  the code only compares with 0 gives that result; \<open>recv\<close> gives \<^const>\<open>None\<close> for a negative one. A
  thread is created with explicit attributes, with or without a \<open>SCHED_FIFO\<close> priority, or with none.
\<close>

datatype thread_attr = Default_attr | Explicit_attr "int option"

record 'k sys =
  sys_socket :: "'k \<Rightarrow> int \<times> 'k"
  sys_ifindex :: "int \<Rightarrow> string \<Rightarrow> 'k \<Rightarrow> int option \<times> 'k"
  sys_bind :: "int \<Rightarrow> int \<Rightarrow> 'k \<Rightarrow> int \<times> 'k"
  sys_close :: "int \<Rightarrow> 'k \<Rightarrow> 'k"
  sys_send :: "int \<Rightarrow> bytes \<Rightarrow> 'k \<Rightarrow> int \<times> 'k"
  sys_recv :: "int \<Rightarrow> nat \<Rightarrow> bool \<Rightarrow> 'k \<Rightarrow> bytes option \<times> 'k"
  sys_select :: "int \<Rightarrow> int \<times> int \<Rightarrow> 'k \<Rightarrow> int \<times> 'k"
  sys_clock :: "'k \<Rightarrow> (u64 \<times> u64) \<times> 'k"
  sys_usleep :: "nat \<Rightarrow> 'k \<Rightarrow> 'k"
  sys_nanosleep_until :: "u64 \<times> u64 \<Rightarrow> 'k \<Rightarrow> 'k"
  sys_mlockall :: "'k \<Rightarrow> int \<times> 'k"
  sys_setschedparam :: "int \<Rightarrow> 'k \<Rightarrow> int \<times> 'k"
  sys_thread_create :: "thread_attr \<Rightarrow> 'k \<Rightarrow> int \<times> 'k"
  sys_thread_join :: "'k \<Rightarrow> 'k"

section \<open>Packet sockets\<close>

definition ul_ecat_transport_open :: "'k sys \<Rightarrow> string option \<Rightarrow> 'k \<Rightarrow> int \<times> 'k" where
  "ul_ecat_transport_open sys ifname k =
     (case ifname of
        None \<Rightarrow> (-1, k)
      | Some name \<Rightarrow>
          let (s, k1) = sys_socket sys k in
          if s < 0 then (-1, k1)
          else
            (case sys_ifindex sys s (take 15 name) k1 of
               (None, k2) \<Rightarrow> (-1, sys_close sys s k2)
             | (Some ifindex, k2) \<Rightarrow>
                 let (r, k3) = sys_bind sys s ifindex k2 in
                 if r < 0 then (-1, sys_close sys s k3) else (s, k3)))"

definition ul_ecat_transport_close :: "'k sys \<Rightarrow> int \<Rightarrow> 'k \<Rightarrow> 'k" where
  "ul_ecat_transport_close sys fd k = (if fd \<ge> 0 then sys_close sys fd k else k)"

definition ul_ecat_transport_send :: "'k sys \<Rightarrow> int \<Rightarrow> bytes \<Rightarrow> 'k \<Rightarrow> int \<times> 'k" where
  "ul_ecat_transport_send sys fd buf k = sys_send sys fd buf k"

definition ul_ecat_transport_recv :: "'k sys \<Rightarrow> int \<Rightarrow> nat \<Rightarrow> bool \<Rightarrow> 'k \<Rightarrow> bytes option \<times> 'k" where
  "ul_ecat_transport_recv sys fd cap dontwait k = sys_recv sys fd cap dontwait k"

definition ul_ecat_transport_wait_readable :: "'k sys \<Rightarrow> int \<Rightarrow> int \<Rightarrow> 'k \<Rightarrow> int \<times> 'k" where
  "ul_ecat_transport_wait_readable sys fd timeout_ms k =
     (let (r, k1) = sys_select sys fd (timeout_ms sdiv 1000, (timeout_ms smod 1000) * 1000) k in
      if r < 0 then (-1, k1) else (if r > 0 then 1 else 0, k1))"

section \<open>Operating system abstraction\<close>

text \<open>The file-scope state of \<open>osal_linux.c\<close> beside its locks.\<close>

record 'k linux =
  kernel :: 'k
  g_worker_started :: bool

definition on_kernel :: "('k \<Rightarrow> 'a \<times> 'k) \<Rightarrow> 'k linux \<Rightarrow> 'a \<times> 'k linux" where
  "on_kernel f w = (let (r, k) = f (kernel w) in (r, w\<lparr>kernel := k\<rparr>))"

definition in_kernel :: "('k \<Rightarrow> 'k) \<Rightarrow> 'k linux \<Rightarrow> 'k linux" where
  "in_kernel f w = w\<lparr>kernel := f (kernel w)\<rparr>"

definition ul_ecat_osal_monotonic_ns :: "'k sys \<Rightarrow> 'k \<Rightarrow> u64 \<times> 'k" where
  "ul_ecat_osal_monotonic_ns sys k = (let ((sec, nsec), k1) = sys_clock sys k in (sec * 1000000000 + nsec, k1))"

definition ul_ecat_osal_sleep_us :: "'k sys \<Rightarrow> nat \<Rightarrow> 'k \<Rightarrow> 'k" where
  "ul_ecat_osal_sleep_us sys usec k = sys_usleep sys usec k"

definition ul_ecat_osal_sleep_until_ns :: "'k sys \<Rightarrow> u64 \<Rightarrow> u64 \<Rightarrow> 'k \<Rightarrow> u64 \<times> 'k" where
  "ul_ecat_osal_sleep_until_ns sys abs_ns period_ns k =
     (let k1 = sys_nanosleep_until sys (abs_ns div 1000000000, abs_ns mod 1000000000) k in
      (abs_ns + period_ns, k1))"

definition ul_ecat_osal_realtime_hint :: "'k sys \<Rightarrow> int \<Rightarrow> 'k \<Rightarrow> 'k" where
  "ul_ecat_osal_realtime_hint sys prio k =
     (if prio \<le> 0 then k
      else
        let (_, k1) = sys_mlockall sys k;
            (_, k2) = sys_setschedparam sys prio k1 in
        k2)"

definition ul_ecat_osal_worker_start :: "'k sys \<Rightarrow> int \<Rightarrow> 'k linux \<Rightarrow> int \<times> 'k linux" where
  "ul_ecat_osal_worker_start sys prio w =
     (let (rc, w1) = on_kernel (sys_thread_create sys (Explicit_attr (if prio > 0 then Some prio else None))) w in
      if rc \<noteq> 0 then
        let (rc2, w2) = on_kernel (sys_thread_create sys Default_attr) w1 in
        if rc2 \<noteq> 0 then (-1, w2) else (0, w2\<lparr>g_worker_started := True\<rparr>)
      else (0, w1\<lparr>g_worker_started := True\<rparr>))"

definition ul_ecat_osal_worker_join :: "'k sys \<Rightarrow> 'k linux \<Rightarrow> 'k linux" where
  "ul_ecat_osal_worker_join sys w =
     (if g_worker_started w then (in_kernel (sys_thread_join sys) w)\<lparr>g_worker_started := False\<rparr> else w)"

text \<open>The master's port on Linux; \<open>stk\<close> is what an uninitialised buffer happens to hold.\<close>

definition linux_port :: "'k sys \<Rightarrow> (nat \<Rightarrow> 'k linux \<Rightarrow> bytes) \<Rightarrow> 'k linux port" where
  "linux_port sys stk =
     \<lparr>transport_open = \<lambda>name. on_kernel (ul_ecat_transport_open sys (Some name)),
      transport_close = \<lambda>fd. in_kernel (ul_ecat_transport_close sys fd),
      transport_send = \<lambda>fd f. on_kernel (ul_ecat_transport_send sys fd f),
      transport_recv = \<lambda>fd cap dw. on_kernel (ul_ecat_transport_recv sys fd cap dw),
      transport_wait_readable = \<lambda>fd t. on_kernel (ul_ecat_transport_wait_readable sys fd t),
      osal_monotonic_ns = on_kernel (ul_ecat_osal_monotonic_ns sys),
      osal_sleep_us = \<lambda>us. in_kernel (ul_ecat_osal_sleep_us sys us),
      osal_init = \<lambda>w. w,
      osal_shutdown = \<lambda>w. w,
      osal_realtime_hint = \<lambda>p. in_kernel (ul_ecat_osal_realtime_hint sys p),
      osal_worker_start = ul_ecat_osal_worker_start sys,
      osal_worker_join = ul_ecat_osal_worker_join sys,
      stack_bytes = stk\<rparr>"

section \<open>What a port leaves behind\<close>

text \<open>
  What the outside holds for the process: its open descriptors, its running worker threads, and
  whether one may be started. The contract a master relies on to clean up is that only opening,
  closing, starting and joining change it.
\<close>

record holdings =
  open_fds :: "int set"
  running :: nat
  may_start :: bool

locale clean_port =
  fixes port :: "'t port"
    and held :: "'t \<Rightarrow> holdings"
  assumes open_some: "transport_open port name t = (s, t') \<Longrightarrow>
      (if s < 0 then held t' = held t
       else s \<notin> open_fds (held t) \<and> held t' = (held t)\<lparr>open_fds := insert s (open_fds (held t))\<rparr>)"
    and close_one: "0 \<le> s \<Longrightarrow> held (transport_close port s t) = (held t)\<lparr>open_fds := open_fds (held t) - {s}\<rparr>"
    and start_one: "may_start (held t) \<Longrightarrow> osal_worker_start port p t = (r, t') \<Longrightarrow>
      held t' = (if r = 0 then (held t)\<lparr>running := Suc (running (held t)), may_start := False\<rparr> else held t)"
    and join_one: "\<not> may_start (held t) \<Longrightarrow>
      held (osal_worker_join port t) = (held t)\<lparr>running := running (held t) - 1, may_start := True\<rparr>"
    and held_send [simp]: "held (snd (transport_send port fd f t)) = held t"
    and held_recv [simp]: "held (snd (transport_recv port fd cap dw t)) = held t"
    and held_wait [simp]: "held (snd (transport_wait_readable port fd ms t)) = held t"
    and held_sleep [simp]: "held (osal_sleep_us port us t) = held t"
    and held_osal [simp]: "held (osal_init port t) = held t" "held (osal_shutdown port t) = held t"
      "held (osal_realtime_hint port prio t) = held t"
begin

text \<open>The master's exchanges hold nothing.\<close>

definition quiet :: "'t master \<Rightarrow> 't master \<Rightarrow> bool" where
  "quiet m m' \<longleftrightarrow> held (world m') = held (world m) \<and> g_sockfd m' = g_sockfd m"

lemma quiet_refl [simp]: "quiet m m" by (simp add: quiet_def)

lemma holds_trans: "quiet m m1 \<Longrightarrow> quiet m1 m2 \<Longrightarrow> quiet m m2" by (simp add: quiet_def)

lemma quiet_db [simp]: "quiet m (m1\<lparr>g_slaves_db := db\<rparr>) = quiet m m1" "quiet m (m1\<lparr>g_esi_lib := lib\<rparr>) = quiet m m1"
  "quiet (m\<lparr>g_slaves_db := db\<rparr>) m1 = quiet m m1"
  by (simp_all add: quiet_def)

lemma quiet_world:
  "on_world f m = (r, m') \<Longrightarrow> held (snd (f (world m))) = held (world m) \<Longrightarrow> quiet m m'"
  by (auto simp: on_world_def quiet_def split: prod.splits)

lemma quiet_send: "send_ec_payload port ec m = (r, m') \<Longrightarrow> quiet m m'"
  by (auto simp: send_ec_payload_def elim: quiet_world split: option.splits)

lemma quiet_recv: "recv_eth_frame port cap t m = (r, m') \<Longrightarrow> quiet m m'"
proof -
  assume a: "recv_eth_frame port cap t m = (r, m')"
  obtain w m1 where w: "on_world (transport_wait_readable port (g_sockfd m) t) m = (w, m1)" by fastforce
  then have q: "quiet m m1" by (rule quiet_world) simp
  have "on_world (transport_recv port (g_sockfd m) cap False) m1 = (r, m') \<Longrightarrow> quiet m1 m'"
    by (erule quiet_world) simp
  with a w q show ?thesis by (auto simp: recv_eth_frame_def elim: holds_trans split: if_splits)
qed

lemma quiet_exchange: "exchange_ec_payload port ec cap t m = (r, m') \<Longrightarrow> quiet m m'"
  by (auto simp: exchange_ec_payload_def dest!: quiet_send quiet_recv elim: holds_trans
      split: option.splits prod.splits if_splits)

lemma quiet_fprd: "fprd_blocking port st ado out len t m = (r, m') \<Longrightarrow> quiet m m'"
  by (auto simp: fprd_blocking_def dest: quiet_exchange split: option.splits prod.splits)

lemma quiet_write: "write_blocking port c st ado data len t m = (r, m') \<Longrightarrow> quiet m m'"
  by (auto simp: write_blocking_def dest: quiet_exchange split: option.splits prod.splits)

lemmas quiet_fpwr = quiet_write [of UL_ECAT_CMD_FPWR, folded fpwr_blocking_def]
lemmas quiet_apwr = quiet_write [of UL_ECAT_CMD_APWR, folded apwr_blocking_def]

lemma quiet_fprd_sync: "ul_ecat_fprd_sync port adp ado len out t m = (r, m') \<Longrightarrow> quiet m m'"
  by (auto simp: ul_ecat_fprd_sync_def dest: quiet_fprd split: option.splits prod.splits if_splits)

lemma quiet_fpwr_sync: "ul_ecat_fpwr_sync port adp ado data len t m = (r, m') \<Longrightarrow> quiet m m'"
  by (auto simp: ul_ecat_fpwr_sync_def dest: quiet_fpwr split: option.splits prod.splits if_splits)

lemma quiet_al: "read_al_status_blocking port st t m = (r, m') \<Longrightarrow> quiet m m'"
  "write_al_control_blocking port st w t m = (ok, m') \<Longrightarrow> quiet m m'"
  by (auto simp: read_al_status_blocking_def write_al_control_blocking_def dest: quiet_fprd quiet_fpwr
      split: option.splits prod.splits if_splits)

lemma quiet_sleep: "quiet m (sleep_step port m)"
  by (simp add: quiet_def sleep_step_def)

lemma quiet_poll_from: "poll_from port i d tm e m = (ok, m') \<Longrightarrow> quiet m m'"
proof (induction "nat (tm - e)" arbitrary: e m rule: less_induct)
  case less
  show ?case
  proof (cases "e < tm")
    case False
    with less.prems show ?thesis by (subst (asm) poll_from.simps) simp
  next
    case True
    obtain r m1 where r: "read_al_status_blocking port (station_address (g_slaves_db m ! i)) 200 m = (r, m1)" by fastforce
    then have q: "quiet m m1" by (rule quiet_al)
    have again: "poll_from port i d tm (e + 20) (sleep_step port m1) = (ok, m') \<Longrightarrow> quiet m m'"
      using less.hyps [of "e + 20" "sleep_step port m1"] True holds_trans [OF holds_trans [OF q quiet_sleep]] by simp
    from less.prems True r q again show ?thesis
      by (subst (asm) poll_from.simps) (auto simp: set_state_def split: option.splits if_splits)
  qed
qed

lemma quiet_request: "ul_ecat_request_slave_state port i st m = (ok, m') \<Longrightarrow> quiet m m'"
  by (auto simp: ul_ecat_request_slave_state_def ul_ecat_request_slave_state_mailbox_def ul_ecat_poll_slave_state_def Let_def
      dest!: quiet_al(2) quiet_poll_from elim!: holds_trans split: prod.splits if_splits)

lemma quiet_identity: "read_identity port st reg tmp m = (v, tmp', m') \<Longrightarrow> quiet m m'"
  by (auto simp: read_identity_def dest: quiet_fprd split: option.splits prod.splits)

lemma quiet_scan_positions: "quiet m (scan_positions port ps m)"
proof (induction ps arbitrary: m)
  case Nil
  then show ?case by simp
next
  case (Cons pos ps)
  obtain r m1 where a: "apwr_blocking port (word_of_nat pos) 0x0010 (le16 (word_of_nat (0x1000 + pos))) 2 200 m = (r, m1)"
    by fastforce
  then have q1: "quiet m m1" by (rule quiet_apwr)
  let ?st = "word_of_nat (0x1000 + pos) :: u16"
  obtain vid t1 m2 where r1: "read_identity port ?st 0x0012 (stack_bytes port 4 (world m1)) m1 = (vid, t1, m2)"
    by (metis surj_pair)
  obtain pid t2 m3 where r2: "read_identity port ?st 0x0016 t1 m2 = (pid, t2, m3)" by (metis surj_pair)
  obtain rev t3 m4 where r3: "read_identity port ?st 0x001A t2 m3 = (rev, t3, m4)" by (metis surj_pair)
  obtain ser t4 m5 where r4: "read_identity port ?st 0x001E t3 m4 = (ser, t4, m5)" by (metis surj_pair)
  have q5: "quiet m m5"
    using q1 quiet_identity [OF r1] quiet_identity [OF r2] quiet_identity [OF r3] quiet_identity [OF r4]
    by (metis holds_trans)
  show ?case
  proof (cases "\<exists>wkc. r = Some wkc \<and> \<not> wkc < 1")
    case False
    then have "scan_positions port (pos # ps) m = m1" using a by (auto simp: Let_def split: option.splits)
    then show ?thesis using q1 by simp
  next
    case True
    let ?e = "\<lparr>station_address = ?st, m_state = UL_ECAT_SLAVE_STATE_INIT, m_vendor_id = vid,
       m_product_code = pid, m_revision_no = rev, m_serial_no = ser, m_device_name = []\<rparr>"
    have "scan_positions port (pos # ps) m = scan_positions port ps (m5\<lparr>g_slaves_db := g_slaves_db m5 @ [?e]\<rparr>)"
      using True a r1 r2 r3 r4 by (auto simp: Let_def)
    then show ?thesis using Cons.IH holds_trans [OF q5] by (metis quiet_db(3))
  qed
qed

lemma quiet_snd:
  "quiet m (snd (ul_ecat_request_slave_state port i st m))"
  "quiet m (snd (ul_ecat_fprd_sync port adp ado len out t m))"
  "quiet m (snd (ul_ecat_fpwr_sync port adp ado data len t m))"
  "quiet m (ul_ecat_scan_network port m)"
  "quiet m (ul_ecat_scan_slaves_with_esi fs files m)"
  using quiet_request quiet_fprd_sync quiet_fpwr_sync quiet_scan_positions [of "m\<lparr>g_slaves_db := []\<rparr>"]
  by (simp_all add: prod_eq_iff ul_ecat_scan_network_def ul_ecat_scan_slaves_with_esi_def Let_def)

lemma quiet_command: "quiet m (snd (cli_command port fs argv m))"
  by (simp add: cli_command_def Let_def quiet_snd split: prod.split option.split)
    (metis quiet_snd(2) snd_conv)

text \<open>Start-up takes a descriptor and a worker, or nothing; shutdown gives them back.\<close>

lemma init_takes:
  assumes "may_start (held (world m))" "ul_ecat_master_init port (Some c) m = (ok, m')"
  shows "if ok then 0 \<le> g_sockfd m' \<and> g_sockfd m' \<notin> open_fds (held (world m)) \<and>
      held (world m') = \<lparr>open_fds = insert (g_sockfd m') (open_fds (held (world m))),
        running = Suc (running (held (world m))), may_start = False\<rparr>
    else held (world m') = held (world m)"
proof -
  obtain s t1 where o: "transport_open port (iface_name c) (osal_init port (world m)) = (s, t1)" by fastforce
  note h1 = open_some [OF o]
  let ?t2 = "osal_realtime_hint port (rt_priority c) t1"
  obtain r t3 where w: "osal_worker_start port (rt_priority c) ?t2 = (r, t3)" by fastforce
  show ?thesis
  proof (cases "s < 0")
    case True
    then show ?thesis using assms(2) o h1 by (auto simp: ul_ecat_master_init_def on_world_def Let_def)
  next
    case False
    then have "held t1 = (held (world m))\<lparr>open_fds := insert s (open_fds (held (world m)))\<rparr>" "s \<notin> open_fds (held (world m))"
      using h1 by simp_all
    moreover have "held t3 = (if r = 0 then (held t1)\<lparr>running := Suc (running (held t1)), may_start := False\<rparr> else held t1)"
      using start_one [OF _ w] assms(1) calculation(1) by simp
    ultimately show ?thesis
      using assms(2) o w False by (auto simp: ul_ecat_master_init_def on_world_def Let_def close_one split: if_splits)
  qed
qed

lemma shutdown_gives:
  assumes "0 \<le> g_sockfd m" "\<not> may_start (held (world m))"
  shows "held (world (snd (ul_ecat_master_shutdown port m)))
    = \<lparr>open_fds = open_fds (held (world m)) - {g_sockfd m}, running = running (held (world m)) - 1, may_start = True\<rparr>"
  using assms by (simp add: ul_ecat_master_shutdown_def Let_def close_one join_one)

lemma app_holds_nothing:
  assumes "may_start (held (world m))"
  shows "held (world (snd (ul_ecat_app_execute port fs argv m))) = held (world m)"
proof (cases "length argv < 3")
  case True
  then show ?thesis by (simp add: ul_ecat_app_execute_def)
next
  case False
  obtain ok m1 where i: "ul_ecat_master_init port (Some (cli_settings (argv ! 1))) m = (ok, m1)" by fastforce
  obtain r m2 where c: "cli_command port fs argv m1 = (r, m2)" by fastforce
  then have q: "quiet m1 m2" using quiet_command [of m1 fs argv] by simp
  show ?thesis
  proof (cases ok)
    case False
    then show ?thesis using init_takes [OF assms i] i by (simp add: ul_ecat_app_execute_def)
  next
    case True
    note t = init_takes [OF assms i, simplified True if_True]
    then have "held (world (snd (ul_ecat_master_shutdown port m2))) = held (world m)"
      using shutdown_gives [of m2] q assms by (simp add: quiet_def)
    then show ?thesis using True i c \<open>\<not> length argv < 3\<close> by (simp add: ul_ecat_app_execute_def)
  qed
qed

end

section \<open>What the kernel promises\<close>

text \<open>
  The kernel's side: a descriptor it hands out is new, closing gives it back, a created thread runs
  until it is joined, and no other call opens, closes, starts or ends anything. Every kernel that
  keeps this makes \<open>linux_port\<close> a clean port.
\<close>

definition linux_held :: "('k \<Rightarrow> int set) \<Rightarrow> ('k \<Rightarrow> nat) \<Rightarrow> 'k linux \<Rightarrow> holdings" where
  "linux_held fds threads w =
     \<lparr>open_fds = fds (kernel w), running = threads (kernel w), may_start = \<not> g_worker_started w\<rparr>"

locale posix_kernel =
  fixes sys :: "'k sys"
    and fds :: "'k \<Rightarrow> int set"
    and threads :: "'k \<Rightarrow> nat"
    and stk :: "nat \<Rightarrow> 'k linux \<Rightarrow> bytes"
  assumes socket_new: "sys_socket sys k = (s, k1) \<Longrightarrow> threads k1 = threads k \<and>
      (if s < 0 then fds k1 = fds k else s \<notin> fds k \<and> fds k1 = insert s (fds k))"
    and close_gone [simp]: "fds (sys_close sys s k) = fds k - {s}" "threads (sys_close sys s k) = threads k"
    and create_runs: "sys_thread_create sys at k = (r, k1) \<Longrightarrow> fds k1 = fds k \<and>
      threads k1 = (if r = 0 then Suc (threads k) else threads k)"
    and join_ends [simp]: "fds (sys_thread_join sys k) = fds k" "threads (sys_thread_join sys k) = threads k - 1"
    and keeps_fds [simp]: "fds (snd (sys_ifindex sys s name k)) = fds k" "fds (snd (sys_bind sys s ix k)) = fds k"
      "fds (snd (sys_send sys s buf k)) = fds k" "fds (snd (sys_recv sys s cap dw k)) = fds k"
      "fds (snd (sys_select sys s tv k)) = fds k" "fds (sys_usleep sys us k) = fds k"
      "fds (snd (sys_mlockall sys k)) = fds k" "fds (snd (sys_setschedparam sys p k)) = fds k"
    and keeps_threads [simp]: "threads (snd (sys_ifindex sys s name k)) = threads k" "threads (snd (sys_bind sys s ix k)) = threads k"
      "threads (snd (sys_send sys s buf k)) = threads k" "threads (snd (sys_recv sys s cap dw k)) = threads k"
      "threads (snd (sys_select sys s tv k)) = threads k" "threads (sys_usleep sys us k) = threads k"
      "threads (snd (sys_mlockall sys k)) = threads k" "threads (snd (sys_setschedparam sys p k)) = threads k"
begin

lemma open_held:
  assumes "ul_ecat_transport_open sys (Some name) k = (s, k')"
  shows "threads k' = threads k \<and> (if s < 0 then fds k' = fds k else s \<notin> fds k \<and> fds k' = insert s (fds k))"
proof -
  obtain s1 k1 where 1: "sys_socket sys k = (s1, k1)" by fastforce
  obtain ix k2 where 2: "sys_ifindex sys s1 (take 15 name) k1 = (ix, k2)" by fastforce
  obtain r k3 where 3: "sys_bind sys s1 (the ix) k2 = (r, k3)" by fastforce
  have k2: "fds k2 = fds k1" "threads k2 = threads k1" using keeps_fds(1) keeps_threads(1) 2 by (metis snd_conv)+
  have k3: "fds k3 = fds k2" "threads k3 = threads k2" using keeps_fds(2) keeps_threads(2) 3 by (metis snd_conv)+
  show ?thesis
    using assms 1 2 3 socket_new [OF 1] k2 k3
    by (cases ix) (auto simp: ul_ecat_transport_open_def split: if_splits)
qed

lemma steps_held: "(\<And>k. fds (snd (f k)) = fds k \<and> threads (snd (f k)) = threads k) \<Longrightarrow>
    linux_held fds threads (snd (on_kernel f w)) = linux_held fds threads w"
  by (simp add: linux_held_def on_kernel_def split_beta)

lemma start_held:
  assumes "ul_ecat_osal_worker_start sys p w = (r, w')"
  shows "fds (kernel w') = fds (kernel w)" "threads (kernel w') = (if r = 0 then Suc (threads (kernel w)) else threads (kernel w))"
    "g_worker_started w' = (r = 0 \<or> g_worker_started w)"
proof -
  obtain r1 k1 where 1: "sys_thread_create sys (Explicit_attr (if p > 0 then Some p else None)) (kernel w) = (r1, k1)" by fastforce
  obtain r2 k2 where 2: "sys_thread_create sys Default_attr k1 = (r2, k2)" by fastforce
  note c = create_runs [OF 1] create_runs [OF 2]
  have w': "(r, w') = (if r1 \<noteq> 0 then (if r2 \<noteq> 0 then (-1, w\<lparr>kernel := k2\<rparr>) else (0, w\<lparr>kernel := k2, g_worker_started := True\<rparr>))
      else (0, w\<lparr>kernel := k1, g_worker_started := True\<rparr>))"
    using assms 1 2 by (cases "r1 = 0"; cases "r2 = 0") (simp_all add: ul_ecat_osal_worker_start_def on_kernel_def)
  show "fds (kernel w') = fds (kernel w)" "threads (kernel w') = (if r = 0 then Suc (threads (kernel w)) else threads (kernel w))"
    "g_worker_started w' = (r = 0 \<or> g_worker_started w)"
    using w' c by (cases "r1 = 0"; cases "r2 = 0"; simp)+
qed

end

sublocale posix_kernel \<subseteq> linux: clean_port "linux_port sys stk" "linux_held fds threads"
proof
  fix name t s t'
  assume "transport_open (linux_port sys stk) name t = (s, t')"
  then show "if s < 0 then linux_held fds threads t' = linux_held fds threads t
      else s \<notin> open_fds (linux_held fds threads t) \<and>
        linux_held fds threads t' = (linux_held fds threads t)\<lparr>open_fds := insert s (open_fds (linux_held fds threads t))\<rparr>"
    using open_held [of name "kernel t" s "kernel t'"]
    by (auto simp: linux_port_def on_kernel_def linux_held_def split: prod.splits if_splits)
next
  fix t p r t'
  assume "may_start (linux_held fds threads t)" "osal_worker_start (linux_port sys stk) p t = (r, t')"
  then show "linux_held fds threads t' = (if r = 0 then (linux_held fds threads t)\<lparr>running := Suc (running (linux_held fds threads t)), may_start := False\<rparr>
      else linux_held fds threads t)"
    using start_held [of p t r t'] by (simp add: linux_port_def linux_held_def)
next
  note defs = linux_port_def ul_ecat_transport_send_def ul_ecat_transport_recv_def
    ul_ecat_transport_wait_readable_def ul_ecat_osal_sleep_us_def ul_ecat_osal_realtime_hint_def
  show "linux_held fds threads (snd (transport_send (linux_port sys stk) fd f t)) = linux_held fds threads t" for fd f t
    by (simp add: defs steps_held)
  show "linux_held fds threads (snd (transport_recv (linux_port sys stk) fd cap dw t)) = linux_held fds threads t" for fd cap dw t
    by (simp add: defs steps_held)
  show "linux_held fds threads (snd (transport_wait_readable (linux_port sys stk) fd ms t)) = linux_held fds threads t" for fd ms t
    by (simp add: defs steps_held split_beta Let_def)
  show "linux_held fds threads (osal_realtime_hint (linux_port sys stk) prio t) = linux_held fds threads t" for prio t
    by (simp add: defs in_kernel_def linux_held_def split_beta Let_def)
qed (simp_all add: linux_port_def in_kernel_def linux_held_def ul_ecat_transport_close_def ul_ecat_osal_worker_join_def
    ul_ecat_osal_sleep_us_def)

section \<open>A scripted kernel\<close>

text \<open>
  A kernel that keeps track of descriptors and threads and takes every outcome it is free to choose
  from a script: which calls fail, what arrives and when, what the clock says. An exhausted script
  says no.
\<close>

datatype outcome = Yes | No | Rx bytes | Num int

record script_kernel =
  k_open :: "int list"
  k_running :: nat
  k_script :: "outcome list"

definition next_outcome :: "script_kernel \<Rightarrow> outcome \<times> script_kernel" where
  "next_outcome k =
     (case k_script k of [] \<Rightarrow> (No, k) | x # xs \<Rightarrow> (x, k\<lparr>k_script := xs\<rparr>))"

definition fresh_fd :: "int list \<Rightarrow> int" where
  "fresh_fd fds = foldr max fds 2 + 1"

lemma fresh_fd: "fresh_fd fds \<notin> set fds" "0 \<le> fresh_fd fds"
proof -
  have "\<forall>x \<in> set fds. x \<le> foldr max fds 2" "2 \<le> foldr max fds (2 :: int)"
    by (induction fds) (auto simp: max_def)
  then show "fresh_fd fds \<notin> set fds" "0 \<le> fresh_fd fds" by (auto simp: fresh_fd_def)
qed

definition said :: "outcome \<Rightarrow> int" where
  "said x = (case x of Yes \<Rightarrow> 0 | No \<Rightarrow> -1 | Rx b \<Rightarrow> int (length b) | Num n \<Rightarrow> n)"

definition script_sys :: "script_kernel sys" where
  "script_sys =
     \<lparr>sys_socket = \<lambda>k. (let (x, k1) = next_outcome k; s = fresh_fd (k_open k1) in
        if x = Yes then (s, k1\<lparr>k_open := s # k_open k1\<rparr>) else (-1, k1)),
      sys_ifindex = \<lambda>_ _ k. (let (x, k1) = next_outcome k in (case x of Num n \<Rightarrow> Some n | _ \<Rightarrow> None, k1)),
      sys_bind = \<lambda>_ _ k. (let (x, k1) = next_outcome k in (said x, k1)),
      sys_close = \<lambda>fd k. k\<lparr>k_open := removeAll fd (k_open k)\<rparr>,
      sys_send = \<lambda>_ _ k. (let (x, k1) = next_outcome k in (said x, k1)),
      sys_recv = \<lambda>_ cap _ k. (let (x, k1) = next_outcome k in (case x of Rx b \<Rightarrow> Some (take cap b) | _ \<Rightarrow> None, k1)),
      sys_select = \<lambda>_ _ k. (let (x, k1) = next_outcome k in (said x, k1)),
      sys_clock = \<lambda>k. (let (x, k1) = next_outcome k in ((word_of_int (said x), 0), k1)),
      sys_usleep = \<lambda>_ k. k,
      sys_nanosleep_until = \<lambda>_ k. k,
      sys_mlockall = \<lambda>k. (let (x, k1) = next_outcome k in (said x, k1)),
      sys_setschedparam = \<lambda>_ k. (let (x, k1) = next_outcome k in (said x, k1)),
      sys_thread_create = \<lambda>_ k. (let (x, k1) = next_outcome k in
        if x = Yes then (0, k1\<lparr>k_running := Suc (k_running k1)\<rparr>) else (-1, k1)),
      sys_thread_join = \<lambda>k. k\<lparr>k_running := k_running k - 1\<rparr>\<rparr>"

definition script_port :: "script_kernel linux port" where
  "script_port = linux_port script_sys (\<lambda>n _. replicate n 0xCC)"

lemma next_outcome_keeps: "next_outcome k = (x, k1) \<Longrightarrow> k_open k1 = k_open k \<and> k_running k1 = k_running k"
  by (auto simp: next_outcome_def split: list.splits)

lemma next_outcome_keeps' [simp]: "k_open (snd (next_outcome k)) = k_open k" "k_running (snd (next_outcome k)) = k_running k"
  using next_outcome_keeps [of k] by (metis surj_pair snd_conv)+

interpretation script: posix_kernel script_sys "\<lambda>k. set (k_open k)" k_running "\<lambda>n _. replicate n 0xCC"
proof
  show "sys_socket script_sys k = (s, k1) \<Longrightarrow> k_running k1 = k_running k \<and>
      (if s < 0 then set (k_open k1) = set (k_open k) else s \<notin> set (k_open k) \<and> set (k_open k1) = insert s (set (k_open k)))" for k s k1
    using fresh_fd [of "k_open k"]
    by (auto simp: script_sys_def Let_def next_outcome_keeps split: prod.splits if_splits)
  show "sys_thread_create script_sys at k = (r, k1) \<Longrightarrow> set (k_open k1) = set (k_open k) \<and>
      k_running k1 = (if r = 0 then Suc (k_running k) else k_running k)" for at k r k1
    by (auto simp: script_sys_def Let_def next_outcome_keeps split: prod.splits if_splits)
qed (simp_all add: script_sys_def Let_def split_beta)

text \<open>
  Property C21. Whatever the kernel answers (calls that fail, frames that arrive or not) and
  whatever command line is given, when \<open>ul_ecat_app_execute\<close> returns the process
  holds the descriptors it held before and no worker thread is left running: every path, the
  failing ones included, closes the socket and joins the thread.
\<close>

theorem cli_leaves_nothing:
  assumes "\<not> g_worker_started (world m)"
  shows "let w = world (snd (ul_ecat_app_execute script_port fs argv m)) in
    set (k_open (kernel w)) = set (k_open (kernel (world m))) \<and> k_running (kernel w) = k_running (kernel (world m)) \<and>
    \<not> g_worker_started w"
  using script.linux.app_holds_nothing [of m fs argv] assms by (simp add: linux_held_def script_port_def Let_def)

section \<open>Starting twice\<close>

definition fresh_linux :: "outcome list \<Rightarrow> script_kernel linux" where
  "fresh_linux xs = \<lparr>kernel = \<lparr>k_open = [], k_running = 0, k_script = xs\<rparr>, g_worker_started = False\<rparr>"

text \<open>The outcomes of one start-up that succeeds.\<close>

abbreviation good_start :: "outcome list" where
  "good_start \<equiv> [Yes, Num 2, Yes, Yes, Yes, Yes]"

text \<open>
  A second \<open>ul_ecat_master_init\<close> without a shutdown in between takes
  another socket and another thread and forgets the first: after the shutdown one descriptor is
  still open and one thread still runs.
\<close>

theorem second_init_leaks:
  "let m1 = snd (ul_ecat_master_init script_port (Some (cli_settings ''eth0'')) (idle_master (fresh_linux (good_start @ good_start))));
       m2 = snd (ul_ecat_master_init script_port (Some (cli_settings ''eth0'')) m1);
       (ok, m3) = ul_ecat_master_shutdown script_port m2 in
   ok \<and> k_open (kernel (world m3)) = [3] \<and> k_running (kernel (world m3)) = 1"
  by (simp add: fresh_linux_def ul_ecat_master_init_def ul_ecat_master_shutdown_def on_world_def script_port_def
      linux_port_def on_kernel_def in_kernel_def ul_ecat_transport_open_def ul_ecat_transport_close_def
      ul_ecat_osal_realtime_hint_def ul_ecat_osal_worker_start_def ul_ecat_osal_worker_join_def script_sys_def
      next_outcome_def said_def fresh_fd_def cli_settings_def)

section \<open>Witnesses\<close>

theorem cli_leaves_nothing_witness:
  "let w = world (snd (ul_ecat_app_execute script_port Map.empty [''ecat'', ''eth0'', ''scan''] (idle_master (fresh_linux good_start)))) in
   k_open (kernel w) = [] \<and> k_running (kernel w) = 0"
  using cli_leaves_nothing [of "idle_master (fresh_linux good_start)" Map.empty "[''ecat'', ''eth0'', ''scan'']"]
  by (simp add: fresh_linux_def Let_def)

end
