(* ===== verification/Nuttx.thy ===== *)
theory Nuttx
  imports Platform
begin

text \<open>
  The NuttX platform: \<open>src/transport/transport_nuttx.c\<close> and \<open>src/osal/osal_nuttx.c\<close> over the same
  system calls as the Linux platform. The port they make is the Linux port over a kernel that locks
  no memory and knows only short interface names, so the contract of \<open>Platform\<close> carries over. The
  lock and condition wrappers are modelled in \<open>Threads\<close>.
\<close>

section \<open>Transport\<close>

text \<open>An interface name is cut to \<open>siz - 1\<close> characters, \<open>siz\<close> being NuttX's \<open>IFNAMSIZ\<close>.\<close>

definition nuttx_transport_open :: "'k sys \<Rightarrow> nat \<Rightarrow> string option \<Rightarrow> 'k \<Rightarrow> int \<times> 'k" where
  "nuttx_transport_open sys siz ifname k =
     (case ifname of
        None \<Rightarrow> (-1, k)
      | Some name \<Rightarrow>
          let (s, k1) = sys_socket sys k in
          if s < 0 then (-1, k1)
          else
            (case sys_ifindex sys s (take (siz - 1) name) k1 of
               (None, k2) \<Rightarrow> (-1, sys_close sys s k2)
             | (Some ifindex, k2) \<Rightarrow>
                 let (r, k3) = sys_bind sys s ifindex k2 in
                 if r < 0 then (-1, sys_close sys s k3) else (s, k3)))"

definition nuttx_transport_close :: "'k sys \<Rightarrow> int \<Rightarrow> 'k \<Rightarrow> 'k" where
  "nuttx_transport_close sys fd k = (if fd \<ge> 0 then sys_close sys fd k else k)"

definition nuttx_transport_send :: "'k sys \<Rightarrow> int \<Rightarrow> bytes \<Rightarrow> 'k \<Rightarrow> int \<times> 'k" where
  "nuttx_transport_send sys fd buf k = sys_send sys fd buf k"

definition nuttx_transport_recv :: "'k sys \<Rightarrow> int \<Rightarrow> nat \<Rightarrow> bool \<Rightarrow> 'k \<Rightarrow> bytes option \<times> 'k" where
  "nuttx_transport_recv sys fd cap dontwait k = sys_recv sys fd cap dontwait k"

definition nuttx_transport_wait_readable :: "'k sys \<Rightarrow> int \<Rightarrow> int \<Rightarrow> 'k \<Rightarrow> int \<times> 'k" where
  "nuttx_transport_wait_readable sys fd timeout_ms k =
     (let (r, k1) = sys_select sys fd (timeout_ms sdiv 1000, (timeout_ms smod 1000) * 1000) k in
      if r < 0 then (-1, k1) else (if r > 0 then 1 else 0, k1))"

section \<open>Operating system abstraction\<close>

definition nuttx_monotonic_ns :: "'k sys \<Rightarrow> 'k \<Rightarrow> u64 \<times> 'k" where
  "nuttx_monotonic_ns sys k = (let ((sec, nsec), k1) = sys_clock sys k in (sec * 1000000000 + nsec, k1))"

definition nuttx_sleep_us :: "'k sys \<Rightarrow> nat \<Rightarrow> 'k \<Rightarrow> 'k" where
  "nuttx_sleep_us sys usec k = sys_usleep sys usec k"

definition nuttx_sleep_until_ns :: "'k sys \<Rightarrow> u64 \<Rightarrow> u64 \<Rightarrow> 'k \<Rightarrow> u64 \<times> 'k" where
  "nuttx_sleep_until_ns sys abs_ns period_ns k =
     (let k1 = sys_nanosleep_until sys (abs_ns div 1000000000, abs_ns mod 1000000000) k in
      (abs_ns + period_ns, k1))"

definition nuttx_realtime_hint :: "'k sys \<Rightarrow> int \<Rightarrow> 'k \<Rightarrow> 'k" where
  "nuttx_realtime_hint sys prio k =
     (if prio \<le> 0 then k else let (_, k1) = sys_setschedparam sys prio k in k1)"

definition nuttx_worker_start :: "'k sys \<Rightarrow> int \<Rightarrow> 'k linux \<Rightarrow> int \<times> 'k linux" where
  "nuttx_worker_start sys prio w =
     (let (rc, w1) = on_kernel (sys_thread_create sys (Explicit_attr (if prio > 0 then Some prio else None))) w in
      if rc \<noteq> 0 then
        let (rc2, w2) = on_kernel (sys_thread_create sys Default_attr) w1 in
        if rc2 \<noteq> 0 then (-1, w2) else (0, w2\<lparr>g_worker_started := True\<rparr>)
      else (0, w1\<lparr>g_worker_started := True\<rparr>))"

definition nuttx_worker_join :: "'k sys \<Rightarrow> 'k linux \<Rightarrow> 'k linux" where
  "nuttx_worker_join sys w =
     (if g_worker_started w then (in_kernel (sys_thread_join sys) w)\<lparr>g_worker_started := False\<rparr> else w)"

definition nuttx_port :: "'k sys \<Rightarrow> nat \<Rightarrow> (nat \<Rightarrow> 'k linux \<Rightarrow> bytes) \<Rightarrow> 'k linux port" where
  "nuttx_port sys siz stk =
     \<lparr>transport_open = \<lambda>name. on_kernel (nuttx_transport_open sys siz (Some name)),
      transport_close = \<lambda>fd. in_kernel (nuttx_transport_close sys fd),
      transport_send = \<lambda>fd f. on_kernel (nuttx_transport_send sys fd f),
      transport_recv = \<lambda>fd cap dw. on_kernel (nuttx_transport_recv sys fd cap dw),
      transport_wait_readable = \<lambda>fd t. on_kernel (nuttx_transport_wait_readable sys fd t),
      osal_monotonic_ns = on_kernel (nuttx_monotonic_ns sys),
      osal_sleep_us = \<lambda>us. in_kernel (nuttx_sleep_us sys us),
      osal_init = \<lambda>w. w,
      osal_shutdown = \<lambda>w. w,
      osal_realtime_hint = \<lambda>p. in_kernel (nuttx_realtime_hint sys p),
      osal_worker_start = nuttx_worker_start sys,
      osal_worker_join = nuttx_worker_join sys,
      stack_bytes = stk\<rparr>"

section \<open>Linux without locked memory\<close>

text \<open>
  The abstract view: a Linux whose \<open>mlockall\<close> does nothing, and which knows only short interface names.
\<close>

definition as_linux :: "nat \<Rightarrow> 'k sys \<Rightarrow> 'k sys" where
  "as_linux siz sys = sys\<lparr>sys_mlockall := \<lambda>k. (0, k), sys_ifindex := \<lambda>s name. sys_ifindex sys s (take (siz - 1) name)\<rparr>"

lemma as_linux_sel [simp]:
  "sys_socket (as_linux siz sys) = sys_socket sys" "sys_bind (as_linux siz sys) = sys_bind sys"
  "sys_close (as_linux siz sys) = sys_close sys" "sys_send (as_linux siz sys) = sys_send sys"
  "sys_recv (as_linux siz sys) = sys_recv sys" "sys_select (as_linux siz sys) = sys_select sys"
  "sys_clock (as_linux siz sys) = sys_clock sys" "sys_usleep (as_linux siz sys) = sys_usleep sys"
  "sys_nanosleep_until (as_linux siz sys) = sys_nanosleep_until sys" "sys_mlockall (as_linux siz sys) = (\<lambda>k. (0, k))"
  "sys_setschedparam (as_linux siz sys) = sys_setschedparam sys" "sys_thread_create (as_linux siz sys) = sys_thread_create sys"
  "sys_thread_join (as_linux siz sys) = sys_thread_join sys"
  "sys_ifindex (as_linux siz sys) s name = sys_ifindex sys s (take (siz - 1) name)"
  by (simp_all add: as_linux_def)

lemma take_short: "siz \<le> 16 \<Longrightarrow> take (siz - 1) (take 15 name) = take (siz - 1) name"
  by (simp add: min_def)

lemma nuttx_open: "siz \<le> 16 \<Longrightarrow> nuttx_transport_open sys siz = ul_ecat_transport_open (as_linux siz sys)"
  unfolding nuttx_transport_open_def [abs_def] ul_ecat_transport_open_def [abs_def] as_linux_sel by (simp only: take_short)

lemma nuttx_transport:
  "nuttx_transport_close sys = ul_ecat_transport_close (as_linux siz sys)"
  "nuttx_transport_send sys = ul_ecat_transport_send (as_linux siz sys)"
  "nuttx_transport_recv sys = ul_ecat_transport_recv (as_linux siz sys)"
  "nuttx_transport_wait_readable sys = ul_ecat_transport_wait_readable (as_linux siz sys)"
  unfolding nuttx_transport_close_def [abs_def] ul_ecat_transport_close_def [abs_def]
    nuttx_transport_send_def [abs_def] ul_ecat_transport_send_def [abs_def]
    nuttx_transport_recv_def [abs_def] ul_ecat_transport_recv_def [abs_def]
    nuttx_transport_wait_readable_def [abs_def] ul_ecat_transport_wait_readable_def [abs_def] as_linux_sel
  by (rule refl)+

lemma nuttx_osal:
  "nuttx_monotonic_ns sys = ul_ecat_osal_monotonic_ns (as_linux siz sys)"
  "nuttx_sleep_us sys = ul_ecat_osal_sleep_us (as_linux siz sys)"
  "nuttx_sleep_until_ns sys = ul_ecat_osal_sleep_until_ns (as_linux siz sys)"
  "nuttx_worker_start sys = ul_ecat_osal_worker_start (as_linux siz sys)"
  "nuttx_worker_join sys = ul_ecat_osal_worker_join (as_linux siz sys)"
  unfolding nuttx_monotonic_ns_def [abs_def] ul_ecat_osal_monotonic_ns_def [abs_def]
    nuttx_sleep_us_def [abs_def] ul_ecat_osal_sleep_us_def [abs_def]
    nuttx_sleep_until_ns_def [abs_def] ul_ecat_osal_sleep_until_ns_def [abs_def]
    nuttx_worker_start_def [abs_def] ul_ecat_osal_worker_start_def [abs_def]
    nuttx_worker_join_def [abs_def] ul_ecat_osal_worker_join_def [abs_def] as_linux_sel
  by (rule refl)+

lemma nuttx_hint: "nuttx_realtime_hint sys = ul_ecat_osal_realtime_hint (as_linux siz sys)"
  by (intro ext) (simp add: nuttx_realtime_hint_def ul_ecat_osal_realtime_hint_def)

lemma nuttx_port_linux: "siz \<le> 16 \<Longrightarrow> nuttx_port sys siz stk = linux_port (as_linux siz sys) stk"
  unfolding nuttx_port_def linux_port_def
  by (simp only: nuttx_open nuttx_transport [of sys siz] nuttx_osal [of sys siz] nuttx_hint [of sys siz])

text \<open>Whoever keeps the kernel's promise keeps it through the abstract view.\<close>

context posix_kernel begin

lemma as_linux_kernel: "posix_kernel (as_linux siz sys) fds threads"
  by unfold_locales
    (simp_all add: socket_new create_runs)

lemma linux_clean: "clean_port (linux_port sys stk) (linux_held fds threads)"
  by (rule linux.clean_port_axioms)

end

context posix_kernel begin

lemma nuttx_clean:
  assumes "siz \<le> 16"
  shows "clean_port (nuttx_port sys siz stk) (linux_held fds threads)"
  unfolding nuttx_port_linux [OF assms]
  by (rule posix_kernel.linux_clean [OF as_linux_kernel])

end

text \<open>The scripted kernel has NuttX's names of at most fifteen characters, too.\<close>

definition nuttx_script_port :: "script_kernel linux port" where
  "nuttx_script_port = nuttx_port script_sys 16 (\<lambda>n _. replicate n 0xCC)"

interpretation nuttx: clean_port nuttx_script_port "linux_held (\<lambda>k. set (k_open k)) k_running"
  unfolding nuttx_script_port_def by (rule script.nuttx_clean) simp

text \<open>
  Property C22. The NuttX transport and OSAL do exactly what the Linux ones do, except that no
  memory is locked and that an interface name is cut to NuttX's \<open>IFNAMSIZ\<close>: the
  master's port on NuttX is the port on a Linux kernel whose \<open>mlockall\<close> does nothing
  and which reads only the first \<open>siz - 1\<close> characters of a name, and the sleep until
  a deadline is the same function.
\<close>

theorem nuttx_is_linux_unlocked:
  assumes "siz \<le> 16"
  shows "nuttx_port sys siz stk
      = linux_port (sys\<lparr>sys_mlockall := \<lambda>k. (0, k), sys_ifindex := \<lambda>s name. sys_ifindex sys s (take (siz - 1) name)\<rparr>) stk \<and>
    nuttx_sleep_until_ns sys = ul_ecat_osal_sleep_until_ns sys"
proof
  show "nuttx_port sys siz stk
      = linux_port (sys\<lparr>sys_mlockall := \<lambda>k. (0, k), sys_ifindex := \<lambda>s name. sys_ifindex sys s (take (siz - 1) name)\<rparr>) stk"
    by (simp only: nuttx_port_linux [OF assms] as_linux_def)
  show "nuttx_sleep_until_ns sys = ul_ecat_osal_sleep_until_ns sys"
    unfolding nuttx_osal(3) [of sys 0] ul_ecat_osal_sleep_until_ns_def [abs_def] by simp
qed

text \<open>
  On NuttX, whatever the kernel answers and whatever command line is given: when
  \<open>ul_ecat_app_execute\<close> returns the process holds the descriptors it held before and
  no worker thread is left running.
\<close>

theorem nuttx_cli_leaves_nothing:
  assumes "\<not> g_worker_started (world m)"
  shows "let w = world (snd (ul_ecat_app_execute nuttx_script_port fs argv m)) in
    set (k_open (kernel w)) = set (k_open (kernel (world m))) \<and> k_running (kernel w) = k_running (kernel (world m)) \<and>
    \<not> g_worker_started w"
  using nuttx.app_holds_nothing [of m fs argv] assms by (simp add: linux_held_def Let_def)

section \<open>Witnesses\<close>

theorem nuttx_is_linux_unlocked_witness:
  "nuttx_port script_sys 10 (\<lambda>n _. replicate n 0xCC)
    = linux_port (script_sys\<lparr>sys_mlockall := \<lambda>k. (0, k), sys_ifindex := \<lambda>s name. sys_ifindex script_sys s (take 9 name)\<rparr>)
        (\<lambda>n _. replicate n 0xCC)"
  using nuttx_is_linux_unlocked [of 10 script_sys] by simp

theorem nuttx_cli_leaves_nothing_witness:
  "let w = world (snd (ul_ecat_app_execute nuttx_script_port Map.empty [''ecat'', ''eth0'', ''scan'']
      (idle_master (fresh_linux [Yes, Num 2, Yes, Yes])))) in
   k_open (kernel w) = [] \<and> k_running (kernel w) = 0"
  using nuttx_cli_leaves_nothing [of "idle_master (fresh_linux [Yes, Num 2, Yes, Yes])" Map.empty "[''ecat'', ''eth0'', ''scan'']"]
  by (simp add: fresh_linux_def Let_def)

end
