(* ===== verification/Zephyr.thy ===== *)
theory Zephyr
  imports Platform
begin

text \<open>
  The Zephyr platform: \<open>src/transport/transport_zephyr.c\<close>, \<open>transport_zephyr_netdev.c\<close> and
  \<open>src/osal/osal_zephyr.c\<close> over the kernel calls they make, and the two ports of the master built from
  them. The lock and condition wrappers are modelled in \<open>Threads\<close>.

  The absolute sleep polls the clock and goes on for as long as the clock stands still, so its loop is
  a partial function. Both ports are clean (\<open>clean_port\<close>) over every kernel that keeps the promise
  \<open>zephyr_kernel\<close>. The properties run on a kernel that tracks descriptors, packets, the worker and
  the clock and takes its other outcomes, and how late each sleep returns, from a script.
\<close>

section \<open>Kernel calls\<close>

record 'k zsys =
  net_if_get_by_name :: "string \<Rightarrow> 'k \<Rightarrow> int \<times> 'k"
  net_if_get_by_index :: "int \<Rightarrow> 'k \<Rightarrow> nat option \<times> 'k"
  zsock_socket :: "'k \<Rightarrow> int \<times> 'k"
  zsock_bind :: "int \<Rightarrow> int \<Rightarrow> 'k \<Rightarrow> int \<times> 'k"
  zsock_close :: "int \<Rightarrow> 'k \<Rightarrow> 'k"
  zsock_send :: "int \<Rightarrow> bytes \<Rightarrow> 'k \<Rightarrow> int \<times> 'k"
  zsock_recv :: "int \<Rightarrow> nat \<Rightarrow> bool \<Rightarrow> 'k \<Rightarrow> bytes option \<times> 'k"
  zsock_poll :: "int \<Rightarrow> int \<Rightarrow> 'k \<Rightarrow> int \<times> 'k"
  net_pkt_alloc_with_buffer :: "nat \<Rightarrow> nat \<Rightarrow> 'k \<Rightarrow> nat option \<times> 'k"
  net_pkt_write :: "nat \<Rightarrow> bytes \<Rightarrow> 'k \<Rightarrow> int \<times> 'k"
  net_pkt_unref :: "nat \<Rightarrow> 'k \<Rightarrow> 'k"
  net_if_queue_tx :: "nat \<Rightarrow> nat \<Rightarrow> 'k \<Rightarrow> 'k"
  uptime_ns :: "'k \<Rightarrow> u64 \<times> 'k"
  k_msleep :: "nat \<Rightarrow> 'k \<Rightarrow> 'k"
  k_usleep :: "nat \<Rightarrow> 'k \<Rightarrow> 'k"
  k_thread_create :: "'k \<Rightarrow> 'k"
  k_sem_take :: "'k \<Rightarrow> 'k"

section \<open>Packet socket transport\<close>

definition zephyr_transport_open :: "'k zsys \<Rightarrow> string option \<Rightarrow> 'k \<Rightarrow> int \<times> 'k" where
  "zephyr_transport_open sys ifname k =
     (case ifname of
        None \<Rightarrow> (-1, k)
      | Some name \<Rightarrow>
          let (ifindex, k1) = net_if_get_by_name sys name k in
          if ifindex < 0 then (-1, k1)
          else
            let (s, k2) = zsock_socket sys k1 in
            if s < 0 then (-1, k2)
            else
              let (r, k3) = zsock_bind sys s ifindex k2 in
              if r < 0 then (-1, zsock_close sys s k3) else (s, k3))"

definition zephyr_transport_close :: "'k zsys \<Rightarrow> int \<Rightarrow> 'k \<Rightarrow> 'k" where
  "zephyr_transport_close sys fd k = (if fd \<ge> 0 then zsock_close sys fd k else k)"

definition zephyr_transport_send :: "'k zsys \<Rightarrow> int \<Rightarrow> bytes \<Rightarrow> 'k \<Rightarrow> int \<times> 'k" where
  "zephyr_transport_send sys fd buf k = zsock_send sys fd buf k"

definition zephyr_transport_recv :: "'k zsys \<Rightarrow> int \<Rightarrow> nat \<Rightarrow> bool \<Rightarrow> 'k \<Rightarrow> bytes option \<times> 'k" where
  "zephyr_transport_recv sys fd cap dontwait k = zsock_recv sys fd cap dontwait k"

definition zephyr_transport_wait_readable :: "'k zsys \<Rightarrow> int \<Rightarrow> int \<Rightarrow> 'k \<Rightarrow> int \<times> 'k" where
  "zephyr_transport_wait_readable sys fd timeout_ms k =
     (let (ret, k1) = zsock_poll sys fd timeout_ms k in
      if ret < 0 then (-1, k1) else (if ret > 0 then 1 else 0, k1))"

section \<open>Network interface transport\<close>

text \<open>The interface \<open>g_netif\<close> that \<open>transport_zephyr_netdev.c\<close> sends through, beside the kernel.\<close>

type_synonym 'k netdev = "nat option \<times> 'k"

definition netdev_transport_open :: "'k zsys \<Rightarrow> string option \<Rightarrow> 'k netdev \<Rightarrow> int \<times> 'k netdev" where
  "netdev_transport_open sys ifname w =
     (let (g_netif, k) = w in
      case ifname of
        None \<Rightarrow> (-1, w)
      | Some name \<Rightarrow>
          let (ifindex, k1) = net_if_get_by_name sys name k in
          if ifindex < 0 then (-1, g_netif, k1)
          else
            (case net_if_get_by_index sys ifindex k1 of
               (None, k2) \<Rightarrow> (-1, None, k2)
             | (Some netif, k2) \<Rightarrow>
                 let (s, k3) = zsock_socket sys k2 in
                 if s < 0 then (-1, None, k3)
                 else
                   let (r, k4) = zsock_bind sys s ifindex k3 in
                   if r < 0 then (-1, None, zsock_close sys s k4) else (s, Some netif, k4)))"

definition netdev_transport_close :: "'k zsys \<Rightarrow> int \<Rightarrow> 'k netdev \<Rightarrow> 'k netdev" where
  "netdev_transport_close sys fd w = (None, if fd \<ge> 0 then zsock_close sys fd (snd w) else snd w)"

definition netdev_transport_send :: "'k zsys \<Rightarrow> int \<Rightarrow> bytes \<Rightarrow> 'k netdev \<Rightarrow> int \<times> 'k netdev" where
  "netdev_transport_send sys fd buf w =
     (case w of
        (None, k) \<Rightarrow> (-1, w)
      | (Some netif, k) \<Rightarrow>
          (case net_pkt_alloc_with_buffer sys netif (length buf) k of
             (None, k1) \<Rightarrow> (-1, Some netif, k1)
           | (Some pkt, k1) \<Rightarrow>
               let (r, k2) = net_pkt_write sys pkt buf k1 in
               if r \<noteq> 0 then (-1, Some netif, net_pkt_unref sys pkt k2)
               else (int (length buf), Some netif, net_if_queue_tx sys netif pkt k2)))"

definition netdev_transport_recv :: "'k zsys \<Rightarrow> int \<Rightarrow> nat \<Rightarrow> bool \<Rightarrow> 'k netdev \<Rightarrow> bytes option \<times> 'k netdev" where
  "netdev_transport_recv sys fd cap dontwait w =
     (let (r, k) = zsock_recv sys fd cap dontwait (snd w) in (r, fst w, k))"

definition netdev_transport_wait_readable :: "'k zsys \<Rightarrow> int \<Rightarrow> int \<Rightarrow> 'k netdev \<Rightarrow> int \<times> 'k netdev" where
  "netdev_transport_wait_readable sys fd timeout_ms w =
     (let (ret, k) = zsock_poll sys fd timeout_ms (snd w) in
      if ret < 0 then (-1, fst w, k) else (if ret > 0 then 1 else 0, fst w, k))"

section \<open>Sleeping until a deadline\<close>

text \<open>
  The loop of \<open>ul_ecat_osal_sleep_until_ns\<close>: the time still to wait when it falls to a millisecond
  or less, or \<^const>\<open>None\<close> when the deadline has passed. It goes on for as long as the clock stands.
\<close>

partial_function (option) zephyr_wait_loop ::
  "'k zsys \<Rightarrow> u64 \<Rightarrow> u64 \<Rightarrow> 'k \<Rightarrow> (u64 option \<times> 'k) option" where
  "zephyr_wait_loop sys abs_ns wait_ns k =
     (if wait_ns > 1000000 then
        let (now, k1) = uptime_ns sys (k_msleep sys 1 k) in
        if sint (abs_ns - now) \<le> 0 then Some (None, k1)
        else zephyr_wait_loop sys abs_ns (abs_ns - now) k1
      else Some (Some wait_ns, k))"

definition zephyr_sleep_until_ns :: "'k zsys \<Rightarrow> u64 \<Rightarrow> u64 \<Rightarrow> 'k \<Rightarrow> (u64 \<times> 'k) option" where
  "zephyr_sleep_until_ns sys abs_ns period_ns k =
     (let (now, k1) = uptime_ns sys k in
      map_option (\<lambda>k. (abs_ns + period_ns, k))
        (if sint (abs_ns - now) > 0 then
           Option.bind (zephyr_wait_loop sys abs_ns (abs_ns - now) k1) (\<lambda>(left, k2).
             case left of
               None \<Rightarrow> Some k2
             | Some wait_ns \<Rightarrow>
                 Some (if wait_ns > 0 then k_usleep sys (unat (ucast ((wait_ns + 999) div 1000) :: u32)) k2 else k2))
         else Some k1))"

section \<open>A Zephyr kernel\<close>

text \<open>
  A kernel with descriptors, packets and a clock, every free choice of which comes from a script:
  outcomes of calls as in \<open>script_kernel\<close>, and by how much a sleep overshoots. The one worker thread runs
  from its creation until the semaphore it gives at its end has been taken.
\<close>

record zkernel =
  z_open :: "int list"
  z_held :: "nat list"
  z_sent :: "bytes list"
  z_pkt :: bytes
  z_now :: nat
  z_late :: "nat list"
  z_script :: "outcome list"
  z_worker :: bool

definition z_next :: "zkernel \<Rightarrow> outcome \<times> zkernel" where
  "z_next k = (case z_script k of [] \<Rightarrow> (No, k) | x # xs \<Rightarrow> (x, k\<lparr>z_script := xs\<rparr>))"

definition z_sleep :: "nat \<Rightarrow> zkernel \<Rightarrow> zkernel" where
  "z_sleep ns k =
     (case z_late k of
        [] \<Rightarrow> k\<lparr>z_now := z_now k + ns\<rparr>
      | l # ls \<Rightarrow> k\<lparr>z_now := z_now k + ns + l, z_late := ls\<rparr>)"

definition script_zsys :: "zkernel zsys" where
  "script_zsys =
     \<lparr>net_if_get_by_name = \<lambda>_ k. (let (x, k1) = z_next k in (said x, k1)),
      net_if_get_by_index = \<lambda>i k. (let (x, k1) = z_next k in (if x = Yes then Some (nat i) else None, k1)),
      zsock_socket = \<lambda>k. (let (x, k1) = z_next k; s = fresh_fd (z_open k1) in
        if x = Yes then (s, k1\<lparr>z_open := s # z_open k1\<rparr>) else (-1, k1)),
      zsock_bind = \<lambda>_ _ k. (let (x, k1) = z_next k in (said x, k1)),
      zsock_close = \<lambda>fd k. k\<lparr>z_open := removeAll fd (z_open k)\<rparr>,
      zsock_send = \<lambda>_ _ k. (let (x, k1) = z_next k in (said x, k1)),
      zsock_recv = \<lambda>_ cap _ k. (let (x, k1) = z_next k in (case x of Rx b \<Rightarrow> Some (take cap b) | _ \<Rightarrow> None, k1)),
      zsock_poll = \<lambda>_ _ k. (let (x, k1) = z_next k in (said x, k1)),
      net_pkt_alloc_with_buffer = \<lambda>_ _ k. (let (x, k1) = z_next k; p = Suc (fold max (z_held k1) 0) in
        if x = Yes then (Some p, k1\<lparr>z_held := p # z_held k1, z_pkt := []\<rparr>) else (None, k1)),
      net_pkt_write = \<lambda>_ b k. (let (x, k1) = z_next k in (said x, if said x = 0 then k1\<lparr>z_pkt := b\<rparr> else k1)),
      net_pkt_unref = \<lambda>p k. k\<lparr>z_held := removeAll p (z_held k)\<rparr>,
      net_if_queue_tx = \<lambda>_ p k. k\<lparr>z_held := removeAll p (z_held k), z_sent := z_sent k @ [z_pkt k]\<rparr>,
      uptime_ns = \<lambda>k. (word_of_nat (z_now k), k),
      k_msleep = \<lambda>ms. z_sleep (ms * 1000000),
      k_usleep = \<lambda>us. z_sleep (us * 1000),
      k_thread_create = \<lambda>k. k\<lparr>z_worker := True\<rparr>,
      k_sem_take = \<lambda>k. k\<lparr>z_worker := False\<rparr>\<rparr>"

section \<open>Packets\<close>

lemma z_next_keeps: "z_next k = (x, k1) \<Longrightarrow>
    z_open k1 = z_open k \<and> z_held k1 = z_held k \<and> z_sent k1 = z_sent k \<and> z_pkt k1 = z_pkt k"
  by (auto simp: z_next_def split: list.splits)

lemma fresh_pkt: "Suc (fold max ps 0) \<notin> set (ps :: nat list)"
proof -
  have "\<forall>x \<in> set ps. x \<le> fold max ps a" "a \<le> fold max ps a" for a
    by (induction ps arbitrary: a) (auto, (metis max.cobounded1 max.cobounded2 order_trans)+)
  then show ?thesis by (metis Suc_n_not_le_n)
qed

text \<open>
  Whatever the kernel answers, a send through the network interface queues exactly
  the frame and returns its length, or returns a negative number with nothing queued; either way
  the packet it allocated is no longer held.
\<close>

theorem netdev_send_accounts:
  "let (r, n', k') = netdev_transport_send script_zsys fd buf (n, k) in
   n' = n \<and> z_open k' = z_open k \<and> z_held k' = z_held k \<and>
   (if r < 0 then z_sent k' = z_sent k else n \<noteq> None \<and> r = int (length buf) \<and> z_sent k' = z_sent k @ [buf])"
  using fresh_pkt
  by (auto simp: netdev_transport_send_def script_zsys_def Let_def
      split: option.split prod.split if_splits dest!: z_next_keeps)

section \<open>Deadlines\<close>

lemma sint_diff:
  assumes "a < 2 ^ 62" "b < 2 ^ 63"
  shows "sint (word_of_nat a - word_of_nat b :: u64) = int a - int b"
proof -
  have "sint (word_of_int i :: u64) = i" if "- (2 ^ 63) \<le> i" "i < 2 ^ 63" for i
    using that by (simp add: signed_of_int signed_take_bit_int_eq_self)
  from this [of "int a - int b"] show ?thesis using assms by simp
qed

lemma word_diff_nat: "b \<le> a \<Longrightarrow> (word_of_nat a - word_of_nat b :: u64) = word_of_nat (a - b)"
  by (simp add: of_nat_diff)

definition late_ok :: "zkernel \<Rightarrow> bool" where
  "late_ok k \<longleftrightarrow> (\<forall>l \<in> set (z_late k). l < 2 ^ 62)"

lemma z_sleep_sum:
  "late_ok k \<Longrightarrow> late_ok (z_sleep ns k) \<and> z_now k + ns \<le> z_now (z_sleep ns k) \<and> z_now (z_sleep ns k) < z_now k + ns + 2 ^ 62 \<and>
     (z_late k = [] \<longrightarrow> z_late (z_sleep ns k) = [] \<and> z_now (z_sleep ns k) = z_now k + ns)"
  by (auto simp: z_sleep_def late_ok_def split: list.split)

lemma script_clock [simp]: "uptime_ns script_zsys k = (word_of_nat (z_now k), k)"
  "k_msleep script_zsys ms k = z_sleep (ms * 1000000) k" "k_usleep script_zsys us k = z_sleep (us * 1000) k"
  by (simp_all add: script_zsys_def)

lemma wait_loop_ends:
  "late_ok k \<Longrightarrow> dl < 2 ^ 62 \<Longrightarrow> z_now k < dl \<Longrightarrow>
     \<exists>r k'. zephyr_wait_loop script_zsys (word_of_nat dl) (word_of_nat (dl - z_now k)) k = Some (r, k') \<and> late_ok k' \<and>
       (case r of None \<Rightarrow> dl \<le> z_now k' \<and> z_late k \<noteq> []
        | Some w \<Rightarrow> z_now k' < dl \<and> dl - z_now k' \<le> 1000000 \<and> w = word_of_nat (dl - z_now k') \<and>
            (z_late k = [] \<longrightarrow> z_late k' = []))"
proof (induction "dl - z_now k" arbitrary: k rule: less_induct)
  case less
  let ?k1 = "z_sleep 1000000 k"
  note s = z_sleep_sum [OF less.prems(1), of 1000000]
  have big: "(word_of_nat (dl - z_now k) :: u64) > 1000000 \<longleftrightarrow> dl - z_now k > 1000000"
    using less.prems(2) by (simp add: word_less_nat_alt unat_of_nat take_bit_nat_eq_self)
  show ?case
  proof (cases "dl - z_now k > 1000000")
    case False
    then show ?thesis
      using less.prems big by (subst zephyr_wait_loop.simps) auto
  next
    case True
    have d: "sint (word_of_nat dl - word_of_nat (z_now ?k1) :: u64) = int dl - int (z_now ?k1)"
      using s less.prems True by (intro sint_diff) auto
    show ?thesis
    proof (cases "dl \<le> z_now ?k1")
      case late: True
      then show ?thesis
        using True big s d by (subst zephyr_wait_loop.simps) auto
    next
      case False
      have "dl - z_now ?k1 < dl - z_now k" "z_now ?k1 < dl" "late_ok ?k1" using s False True by auto
      from less.hyps [OF this(1,3) less.prems(2) this(2)] obtain r k' where
        "zephyr_wait_loop script_zsys (word_of_nat dl) (word_of_nat (dl - z_now ?k1)) ?k1 = Some (r, k')" "late_ok k'"
        "case r of None \<Rightarrow> dl \<le> z_now k' \<and> z_late ?k1 \<noteq> []
          | Some w \<Rightarrow> z_now k' < dl \<and> dl - z_now k' \<le> 1000000 \<and> w = word_of_nat (dl - z_now k') \<and>
              (z_late ?k1 = [] \<longrightarrow> z_late k' = [])"
        by blast
      moreover have "zephyr_wait_loop script_zsys (word_of_nat dl) (word_of_nat (dl - z_now k)) k
          = zephyr_wait_loop script_zsys (word_of_nat dl) (word_of_nat (dl - z_now ?k1)) ?k1"
        using True False big d by (subst zephyr_wait_loop.simps) simp
      moreover have "z_late k = [] \<longrightarrow> z_late ?k1 = []" using s by blast
      ultimately show ?thesis by (cases r) auto
    qed
  qed
qed

lemma usleep_rounds_up:
  assumes "w = word_of_nat n" "n \<le> 1000000"
  shows "unat (ucast (((w :: u64) + 999) div 1000) :: u32) = (n + 999) div 1000"
proof -
  have "unat (w + 999) = n + 999"
    using assms by (simp add: unat_word_ariths unat_of_nat take_bit_nat_eq_self)
  then have "unat ((w + 999) div 1000) = (n + 999) div 1000" by (simp add: unat_div)
  then show ?thesis using assms(2) by (simp add: unsigned_ucast_eq take_bit_nat_eq_self)
qed

text \<open>
  Property C33. \<open>ul_ecat_osal_sleep_until_ns\<close> on Zephyr returns, however late each
  sleep wakes up (below \<open>2 ^ 62\<close> ns): the clock has reached the deadline, the next
  deadline is one period later, and when every sleep is exact it is overrun by less than a
  microsecond.
\<close>

theorem zephyr_deadline:
  assumes "dl < 2 ^ 62" "z_now k < 2 ^ 62" "late_ok k"
  shows "\<exists>k'. zephyr_sleep_until_ns script_zsys (word_of_nat dl) period k = Some (word_of_nat dl + period, k') \<and>
    dl \<le> z_now k' \<and> (z_late k = [] \<longrightarrow> z_now k' \<le> max (z_now k) (dl + 999))"
proof (cases "z_now k < dl")
  case False
  have "sint (word_of_nat dl - word_of_nat (z_now k) :: u64) = int dl - int (z_now k)"
    using assms by (intro sint_diff) auto
  then show ?thesis using False by (simp add: zephyr_sleep_until_ns_def)
next
  case True
  have d: "sint (word_of_nat dl - word_of_nat (z_now k) :: u64) = int dl - int (z_now k)"
    using assms by (intro sint_diff) auto
  obtain r k1 where w: "zephyr_wait_loop script_zsys (word_of_nat dl) (word_of_nat (dl - z_now k)) k = Some (r, k1)" "late_ok k1"
    "case r of None \<Rightarrow> dl \<le> z_now k1 \<and> z_late k \<noteq> []
      | Some w \<Rightarrow> z_now k1 < dl \<and> dl - z_now k1 \<le> 1000000 \<and> w = word_of_nat (dl - z_now k1) \<and> (z_late k = [] \<longrightarrow> z_late k1 = [])"
    using wait_loop_ends [OF assms(3,1) True] by blast
  show ?thesis
  proof (cases r)
    case None
    then show ?thesis using True d w by (auto simp: zephyr_sleep_until_ns_def)
  next
    case (Some wt)
    let ?n = "dl - z_now k1"
    have n: "?n \<le> 1000000" "0 < ?n" "wt = word_of_nat ?n" using w(3) Some by auto
    have "unat (word_of_nat ?n :: u64) = ?n"
      using n(1) by (simp only: unat_of_nat) (simp add: take_bit_nat_eq_self)
    then have "wt > 0" using n(2) unfolding n(3) word_less_nat_alt by (simp only: unat_0)
    moreover have us: "unat (ucast ((wt + 999) div 1000) :: u32) = (?n + 999) div 1000"
      by (rule usleep_rounds_up [OF n(3,1)])
    ultimately have r: "zephyr_sleep_until_ns script_zsys (word_of_nat dl) period k
        = Some (word_of_nat dl + period, z_sleep ((?n + 999) div 1000 * 1000) k1)"
      using True d w(1) Some by (simp add: zephyr_sleep_until_ns_def us)
    obtain q where q: "q = (?n + 999) div 1000 * 1000" by simp
    have "?n \<le> q" "q < ?n + 1000" unfolding q by linarith+
    moreover have "z_now k1 < dl" "z_late k = [] \<longrightarrow> z_late k1 = []" using w(3) Some by auto
    ultimately have "dl \<le> z_now (z_sleep q k1)" "z_late k = [] \<longrightarrow> z_now (z_sleep q k1) \<le> dl + 999"
      using z_sleep_sum [OF w(2), of q] by auto
    then show ?thesis using r unfolding q by (auto simp: le_max_iff_disj)
  qed
qed

section \<open>Witnesses\<close>

definition demo_zkernel :: zkernel where
  "demo_zkernel = \<lparr>z_open = [], z_held = [], z_sent = [], z_pkt = [], z_now = 500, z_late = [3], z_script = [], z_worker = False\<rparr>"

lemma demo_zkernel_ok: "late_ok demo_zkernel" "z_now demo_zkernel = 500"
  by (simp_all add: demo_zkernel_def late_ok_def)

theorem zephyr_deadline_witness:
  "\<exists>k'. zephyr_sleep_until_ns script_zsys (word_of_nat 2500) 1000 demo_zkernel = Some (word_of_nat 2500 + 1000, k') \<and>
    2500 \<le> z_now k'"
proof -
  have "(2500 :: nat) < 2 ^ 62" "z_now demo_zkernel < 2 ^ 62" by (simp_all add: demo_zkernel_ok)
  from zephyr_deadline [OF this demo_zkernel_ok(1), of 1000] show ?thesis by blast
qed

section \<open>The master's port on Zephyr\<close>

text \<open>
  The OSAL of \<open>osal_zephyr.c\<close>. Starting the worker always succeeds; joining it takes the semaphore that
  \<open>worker_shim\<close> gives when the thread function has returned.
\<close>

definition zephyr_monotonic_ns :: "'k zsys \<Rightarrow> 'k \<Rightarrow> u64 \<times> 'k" where
  "zephyr_monotonic_ns sys k = uptime_ns sys k"

definition zephyr_sleep_us :: "'k zsys \<Rightarrow> nat \<Rightarrow> 'k \<Rightarrow> 'k" where
  "zephyr_sleep_us sys usec k = k_usleep sys usec k"

definition zephyr_realtime_hint :: "int \<Rightarrow> 'k \<Rightarrow> 'k" where
  "zephyr_realtime_hint prio k = k"

definition zephyr_worker_start :: "'k zsys \<Rightarrow> int \<Rightarrow> 'k \<Rightarrow> int \<times> 'k" where
  "zephyr_worker_start sys prio k = (0, k_thread_create sys k)"

definition zephyr_worker_join :: "'k zsys \<Rightarrow> 'k \<Rightarrow> 'k" where
  "zephyr_worker_join sys k = k_sem_take sys k"

definition zephyr_port :: "'k zsys \<Rightarrow> (nat \<Rightarrow> 'k \<Rightarrow> bytes) \<Rightarrow> 'k port" where
  "zephyr_port sys stk =
     \<lparr>transport_open = \<lambda>name. zephyr_transport_open sys (Some name),
      transport_close = zephyr_transport_close sys,
      transport_send = zephyr_transport_send sys,
      transport_recv = zephyr_transport_recv sys,
      transport_wait_readable = zephyr_transport_wait_readable sys,
      osal_monotonic_ns = zephyr_monotonic_ns sys,
      osal_sleep_us = zephyr_sleep_us sys,
      osal_init = \<lambda>k. k,
      osal_shutdown = \<lambda>k. k,
      osal_realtime_hint = zephyr_realtime_hint,
      osal_worker_start = zephyr_worker_start sys,
      osal_worker_join = zephyr_worker_join sys,
      stack_bytes = stk\<rparr>"

text \<open>The same with the transport through the network interface.\<close>

definition on_snd :: "('k \<Rightarrow> 'a \<times> 'k) \<Rightarrow> 'n \<times> 'k \<Rightarrow> 'a \<times> 'n \<times> 'k" where
  "on_snd f w = (let (r, k) = f (snd w) in (r, fst w, k))"

definition netdev_port :: "'k zsys \<Rightarrow> (nat \<Rightarrow> 'k netdev \<Rightarrow> bytes) \<Rightarrow> 'k netdev port" where
  "netdev_port sys stk =
     \<lparr>transport_open = \<lambda>name. netdev_transport_open sys (Some name),
      transport_close = netdev_transport_close sys,
      transport_send = netdev_transport_send sys,
      transport_recv = netdev_transport_recv sys,
      transport_wait_readable = netdev_transport_wait_readable sys,
      osal_monotonic_ns = on_snd (zephyr_monotonic_ns sys),
      osal_sleep_us = \<lambda>us. map_prod id (zephyr_sleep_us sys us),
      osal_init = \<lambda>w. w,
      osal_shutdown = \<lambda>w. w,
      osal_realtime_hint = \<lambda>p. map_prod id (zephyr_realtime_hint p),
      osal_worker_start = \<lambda>p. on_snd (zephyr_worker_start sys p),
      osal_worker_join = map_prod id (zephyr_worker_join sys),
      stack_bytes = stk\<rparr>"

section \<open>What the Zephyr kernel promises\<close>

definition zephyr_held :: "('k \<Rightarrow> int set) \<Rightarrow> ('k \<Rightarrow> bool) \<Rightarrow> 'k \<Rightarrow> holdings" where
  "zephyr_held fds worker k = \<lparr>open_fds = fds k, running = (if worker k then 1 else 0), may_start = \<not> worker k\<rparr>"

locale zephyr_kernel =
  fixes sys :: "'k zsys"
    and fds :: "'k \<Rightarrow> int set"
    and worker :: "'k \<Rightarrow> bool"
    and stk :: "nat \<Rightarrow> 'k \<Rightarrow> bytes"
    and nstk :: "nat \<Rightarrow> 'k netdev \<Rightarrow> bytes"
  assumes zsocket_new: "zsock_socket sys k = (s, k1) \<Longrightarrow> worker k1 = worker k \<and>
      (if s < 0 then fds k1 = fds k else s \<notin> fds k \<and> fds k1 = insert s (fds k))"
    and zclose_gone [simp]: "fds (zsock_close sys s k) = fds k - {s}" "worker (zsock_close sys s k) = worker k"
    and create_runs [simp]: "worker (k_thread_create sys k)" "fds (k_thread_create sys k) = fds k"
    and take_ends [simp]: "worker k \<Longrightarrow> \<not> worker (k_sem_take sys k)" "fds (k_sem_take sys k) = fds k"
    and keeps_fds [simp]: "fds (snd (net_if_get_by_name sys name k)) = fds k" "fds (snd (net_if_get_by_index sys i k)) = fds k"
      "fds (snd (zsock_bind sys s i k)) = fds k" "fds (snd (zsock_send sys s buf k)) = fds k"
      "fds (snd (zsock_recv sys s cap dw k)) = fds k" "fds (snd (zsock_poll sys s t k)) = fds k"
      "fds (snd (net_pkt_alloc_with_buffer sys n len k)) = fds k" "fds (snd (net_pkt_write sys pkt buf k)) = fds k"
      "fds (net_pkt_unref sys pkt k) = fds k" "fds (net_if_queue_tx sys n pkt k) = fds k" "fds (k_usleep sys us k) = fds k"
    and keeps_worker [simp]: "worker (snd (net_if_get_by_name sys name k)) = worker k" "worker (snd (net_if_get_by_index sys i k)) = worker k"
      "worker (snd (zsock_bind sys s i k)) = worker k" "worker (snd (zsock_send sys s buf k)) = worker k"
      "worker (snd (zsock_recv sys s cap dw k)) = worker k" "worker (snd (zsock_poll sys s t k)) = worker k"
      "worker (snd (net_pkt_alloc_with_buffer sys n len k)) = worker k" "worker (snd (net_pkt_write sys pkt buf k)) = worker k"
      "worker (net_pkt_unref sys pkt k) = worker k" "worker (net_if_queue_tx sys n pkt k) = worker k" "worker (k_usleep sys us k) = worker k"
begin

lemma keeps_eq:
  "net_if_get_by_name sys name k = (i, k1) \<Longrightarrow> fds k1 = fds k \<and> worker k1 = worker k"
  "net_if_get_by_index sys j k = (n, k1) \<Longrightarrow> fds k1 = fds k \<and> worker k1 = worker k"
  "zsock_bind sys s j k = (r, k1) \<Longrightarrow> fds k1 = fds k \<and> worker k1 = worker k"
  "net_pkt_alloc_with_buffer sys nif len k = (p, k1) \<Longrightarrow> fds k1 = fds k \<and> worker k1 = worker k"
  "net_pkt_write sys pkt buf k = (r, k1) \<Longrightarrow> fds k1 = fds k \<and> worker k1 = worker k"
  using keeps_fds keeps_worker by (metis snd_conv)+

lemma zopen_held:
  assumes "zephyr_transport_open sys (Some name) k = (s, k')"
  shows "worker k' = worker k \<and> (if s < 0 then fds k' = fds k else s \<notin> fds k \<and> fds k' = insert s (fds k))"
proof -
  obtain i k1 where 1: "net_if_get_by_name sys name k = (i, k1)" by fastforce
  obtain s1 k2 where 2: "zsock_socket sys k1 = (s1, k2)" by fastforce
  obtain r k3 where 3: "zsock_bind sys s1 i k2 = (r, k3)" by fastforce
  show ?thesis
    using assms 1 2 3 zsocket_new [OF 2] keeps_eq(1) [OF 1] keeps_eq(3) [OF 3]
    by (auto simp: zephyr_transport_open_def split: if_splits)
qed

lemma nopen_held:
  assumes "netdev_transport_open sys (Some name) (n, k) = (s, n', k')"
  shows "worker k' = worker k \<and> (if s < 0 then fds k' = fds k else s \<notin> fds k \<and> fds k' = insert s (fds k))"
proof -
  obtain i k1 where 1: "net_if_get_by_name sys name k = (i, k1)" by fastforce
  obtain nif k2 where 2: "net_if_get_by_index sys i k1 = (nif, k2)" by fastforce
  obtain s1 k3 where 3: "zsock_socket sys k2 = (s1, k3)" by fastforce
  obtain r k4 where 4: "zsock_bind sys s1 i k3 = (r, k4)" by fastforce
  show ?thesis
    using assms 1 2 3 4 zsocket_new [OF 3] keeps_eq(1) [OF 1] keeps_eq(2) [OF 2] keeps_eq(3) [OF 4]
    by (auto simp: netdev_transport_open_def split: if_splits option.splits)
qed

lemma nsend_held: "fds (snd (snd (netdev_transport_send sys fd buf w))) = fds (snd w) \<and>
    worker (snd (snd (netdev_transport_send sys fd buf w))) = worker (snd w)"
  by (auto simp: netdev_transport_send_def Let_def split: option.split prod.split dest!: keeps_eq)

end

sublocale zephyr_kernel \<subseteq> zephyr: clean_port "zephyr_port sys stk" "zephyr_held fds worker"
proof
  fix name t s t'
  assume "transport_open (zephyr_port sys stk) name t = (s, t')"
  then show "if s < 0 then zephyr_held fds worker t' = zephyr_held fds worker t
      else s \<notin> open_fds (zephyr_held fds worker t) \<and>
        zephyr_held fds worker t' = (zephyr_held fds worker t)\<lparr>open_fds := insert s (open_fds (zephyr_held fds worker t))\<rparr>"
    using zopen_held [of name t s t'] by (simp add: zephyr_port_def zephyr_held_def split: if_splits)
qed (auto simp: zephyr_port_def zephyr_held_def zephyr_transport_close_def zephyr_worker_start_def zephyr_worker_join_def
    zephyr_transport_send_def zephyr_transport_recv_def zephyr_transport_wait_readable_def zephyr_sleep_us_def
    zephyr_realtime_hint_def split_beta Let_def)

sublocale zephyr_kernel \<subseteq> netdev: clean_port "netdev_port sys nstk" "\<lambda>w. zephyr_held fds worker (snd w)"
proof
  fix name t s t'
  assume "transport_open (netdev_port sys nstk) name t = (s, t')"
  then show "if s < 0 then zephyr_held fds worker (snd t') = zephyr_held fds worker (snd t)
      else s \<notin> open_fds (zephyr_held fds worker (snd t)) \<and> zephyr_held fds worker (snd t')
        = (zephyr_held fds worker (snd t))\<lparr>open_fds := insert s (open_fds (zephyr_held fds worker (snd t)))\<rparr>"
    using nopen_held [of name "fst t" "snd t" s "fst t'" "snd t'"] by (simp add: netdev_port_def zephyr_held_def split: if_splits)
qed (auto simp: netdev_port_def zephyr_held_def netdev_transport_close_def zephyr_worker_start_def zephyr_worker_join_def on_snd_def
    nsend_held netdev_transport_recv_def netdev_transport_wait_readable_def zephyr_sleep_us_def
    zephyr_realtime_hint_def split_beta Let_def)

section \<open>The scripted kernel keeps its promise\<close>

lemma z_next_worker: "z_next k = (x, k1) \<Longrightarrow> z_open k1 = z_open k \<and> z_worker k1 = z_worker k"
  by (auto simp: z_next_def split: list.splits)

lemma z_next_worker' [simp]: "z_open (snd (z_next k)) = z_open k" "z_worker (snd (z_next k)) = z_worker k"
  using z_next_worker [of k] by (metis surj_pair snd_conv)+

lemma z_sleep_worker [simp]: "z_open (z_sleep ns k) = z_open k" "z_worker (z_sleep ns k) = z_worker k"
  by (simp_all add: z_sleep_def split: list.split)

interpretation zscript: zephyr_kernel script_zsys "\<lambda>k. set (z_open k)" z_worker "\<lambda>n _. replicate n 0xCC" "\<lambda>n _. replicate n 0xCC"
proof
  show "zsock_socket script_zsys k = (s, k1) \<Longrightarrow> z_worker k1 = z_worker k \<and>
      (if s < 0 then set (z_open k1) = set (z_open k) else s \<notin> set (z_open k) \<and> set (z_open k1) = insert s (set (z_open k)))" for k s k1
    using fresh_fd [of "z_open k"]
    by (auto simp: script_zsys_def Let_def z_next_worker split: prod.splits if_splits)
qed (simp_all add: script_zsys_def Let_def split_beta)

text \<open>
  On Zephyr, through either transport, whatever the kernel answers and whatever
  command line is given: when \<open>ul_ecat_app_execute\<close> returns the process holds the
  descriptors it held before and the worker thread has ended.
\<close>

theorem zephyr_cli_leaves_nothing:
  assumes "\<not> z_worker (world m)" "\<not> z_worker (snd (world n))"
  shows "let k = world (snd (ul_ecat_app_execute (zephyr_port script_zsys (\<lambda>n _. replicate n 0xCC)) fs argv m));
      k' = snd (world (snd (ul_ecat_app_execute (netdev_port script_zsys (\<lambda>n _. replicate n 0xCC)) fs argv n))) in
    set (z_open k) = set (z_open (world m)) \<and> \<not> z_worker k \<and>
    set (z_open k') = set (z_open (snd (world n))) \<and> \<not> z_worker k'"
  using zscript.zephyr.app_holds_nothing [of m fs argv] zscript.netdev.app_holds_nothing [of n fs argv] assms
  by (simp add: zephyr_held_def Let_def split: if_splits)

text \<open>The outcomes of a start-up on Zephyr that succeeds, through either transport.\<close>

theorem zephyr_cli_leaves_nothing_witness:
  "let k = demo_zkernel\<lparr>z_script := [Num 2, Yes, Yes]\<rparr>;
      k' = demo_zkernel\<lparr>z_script := [Num 2, Yes, Yes, Yes]\<rparr>;
      argv = [''ecat'', ''eth0'', ''scan''] in
    z_open (world (snd (ul_ecat_app_execute (zephyr_port script_zsys (\<lambda>n _. replicate n 0xCC)) Map.empty argv (idle_master k)))) = [] \<and>
    z_open (snd (world (snd (ul_ecat_app_execute (netdev_port script_zsys (\<lambda>n _. replicate n 0xCC)) Map.empty argv
      (idle_master (None, k')))))) = []"
  using zephyr_cli_leaves_nothing [of "idle_master (demo_zkernel\<lparr>z_script := [Num 2, Yes, Yes]\<rparr>)"
      "idle_master (None, demo_zkernel\<lparr>z_script := [Num 2, Yes, Yes, Yes]\<rparr>)" Map.empty "[''ecat'', ''eth0'', ''scan'']"]
  by (simp add: demo_zkernel_def Let_def)

end
