(* ===== verification/Samples.thy ===== *)
theory Samples
  imports Lan9252Chip Commissioning Nuttx Zephyr
begin

text \<open>
  The sample applications. \<open>samples/*/ul_ecat_servo\<close>: a slave on a LAN9252 whose actual values follow
  its targets, from start-up through the endless loop; its process data cycle is proved in
  \<open>lan9252_device\<close> and holds on both ports over the chip of \<open>Lan9252Chip\<close>, whatever the world does to
  the chip while the application sleeps. \<open>samples/*/ul_ecat_scan\<close>: one scan with the master.
  Console output other than the slaves found is left out; the interface name of a build is its default.
\<close>

section \<open>The servo: identity and process data\<close>

abbreviation UL_ECAT_SERVO_RXPDO_OFF :: u16 where "UL_ECAT_SERVO_RXPDO_OFF \<equiv> 0x1000"
abbreviation UL_ECAT_SERVO_TXPDO_OFF :: u16 where "UL_ECAT_SERVO_TXPDO_OFF \<equiv> 0x1100"
abbreviation UL_ECAT_SERVO_PDO_BYTES :: nat where "UL_ECAT_SERVO_PDO_BYTES \<equiv> 12"

definition ul_ecat_servo_sample_identity :: slave_identity where
  "ul_ecat_servo_sample_identity =
     \<lparr>vendor_id = 0xEC407001, product_code = 0x53565230, revision = 0x00010000, serial = 0x00000001\<rparr>"

record servo_rxpdo =
  target_position :: u32
  target_velocity :: u32
  target_torque :: u32

record servo_txpdo =
  actual_position :: u32
  actual_velocity :: u32
  actual_torque :: u32

text \<open>The structures as the bytes they lie over.\<close>

definition rxpdo_at :: "bytes \<Rightarrow> servo_rxpdo" where
  "rxpdo_at b =
     \<lparr>target_position = of_le32 (b ! 0) (b ! 1) (b ! 2) (b ! 3),
      target_velocity = of_le32 (b ! 4) (b ! 5) (b ! 6) (b ! 7),
      target_torque = of_le32 (b ! 8) (b ! 9) (b ! 10) (b ! 11)\<rparr>"

definition txpdo_bytes :: "servo_txpdo \<Rightarrow> bytes" where
  "txpdo_bytes t = le32 (actual_position t) @ le32 (actual_velocity t) @ le32 (actual_torque t)"

definition servo_follow :: "servo_rxpdo \<Rightarrow> servo_txpdo" where
  "servo_follow rx =
     \<lparr>actual_position = target_position rx, actual_velocity = target_velocity rx, actual_torque = target_torque rx\<rparr>"

definition servo_pdram :: pdram_cfg where
  "servo_pdram =
     \<lparr>in_offset = UL_ECAT_SERVO_RXPDO_OFF, in_len = 12, in_buf = Some (replicate UL_ECAT_SERVO_PDO_BYTES 0),
      out_offset = UL_ECAT_SERVO_TXPDO_OFF, out_len = 12, out_buf = Some (replicate UL_ECAT_SERVO_PDO_BYTES 0)\<rparr>"

definition servo_mac :: bytes where
  "servo_mac = [0x02, 0xEC, 0x40, 0x70, 0x00, 0x01]"

section \<open>The servo: main loop\<close>

text \<open>
  One pass: poll, copy the targets to the actual values, sleep. \<open>pause\<close> is the sleep of a number of
  microseconds and whatever the world does to the hardware meanwhile.
\<close>

type_synonym 'h servo = "unit controller \<times> 'h"

definition servo_pass :: "'h spi_hal \<Rightarrow> (nat \<Rightarrow> 'h \<Rightarrow> 'h) \<Rightarrow> 'h servo \<Rightarrow> 'h servo" where
  "servo_pass hal pause s =
     (let (_, c, h) = ul_ecat_slave_controller_poll hal s;
          rx = rxpdo_at (the (in_buf (pdram c)));
          tx = txpdo_bytes (servo_follow rx) in
      (c\<lparr>pdram := (pdram c)\<lparr>out_buf := Some tx\<rparr>\<rparr>, pause 1000 h))"

definition servo_state :: "coe \<Rightarrow> unit controller" where
  "servo_state coe0 =
     ul_ecat_slave_controller_set_pdram
       (ul_ecat_slave_controller_init coe0 () LAN9252_SPI servo_mac ul_ecat_servo_sample_identity) (Some servo_pdram)"

text \<open>The board hook without a definition by the board.\<close>

definition board_ul_ecat_lan9252_spi0 :: "'d option" where
  "board_ul_ecat_lan9252_spi0 = None"

text \<open>\<open>main\<close> up to its endless loop: the exit code, or the controller that the loop starts with.\<close>

definition nuttx_servo_main :: "'d option \<Rightarrow> coe \<Rightarrow> 'd nuttx_hal \<Rightarrow> (int + unit controller) \<times> 'd nuttx_hal" where
  "nuttx_servo_main spi coe0 h =
     (if spi = None then (Inl 1, h)
      else
        let (r, h1) = lan9252_hal_nuttx_init spi 0 h in
        if r \<noteq> 0 then (Inl 1, h1)
        else
          case lan9252_init h1 of
            (Inl _, h2) \<Rightarrow> (Inl 1, h2)
          | (Inr _, h2) \<Rightarrow> (Inr (servo_state coe0), h2))"

definition zephyr_servo_main ::
  "(nat \<Rightarrow> 'd zephyr_hal \<Rightarrow> 'd zephyr_hal) \<Rightarrow> coe \<Rightarrow> 'd zephyr_hal \<Rightarrow> (int + unit controller) \<times> 'd zephyr_hal" where
  "zephyr_servo_main pause coe0 h =
     (case lan9252_init (pause 10000 h) of
        (Inl _, h1) \<Rightarrow> (Inl 0, h1)
      | (Inr _, h1) \<Rightarrow> (Inr (servo_state coe0), h1))"

lemma list12: "length b = 12 \<Longrightarrow> b = [b ! 0, b ! 1, b ! 2, b ! 3] @ [b ! 4, b ! 5, b ! 6, b ! 7] @ [b ! 8, b ! 9, b ! 10, b ! 11]"
  by (rule nth_equalityI) (auto simp: less_Suc_eq numeral_eq_Suc)

text \<open>The servo does what it is told: its actual values are the bytes of its targets.\<close>

lemma servo_follows: "length b = 12 \<Longrightarrow> txpdo_bytes (servo_follow (rxpdo_at b)) = b"
  using list12 [of b] by (simp add: txpdo_bytes_def servo_follow_def rxpdo_at_def le32_of_le32)

lemma servo_state_sel: "c_backend (servo_state coe0) = LAN9252_SPI" "pdram (servo_state coe0) = servo_pdram"
  by (simp_all add: servo_state_def ul_ecat_slave_controller_set_pdram_def ul_ecat_slave_controller_init_def Let_def)

context lan9252_device begin

text \<open>Between two passes the buffers are in place and the output is what was told last.\<close>

definition servo_ready :: "'h servo \<Rightarrow> bytes \<Rightarrow> bool" where
  "servo_ready s told \<longleftrightarrow> good (snd s) \<and> c_backend (fst s) = LAN9252_SPI \<and> length told = 12 \<and>
     (\<exists>b. pdram (fst s) = servo_pdram\<lparr>in_buf := Some b, out_buf := Some told\<rparr>)"

lemma servo_data_ok: "servo_ready s told \<Longrightarrow> pdram_ok (pdram (fst s))"
  by (auto simp: servo_ready_def pdram_ok_def servo_pdram_def in_ram_def)

lemma servo_step:
  assumes "servo_ready s told" "\<And>us h. good h \<Longrightarrow> good (pause us h)"
  shows "\<exists>c h. ul_ecat_slave_controller_poll hal s = (Inr (), c, h) \<and> mem_of h = mem_write (mem_of (snd s)) 0x1100 told \<and>
    servo_ready (servo_pass hal pause s) (mem_read (mem_of (snd s)) 0x1000 12)"
proof -
  obtain c0 h0 where s: "s = (c0, h0)" by fastforce
  note r = assms(1) [unfolded servo_ready_def s]
  obtain c h where p: "ul_ecat_slave_controller_poll hal (c0, h0) = (Inr (), c, h)" "good h" "c_backend c = LAN9252_SPI"
    "pdram c = (pdram c0)\<lparr>in_buf := Some (mem_read (mem_of h0) 0x1000 12)\<rparr>" "mem_of h = mem_write (mem_of h0) 0x1100 told"
    using poll_data [of h0 c0] servo_data_ok [OF assms(1)] r by (auto simp: s servo_pdram_def)
  have "servo_ready (servo_pass hal pause s) (mem_read (mem_of h0) 0x1000 12)"
    using p r assms(2) by (auto simp: s servo_ready_def servo_pass_def Let_def servo_follows)
  then show ?thesis using p s by auto
qed

lemma servo_runs:
  assumes "servo_ready s told" "\<And>us h. good h \<Longrightarrow> good (pause us h)"
  shows "\<exists>now. servo_ready ((servo_pass hal pause ^^ n) s) now \<and>
    now = (if n = 0 then told else mem_read (mem_of (snd ((servo_pass hal pause ^^ (n - 1)) s))) 0x1000 12)"
proof (induction n)
  case (Suc n)
  then obtain now where "servo_ready ((servo_pass hal pause ^^ n) s) now" by blast
  from servo_step [where pause = pause, OF this assms(2)] show ?case by auto
qed (use assms(1) in simp)

lemma servo_shows:
  fixes coe0 :: coe and h :: 'h and pause :: "nat \<Rightarrow> 'h \<Rightarrow> 'h"
  assumes "good h" "\<And>us h. good h \<Longrightarrow> good (pause us h)"
  defines "s \<equiv> \<lambda>n. (servo_pass hal pause ^^ n) (servo_state coe0, h)"
  shows "\<exists>c h'. ul_ecat_slave_controller_poll hal (s n) = (Inr (), c, h') \<and>
    mem_read (mem_of h') 0x1100 12 = (if n = 0 then replicate 12 0 else mem_read (mem_of (snd (s (n - 1)))) 0x1000 12)"
proof -
  have "servo_ready (servo_state coe0, h) (replicate 12 0)"
    using assms(1) by (auto simp: servo_ready_def servo_state_sel servo_pdram_def)
  from servo_runs [where pause = pause and n = n, OF this assms(2)] obtain now where now: "servo_ready (s n) now"
    "now = (if n = 0 then replicate 12 0 else mem_read (mem_of (snd (s (n - 1)))) 0x1000 12)"
    unfolding s_def by blast
  have l: "length now = 12" using now(1) by (simp add: servo_ready_def)
  obtain c h' where "ul_ecat_slave_controller_poll hal (s n) = (Inr (), c, h')" "mem_of h' = mem_write (mem_of (snd (s n))) 0x1100 now"
    using servo_step [where pause = pause, OF now(1) assms(2)] by blast
  then show ?thesis using mem_write_same [of "mem_of (snd (s n))" "0x1100" now] l now(2) by auto
qed

end


text \<open>
  The same holds of the Zephyr servo, started on a port set up by
  \<open>ul_ecat_lan9252_hal_init\<close>, with a chip-select line described as active-high.
\<close>

theorem zephyr_servo_tracks_targets:
  assumes "\<And>us h. g_hal_ready h \<and> g_spi_mtx h = 0 \<and> at_rest (zdev h) \<Longrightarrow>
      g_hal_ready (pause us h) \<and> g_spi_mtx (pause us h) = 0 \<and> at_rest (zdev (pause us h))"
    and "at_rest (zdev h0)"
  shows "\<exists>c0 h. zephyr_servo_main pause coe0 (snd (ul_ecat_lan9252_hal_init (chip_zephyr False) h0)) = (Inr c0, h) \<and>
    (\<forall>n. let run = (\<lambda>n. (servo_pass (zephyr_spi_hal (chip_zephyr False)) pause ^^ n) (c0, h)) in
      \<exists>c h'. ul_ecat_slave_controller_poll (zephyr_spi_hal (chip_zephyr False)) (run (Suc n)) = (Inr (), c, h') \<and>
        mem_read (dev_mem (zdev h')) 0x1100 12 = mem_read (dev_mem (zdev (snd (run n)))) 0x1000 12)"
proof -
  define h1 where "h1 = snd (ul_ecat_lan9252_hal_init (chip_zephyr False) h0)"
  have "g_hal_ready h1" "g_spi_mtx h1 = 0" "at_rest (zdev h1)"
    using assms(2) by (cases "zdev h0"; simp add: h1_def ul_ecat_lan9252_hal_init_def chip_zephyr_def drive_cs_def
        device_hal_def at_rest_def Let_def)+
  then have g: "(g_hal_ready (pause 10000 h1) \<and> g_spi_mtx (pause 10000 h1) = 0) \<and> at_rest (zdev (pause 10000 h1))"
    using assms(1) [of h1 10000] by simp
  have m: "zephyr_servo_main pause coe0 h1 = (Inr (servo_state coe0), pause 10000 h1)"
    by (simp add: zephyr_servo_main_def lan9252_init_def)
  show ?thesis
    using zdev.servo_shows [where pause = pause and ?coe0.0 = coe0 and n = "Suc _", OF g] assms(1) m
    by (auto simp: Let_def simp flip: h1_def)
qed

section \<open>The scan samples\<close>

definition scan_settings :: "string \<Rightarrow> master_settings" where
  "scan_settings iface =
     \<lparr>iface_name = iface, cfg_dst_mac = replicate 6 0xFF, cfg_src_mac = [2, 0, 0, 0, 0, 1],
      rt_priority = 0, dc_enable = False\<rparr>"

text \<open>The exit code, and the slaves printed when the master could be started.\<close>

definition scan_sample :: "'t port \<Rightarrow> int \<Rightarrow> string \<Rightarrow> 't master \<Rightarrow> (int \<times> mslave list option) \<times> 't master" where
  "scan_sample port failed iface m =
     (let (ok, m1) = ul_ecat_master_init port (Some (scan_settings iface)) m in
      if \<not> ok then ((failed, None), m1)
      else
        let m2 = ul_ecat_scan_network port m1;
            db = g_slaves_db m2 in
        ((0, Some db), snd (ul_ecat_master_shutdown port m2)))"

definition nuttx_scan_main :: "'t port \<Rightarrow> string list \<Rightarrow> 't master \<Rightarrow> (int \<times> mslave list option) \<times> 't master" where
  "nuttx_scan_main port argv m = scan_sample port 1 (if length argv > 1 then argv ! 1 else ''eth0'') m"

definition zephyr_scan_main :: "'t port \<Rightarrow> 't master \<Rightarrow> (int \<times> mslave list option) \<times> 't master" where
  "zephyr_scan_main port m = scan_sample port 0 ''eth0'' m"

lemma scan_init_slave:
  assumes "world m = (ul_ecat_slave_init mc ident, [])" "length mc = 6"
  obtains m1 where "ul_ecat_master_init slave_port (Some (scan_settings i)) m = (True, m1)" "0 \<le> g_sockfd m1"
    "world m1 = (ul_ecat_slave_init mc ident, [])" "length (g_dst_mac m1) = 6" "length (g_src_mac m1) = 6"
  using assms that [of "snd (ul_ecat_master_init slave_port (Some (scan_settings i)) m)"]
  by (auto simp: ul_ecat_master_init_def on_world_def slave_port_def peer_port_def scan_settings_def Let_def)

lemma scan_sample_finds:
  assumes "world m = (ul_ecat_slave_init mc ident, [])" "length mc = 6"
  shows "fst (scan_sample slave_port failed i m) = (0, Some [found ident])"
proof -
  obtain m1 where 1: "ul_ecat_master_init slave_port (Some (scan_settings i)) m = (True, m1)"
    "world m1 = (ul_ecat_slave_init mc ident, [])" "length (g_dst_mac m1) = 6" "length (g_src_mac m1) = 6"
    by (rule scan_init_slave [OF assms])
  obtain s where "ul_ecat_scan_network slave_port m1 = m1\<lparr>g_slaves_db := [found ident], world := (s, [])\<rparr>"
    by (rule scan_fresh_slave [OF 1(2) assms(2) 1(3,4)])
  then show ?thesis using 1(1) by (simp add: scan_sample_def Let_def)
qed

context clean_port begin

lemma scan_sample_clean:
  assumes "may_start (held (world m))"
  shows "held (world (snd (scan_sample port failed i m))) = held (world m)"
proof -
  obtain ok m1 where 1: "ul_ecat_master_init port (Some (scan_settings i)) m = (ok, m1)" by fastforce
  note t = init_takes [OF assms 1]
  show ?thesis
  proof (cases ok)
    case True
    note t = t [simplified True if_True]
    have "quiet m1 (ul_ecat_scan_network port m1)" by (rule quiet_snd)
    then have "held (world (snd (ul_ecat_master_shutdown port (ul_ecat_scan_network port m1)))) = held (world m)"
      using shutdown_gives [of "ul_ecat_scan_network port m1"] t assms by (simp add: quiet_def)
    then show ?thesis using True 1 by (simp add: scan_sample_def Let_def)
  qed (use t 1 in \<open>simp add: scan_sample_def\<close>)
qed

end

text \<open>
  On a network of one freshly initialised slave both scan samples exit with 0 and
  report exactly that slave: station address 0x1000 and its vendor, product, revision and serial
  numbers.
\<close>

theorem scan_samples_report:
  assumes "world m = (ul_ecat_slave_init mc ident, [])" "length mc = 6"
  defines "entry \<equiv> \<lparr>station_address = 0x1000, m_state = UL_ECAT_SLAVE_STATE_INIT, m_vendor_id = vendor_id ident,
      m_product_code = product_code ident, m_revision_no = revision ident, m_serial_no = serial ident, m_device_name = []\<rparr>"
  shows "fst (nuttx_scan_main slave_port argv m) = (0, Some [entry]) \<and> fst (zephyr_scan_main slave_port m) = (0, Some [entry])"
  using scan_sample_finds [OF assms(1,2)] by (simp add: nuttx_scan_main_def zephyr_scan_main_def entry_def found_def)

text \<open>
  Whatever the kernel answers, the NuttX and the Zephyr scan sample end with the
  descriptors they began with and no worker thread.
\<close>

theorem scan_samples_leave_nothing:
  assumes "\<not> g_worker_started (world m)" "\<not> z_worker (world n)"
  shows "let w = world (snd (nuttx_scan_main nuttx_script_port argv m));
      k = world (snd (zephyr_scan_main (zephyr_port script_zsys (\<lambda>n _. replicate n 0xCC)) n)) in
    set (k_open (kernel w)) = set (k_open (kernel (world m))) \<and> k_running (kernel w) = k_running (kernel (world m)) \<and>
    set (z_open k) = set (z_open (world n)) \<and> \<not> z_worker k"
  using nuttx.scan_sample_clean [of m 1 "if length argv > 1 then argv ! 1 else ''eth0''"]
    zscript.zephyr.scan_sample_clean [of n 0 "''eth0''"] assms
  by (simp add: nuttx_scan_main_def zephyr_scan_main_def linux_held_def zephyr_held_def Let_def split: if_splits)

section \<open>Witnesses\<close>

text \<open>A sleep during which the master moves its target: it writes the number of microseconds to the RxPDO.\<close>

definition demo_pause :: "nat \<Rightarrow> spi_device nuttx_hal \<Rightarrow> spi_device nuttx_hal" where
  "demo_pause us h = h\<lparr>g_spidev := map_option (map_prod id (\<lambda>d. d\<lparr>d_mem := (d_mem d)(0x1000 := word_of_nat us)\<rparr>)) (g_spidev h)\<rparr>"

definition demo_zpause :: "nat \<Rightarrow> spi_device zephyr_hal \<Rightarrow> spi_device zephyr_hal" where
  "demo_zpause us h = h\<lparr>zdev := map_prod id (\<lambda>d. d\<lparr>d_mem := (d_mem d)(0x1000 := word_of_nat us)\<rparr>) (zdev h)\<rparr>"

lemma demo_pause_ok: "nuttx_bound h \<and> bus_free h \<and> at_rest (nuttx_chip h) \<Longrightarrow>
    nuttx_bound (demo_pause us h) \<and> bus_free (demo_pause us h) \<and> at_rest (nuttx_chip (demo_pause us h))"
  by (auto simp: demo_pause_def nuttx_bound_def bus_free_def nuttx_chip_def at_rest_def)

lemma demo_zpause_ok: "g_hal_ready h \<and> g_spi_mtx h = 0 \<and> at_rest (zdev h) \<Longrightarrow>
    g_hal_ready (demo_zpause us h) \<and> g_spi_mtx (demo_zpause us h) = 0 \<and> at_rest (zdev (demo_zpause us h))"
  by (auto simp: demo_zpause_def at_rest_def)


theorem zephyr_servo_tracks_targets_witness:
  "\<exists>c0 h c h'. zephyr_servo_main demo_zpause demo_coe (snd (ul_ecat_lan9252_hal_init (chip_zephyr False) demo_zephyr_chip)) = (Inr c0, h) \<and>
    ul_ecat_slave_controller_poll (zephyr_spi_hal (chip_zephyr False)) (servo_pass (zephyr_spi_hal (chip_zephyr False)) demo_zpause (c0, h)) = (Inr (), c, h') \<and>
    mem_read (dev_mem (zdev h')) 0x1100 12 = mem_read (dev_mem (zdev h)) 0x1000 12"
proof -
  have "at_rest (zdev demo_zephyr_chip)" by (simp add: demo_chips)
  from zephyr_servo_tracks_targets [where pause = demo_zpause and ?coe0.0 = demo_coe, OF demo_zpause_ok this] show ?thesis
    by (auto simp: Let_def dest!: spec [of _ 0])
qed

theorem scan_samples_report_witness:
  "map_option (map m_vendor_id) (snd (fst (nuttx_scan_main slave_port [''ul_ecat_scan''] (idle_master (ul_ecat_slave_init demo_mac demo_ident, [])))))
    = Some [vendor_id demo_ident]"
  using scan_samples_report [of "idle_master (ul_ecat_slave_init demo_mac demo_ident, [])" demo_mac demo_ident]
  by (simp add: demo_mac_def)

theorem scan_samples_leave_nothing_witness:
  "k_open (kernel (world (snd (nuttx_scan_main nuttx_script_port [''ul_ecat_scan''] (idle_master (fresh_linux [Yes, Num 2, Yes, Yes])))))) = []"
  using scan_samples_leave_nothing [of "idle_master (fresh_linux [Yes, Num 2, Yes, Yes])" "idle_master demo_zkernel"]
  by (simp add: fresh_linux_def demo_zkernel_def Let_def)

end
