(* ===== verification/Clocks.thy ===== *)
theory Clocks
  imports Network
begin

text \<open>
  The distributed-clock response of \<open>src/master/ul_ecat_master.c\<close> on the numbers it is about: the
  signed difference of the slave's and the master's clocks, the threshold, the truncated correction
  that goes into a datagram, and the signed value the slave reads out of it.
\<close>

section \<open>The clock correction\<close>

lemma neg_word: "- x = (word_of_int (- sint x) :: u64)"
  by simp

lemma llabs_abs:
  assumes "sint x \<noteq> - (2 ^ 63)"
  shows "llabs x = \<bar>sint (x :: u64)\<bar>"
proof -
  have r: "- (2 ^ 63) \<le> sint x" "sint x < 2 ^ 63" using sint_range_size [of x] by (simp_all add: word_size)
  have "sint (word_of_int i :: u64) = i" if "- (2 ^ 63) \<le> i" "i < 2 ^ 63" for i
    using that by (simp add: signed_of_int signed_take_bit_int_eq_self)
  from this [of "- sint x"] have "sint (- x) = - sint x"
    unfolding neg_word [of x] using assms r by simp
  then show ?thesis by (simp add: llabs_def)
qed

lemma ucast_of_int: "(ucast (word_of_int i :: u64) :: u32) = word_of_int i"
  by (rule bit_word_eqI) (auto simp: bit_simps)

lemma correction_exact:
  assumes "\<bar>sint (x :: u64)\<bar> < 2 ^ 31"
  shows "sint (ucast (- x) :: u32) = - sint x"
proof -
  have "(ucast (- x) :: u32) = word_of_int (- sint x)"
    unfolding neg_word [of x] by (rule ucast_of_int)
  moreover have w: "sint (word_of_int i :: u32) = i" if "- (2 ^ 31) \<le> i" "i < 2 ^ 31" for i
    using that by (simp add: signed_of_int signed_take_bit_int_eq_self)
  have "- (2 ^ 31) \<le> - sint x" "- sint x < 2 ^ 31" using assms by auto
  note w [OF this]
  ultimately show ?thesis by (simp only:)
qed

text \<open>\<open>int32_t\<close> as the slave reads it off the wire.\<close>

definition signed_le32 :: "bytes \<Rightarrow> int" where
  "signed_le32 b = sint (of_le32 (b ! 0) (b ! 1) (b ! 2) (b ! 3))"

lemma signed_le32_le32: "signed_le32 (le32 v) = sint v"
  by (simp only: signed_le32_def of_le32_le32)

text \<open>
  Property C28. A DC response posts one event with the exact signed offset of the slave's clock and
  clears the timeout. An offset of at most 5 ms queues one FPWR to register 0x0920 of station 0
  whose four data bytes the slave reads, as a signed number, as the negated offset: narrowing the
  correction to 32 bits loses nothing. A larger offset queues nothing and stops the clocks with
  error 1.
\<close>

theorem dc_response:
  fixes m :: "'t master"
  assumes "osal_monotonic_ns port (world m) = (now, w)" "sint (st - now) \<noteq> - (2 ^ 63)"
    and "length (g_q m) < Q_MAX" "length (g_evt_queue m) < MAX_EVENTS"
  defines "m' \<equiv> handle_dc_response port st m" and "off \<equiv> sint (st - now)"
  shows "\<exists>ev. g_evt_queue m' = g_evt_queue m @ [EV_DC ev] \<and> sint (offset_ns ev) = off \<and>
    g_dc_timeout m' = 0 \<and> sint (g_dc_offset m') = off \<and>
    (if \<bar>off\<bar> \<le> 5000000 then
       dc_event_kind ev = UL_ECAT_DC_EVENT_SYNC \<and> g_dc_state m' = g_dc_state m \<and>
       (\<exists>q d. g_q m' = g_q m @ [q] \<and> ul_ecat_dgram_parse q 0 (Some 4) = Some d \<and> d_cmd d = UL_ECAT_CMD_FPWR \<and>
          d_adp d = 0 \<and> d_ado d = 0x0920 \<and> signed_le32 (d_data d) = - off)
     else
       dc_event_kind ev = UL_ECAT_DC_EVENT_ERROR \<and> dc_error ev = 1 \<and> g_dc_state m' = 3 \<and> g_dc_error_code m' = 1 \<and> g_q m' = g_q m)"
proof -
  have ab: "llabs (st - now) = \<bar>off\<bar>" using llabs_abs [OF assms(2)] by (simp add: off_def)
  show ?thesis
  proof (cases "\<bar>off\<bar> \<le> 5000000")
    case False
    then show ?thesis using assms(1,4) ab
      by (simp add: m'_def handle_dc_response_def on_world_def Let_def ul_ecat_eventloop_post_dc_event_def post_evt_def off_def)
  next
    case True
    let ?data = "le32 (ucast (- (st - now)))"
    define d where "d = (write_dgram UL_ECAT_CMD_FPWR 0 0x0920 ?data)\<lparr>d_index := g_dgram_index_seq m\<rparr>"
    have v: "valid_dgram d" "unat (d_len d) \<le> 4" using dgram_valid(2) [of ?data UL_ECAT_CMD_FPWR 0 "0x0920"]
      by (simp_all add: d_def valid_dgram_def write_dgram_def le32_def)
    have e: "ul_ecat_dgram_encode DGRAM_BUF UL_ECAT_CMD_FPWR (g_dgram_index_seq m) 0 0x0920 4 0 0 (Some ?data) = Some (dgram_bytes d)"
      by (simp add: ul_ecat_dgram_encode_def ul_ecat_dgram_wire_size_def Let_def dgram_bytes_def write_dgram_def d_def le32_def)
    have "length (dgram_bytes d) \<le> DGRAM_BUF" using v by (simp add: length_dgram_bytes valid_dgram_def)
    then have q: "g_q m' = g_q m @ [dgram_bytes d]"
      using assms(1,3,4) ab True e
      by (simp add: m'_def handle_dc_response_def on_world_def Let_def ul_ecat_eventloop_post_dc_event_def post_evt_def
          ul_ecat_queue_fpwr_def queue_dgram_def q_push_encoded_def)
    have "ul_ecat_dgram_parse (dgram_bytes d) 0 (Some 4) = Some d" using parse_reply(1) [OF v] .
    moreover have "signed_le32 (d_data d) = - off"
      using correction_exact [of "st - now"] True by (simp add: d_def signed_le32_le32 off_def)
    ultimately show ?thesis
      using q assms(1,3,4) ab True
      by (auto simp: m'_def handle_dc_response_def on_world_def Let_def ul_ecat_eventloop_post_dc_event_def post_evt_def
          ul_ecat_queue_fpwr_def queue_dgram_def q_push_encoded_def off_def d_def split: option.splits)
  qed
qed

theorem dc_response_witness:
  "sint (g_dc_offset (handle_dc_response silent_port 700 (idle_master (0, [])))) = 700"
  using dc_response [of silent_port "idle_master (0, [])" 0 "(0, [])" 700]
  by (auto simp: silent_port_def peer_port_def)

end
