(* ===== verification/EsiProps.thy ===== *)
theory EsiProps
  imports MasterCli MasterQueue
begin

text \<open>
  ESI files and the command line: a document generator \<open>esi_doc\<close> that \<open>ul_ecat_esi_parse_file\<close>
  inverts, the library that \<open>ul_ecat_scan_slaves_with_esi\<close> loads, and what the commands of
  \<open>ul_ecat_app_execute\<close> do (\<open>src/master/ul_ecat_master.c\<close>).

  The search lemmas state where \<open>strstr\<close> stops: it skips text without the first character of what
  it looks for (\<open>strstr_skip\<close>) and stops at the first match (\<open>strstr_here\<close>).
\<close>

section \<open>Hexadecimal numbers\<close>

definition hex_char :: "nat \<Rightarrow> char" where
  "hex_char n = ''0123456789ABCDEF'' ! n"

fun hex_digits :: "nat \<Rightarrow> nat \<Rightarrow> string" where
  "hex_digits 0 n = []"
| "hex_digits (Suc k) n = hex_digits k (n div 16) @ [hex_char (n mod 16)]"

lemma below16: "n < 16 \<Longrightarrow> n \<in> {0, 1, 2, 3, 4, 5, 6, 7, 8, 9, 10, 11, 12, 13, 14, 15 :: nat}"
  by (simp add: less_Suc_eq numeral_eq_Suc)

lemma hex_char_digit: "n < 16 \<Longrightarrow> digit_of (hex_char n) = n"
  by (drule below16) (auto simp: hex_char_def digit_of_def char_code_def)

lemma hex_char_plain: "n < 16 \<Longrightarrow> \<not> is_space (hex_char n) \<and> hex_char n \<noteq> CHR ''-'' \<and> hex_char n \<noteq> CHR ''+''
    \<and> hex_char n \<noteq> CHR ''x'' \<and> hex_char n \<noteq> CHR ''X'' \<and> hex_char n \<noteq> CHR ''<'' \<and> char_code (hex_char n) \<noteq> 0"
  by (drule below16) (auto simp: hex_char_def is_space_def char_code_def)

lemma length_hex_digits [simp]: "length (hex_digits k n) = k"
  by (induction k arbitrary: n) simp_all

lemma set_hex_digits: "c \<in> set (hex_digits k n) \<Longrightarrow> \<exists>d < 16. c = hex_char d"
proof (induction k arbitrary: n)
  case (Suc k)
  then consider "c \<in> set (hex_digits k (n div 16))" | "c = hex_char (n mod 16)" by auto
  then show ?case
  proof cases
    case 2
    then show ?thesis by (intro exI [of _ "n mod 16"]) simp
  qed (rule Suc.IH)
qed simp

lemma hex_digits_value: "digits_value 16 (hex_digits k n) = n mod 16 ^ k"
proof -
  have all: "takeWhile (\<lambda>c. digit_of c < 16) (hex_digits k n) = hex_digits k n" for k n
    by (metis set_hex_digits hex_char_digit takeWhile_eq_all_conv)
  have "foldl (\<lambda>v c. v * 16 + digit_of c) 0 (hex_digits k n) = n mod 16 ^ k"
  proof (induction k arbitrary: n)
    case (Suc k)
    have "n div 16 mod 16 ^ k * 16 + n mod 16 = n mod (16 * 16 ^ k)"
      by (simp add: mod_mult2_eq)
    with Suc show ?case by (simp add: hex_char_digit)
  qed simp
  then show ?thesis by (simp add: digits_value_def all)
qed

lemma hex_digits_Cons:
  assumes "k \<noteq> 0"
  obtains c cs where "hex_digits k n = c # cs" "\<exists>d < 16. c = hex_char d" "\<forall>x \<in> set cs. \<exists>d < 16. x = hex_char d"
proof (cases "hex_digits k n")
  case Nil
  then show ?thesis using assms length_hex_digits [of k n] by simp
next
  case (Cons c cs)
  then show ?thesis using that set_hex_digits [of _ k n] by auto
qed

lemma prefix_first: "prefix [a] (c # cs) \<longleftrightarrow> a = c"
  by (auto simp: prefix_Cons)

lemma strtoul_hex:
  assumes "k \<noteq> 0" "16 ^ k \<le> (2 :: nat) ^ 64"
  shows "strtoul (hex_digits k n) 16 = word_of_nat (n mod 16 ^ k)"
proof -
  obtain c cs where c: "hex_digits k n = c # cs" "\<exists>d < 16. c = hex_char d" "\<forall>x \<in> set cs. \<exists>d < 16. x = hex_char d"
    using hex_digits_Cons [OF assms(1)] .
  have p: "\<not> is_space c" "c \<noteq> CHR ''-''" "c \<noteq> CHR ''+''" using c(2) hex_char_plain by auto
  have "skip_0x (c # cs) = c # cs"
  proof -
    have "\<not> prefix [CHR ''0'', x] (c # cs)" if "x \<in> {CHR ''x'', CHR ''X''}" for x
      using c(3) hex_char_plain that by (cases cs) (auto simp: prefix_first)
    from this [of "CHR ''x''"] this [of "CHR ''X''"] show ?thesis by (auto simp: skip_0x_def)
  qed
  then have "scan_number 16 (hex_digits k n) = (False, digits_value 16 (hex_digits k n))"
    using p by (simp add: scan_number_def c(1) prefix_first Let_def)
  moreover have "n mod 16 ^ k < 2 ^ 64" using assms(2) by (meson mod_less_divisor order_less_le_trans zero_less_power zero_less_numeral)
  ultimately show ?thesis by (simp add: strtoul_def hex_digits_value)
qed

section \<open>Searching\<close>

lemma strstr_skip: "CHR ''<'' \<notin> set a \<Longrightarrow> strstr (a @ s) (CHR ''<'' # n) = strstr s (CHR ''<'' # n)"
  by (induction a) auto

lemma strstr_here: "strstr (n @ s) n = Some (n @ s)"
proof (cases "n @ s")
  case (Cons a list)
  have "prefix n (n @ s)" by simp
  then show ?thesis unfolding Cons by simp
qed simp

definition esi_tag :: "string \<Rightarrow> string \<Rightarrow> string" where
  "esi_tag tag body = tag_open tag @ body @ tag_close tag"

definition hex8 :: "u32 \<Rightarrow> string" where
  "hex8 v = hex_digits 8 (unat v)"

lemma hex8_plain: "CHR ''<'' \<notin> set (hex8 v)" "length (hex8 v) = 8"
  by (metis hex8_def set_hex_digits hex_char_plain) (simp add: hex8_def)

lemma hex8_value: "ucast (strtoul (take 127 (hex8 v)) 16) = v"
proof -
  have "unat v < 16 ^ 8" using unsigned_less [of v] by simp
  then have "strtoul (hex8 v) 16 = word_of_nat (unat v)"
    using strtoul_hex [of 8 "unat v"] by (simp add: hex8_def)
  moreover have "ucast (ucast v :: u64) = v" by (rule bit_word_eqI) (simp add: bit_simps)
  ultimately show ?thesis by (simp add: hex8_plain)
qed

definition esi_fields :: "esi_device \<Rightarrow> string" where
  "esi_fields d =
     esi_tag ''VendorID'' (hex8 (ed_vendor_id d)) @ esi_tag ''ProductCode'' (hex8 (ed_product_code d)) @
     esi_tag ''RevisionNo'' (hex8 (ed_revision_no d)) @ esi_tag ''SerialNo'' (hex8 (ed_serial_no d)) @
     esi_tag ''Name'' (ed_device_name d)"

definition esi_text :: "esi_device \<Rightarrow> string" where
  "esi_text d = ''<Device>'' @ esi_fields d @ ''</Device>''"

definition plain_text :: "string \<Rightarrow> bool" where
  "plain_text s \<longleftrightarrow> (\<forall>c \<in> set s. c \<noteq> CHR ''<'' \<and> char_code c \<noteq> 0)"

definition plain_name :: "esi_device \<Rightarrow> bool" where
  "plain_name d \<longleftrightarrow> plain_text (ed_device_name d) \<and> length (ed_device_name d) \<le> 127"

lemma find_close:
  assumes "plain_text (ed_device_name d)"
  shows "strstr (''<Device>'' @ esi_fields d @ ''</Device>'' @ rest) ''</Device>'' = Some (''</Device>'' @ rest)"
proof -
  have n: "CHR ''<'' \<notin> set (ed_device_name d)" using assms by (auto simp: plain_text_def)
  show ?thesis
    by (simp add: esi_fields_def esi_tag_def tag_open_def tag_close_def strstr_skip hex8_plain n)
qed

lemma tag_bodies:
  assumes "plain_text (ed_device_name d)"
  defines "t \<equiv> ''<Device>'' @ esi_fields d @ ''</Device''"
  shows "tag_body t ''VendorID'' = Some (hex8 (ed_vendor_id d))"
    "tag_body t ''ProductCode'' = Some (hex8 (ed_product_code d))"
    "tag_body t ''RevisionNo'' = Some (hex8 (ed_revision_no d))"
    "tag_body t ''SerialNo'' = Some (hex8 (ed_serial_no d))"
    "tag_body t ''Name'' = Some (ed_device_name d)"
proof -
  have n: "CHR ''<'' \<notin> set (ed_device_name d)" using assms by (auto simp: plain_text_def)
  show "tag_body t ''VendorID'' = Some (hex8 (ed_vendor_id d))"
    "tag_body t ''ProductCode'' = Some (hex8 (ed_product_code d))"
    "tag_body t ''RevisionNo'' = Some (hex8 (ed_revision_no d))"
    "tag_body t ''SerialNo'' = Some (hex8 (ed_serial_no d))"
    "tag_body t ''Name'' = Some (ed_device_name d)"
    by (simp_all add: t_def tag_body_def esi_fields_def esi_tag_def tag_open_def tag_close_def strstr_skip hex8_plain n)
qed


lemma parse_esi_fields:
  assumes "plain_name d"
  shows "parse_device (''<Device>'' @ esi_fields d @ ''</Device'') = d"
proof -
  have "plain_text (ed_device_name d)" "length (ed_device_name d) \<le> 127"
    using assms by (simp_all add: plain_name_def)
  then show ?thesis
    by (simp add: parse_device_def parse_hex_tag_def parse_string_tag_def tag_bodies [simplified] hex8_value)
qed

lemma esi_fields_short: "plain_name d \<Longrightarrow> length (esi_fields d) \<le> 400"
  by (simp add: plain_name_def esi_fields_def esi_tag_def tag_open_def tag_close_def hex8_plain)

definition esi_doc :: "string \<Rightarrow> (esi_device \<times> string) list \<Rightarrow> string" where
  "esi_doc pre ds = pre @ concat (map (\<lambda>(d, sep). esi_text d @ sep) ds)"

lemma parse_esi_doc:
  assumes "CHR ''<'' \<notin> set pre" "\<forall>(d, sep) \<in> set ds. plain_name d \<and> CHR ''<'' \<notin> set sep"
  shows "parse_devices n (esi_doc pre ds) = take n (map fst ds)"
  using assms
proof (induction ds arbitrary: n pre)
  case Nil
  have "strstr pre ''<Device>'' = None" using strstr_skip [of pre "[]"] Nil(1) by simp
  then show ?case by (cases n) (simp_all add: esi_doc_def)
next
  case (Cons x ds)
  obtain d sep where x: "x = (d, sep)" by fastforce
  have p: "plain_name d" "CHR ''<'' \<notin> set sep" "plain_text (ed_device_name d)"
    using Cons.prems(2) x by (auto simp: plain_name_def)
  show ?case
  proof (cases n)
    case 0
    then show ?thesis by simp
  next
    case (Suc k)
    let ?rest = "sep @ concat (map (\<lambda>(d, sep). esi_text d @ sep) ds)"
    let ?open = "''<Device>'' @ esi_fields d @ ''</Device>'' @ ?rest"
    have doc: "esi_doc pre (x # ds) = pre @ ?open" by (simp add: esi_doc_def x esi_text_def)
    have 1: "strstr (esi_doc pre (x # ds)) ''<Device>'' = Some ?open"
      unfolding doc using strstr_skip [OF Cons.prems(1), of ?open] strstr_here [of "''<Device>''"] by simp
    have 2: "strstr ?open ''</Device>'' = Some (''</Device>'' @ ?rest)" by (rule find_close [OF p(3)])
    have 3: "length ?open - length (''</Device>'' @ ?rest) + 8 = length (''<Device>'' @ esi_fields d @ ''</Device'')"
      by simp
    have 4: "take (length (''<Device>'' @ esi_fields d @ ''</Device'')) ?open = ''<Device>'' @ esi_fields d @ ''</Device''"
      by simp
    have 5: "length (''<Device>'' @ esi_fields d @ ''</Device'') < 4096" using esi_fields_short [OF p(1)] by simp
    have 6: "drop 8 (''</Device>'' @ ?rest) = esi_doc (CHR ''>'' # sep) ds" by (simp add: esi_doc_def)
    have "parse_devices n (esi_doc pre (x # ds)) =
        parse_device (''<Device>'' @ esi_fields d @ ''</Device'') # parse_devices k (esi_doc (CHR ''>'' # sep) ds)"
      using 5 unfolding Suc parse_devices.simps(2) 1 option.case 2 Let_def 3
      by (simp only: if_False not_le [symmetric] 4 6 split: if_split)
    also have "\<dots> = d # take k (map fst ds)"
      using Cons.IH [of "CHR ''>'' # sep" k] Cons.prems(2) p(2) by (simp add: parse_esi_fields [OF p(1)] x del: append.simps)
    finally show ?thesis by (simp add: Suc x)
  qed
qed

text \<open>No part of such a document is the terminator of a C string.\<close>

definition no_nul :: "string \<Rightarrow> bool" where
  "no_nul s \<longleftrightarrow> takeWhile (\<lambda>c. char_code c \<noteq> 0) s = s"

lemma no_nul_set: "no_nul s \<longleftrightarrow> (\<forall>c \<in> set s. char_code c \<noteq> 0)"
  by (simp only: no_nul_def takeWhile_eq_all_conv)

lemma no_nul_simps: "no_nul []" "no_nul (c # s) \<longleftrightarrow> char_code c \<noteq> 0 \<and> no_nul s"
  "no_nul (a @ b) \<longleftrightarrow> no_nul a \<and> no_nul b"
  by (auto simp: no_nul_set)

lemma plain_text_no_nul: "plain_text s \<Longrightarrow> no_nul s"
  by (simp add: plain_text_def no_nul_set)

lemma plain_text_no_lt: "plain_text s \<Longrightarrow> CHR ''<'' \<notin> set s"
  by (auto simp: plain_text_def)

lemma hex8_no_nul: "no_nul (hex8 v)"
  unfolding no_nul_set
proof
  fix c
  assume "c \<in> set (hex8 v)"
  then obtain d where "d < 16" "c = hex_char d" using set_hex_digits unfolding hex8_def by blast
  then show "char_code c \<noteq> 0" using hex_char_plain by blast
qed

lemma esi_text_no_nul: "plain_name d \<Longrightarrow> no_nul (esi_text d)"
  by (simp add: esi_text_def esi_fields_def esi_tag_def tag_open_def tag_close_def hex8_no_nul
      plain_name_def plain_text_no_nul no_nul_simps char_code_def)

lemma esi_doc_no_nul:
  assumes "plain_text pre" "\<forall>(d, sep) \<in> set ds. plain_name d \<and> plain_text sep"
  shows "no_nul (esi_doc pre ds)"
proof -
  have "no_nul (concat (map (\<lambda>(d, sep). esi_text d @ sep) ds))"
    using assms(2) by (induction ds) (auto simp: no_nul_simps esi_text_no_nul plain_text_no_nul)
  then show ?thesis using assms(1) by (simp add: esi_doc_def plain_text_no_nul no_nul_simps)
qed

text \<open>
  Property C37. \<open>ul_ecat_esi_parse_file\<close> inverts the writing of a device list as XML:
  from a document of device elements with hexadecimal numbers and a name of at most 127 characters
  each, separated by text without markup, it reads back the first 16 devices, in order and
  unchanged.
\<close>

theorem esi_roundtrip:
  assumes "plain_text pre" "\<forall>(d, sep) \<in> set ds. plain_name d \<and> plain_text sep"
    and "fs f = Some (esi_doc pre ds)" "ds \<noteq> []"
  shows "ul_ecat_esi_parse_file fs f = Some (take 16 (map fst ds))"
proof -
  have "takeWhile (\<lambda>c. char_code c \<noteq> 0) (esi_doc pre ds) = esi_doc pre ds"
    using esi_doc_no_nul [OF assms(1,2)] by (simp only: no_nul_def)
  moreover have "esi_doc pre ds \<noteq> []" using assms(4) by (cases ds) (simp_all add: esi_doc_def esi_text_def split: prod.split)
  moreover have "\<forall>(d, sep) \<in> set ds. plain_name d \<and> CHR ''<'' \<notin> set sep"
    using assms(2) plain_text_no_lt by blast
  from parse_esi_doc [OF plain_text_no_lt [OF assms(1)] this]
  have "parse_devices 16 (esi_doc pre ds) = take 16 (map fst ds)" .
  ultimately show ?thesis unfolding ul_ecat_esi_parse_file_def assms(3) option.case by (simp only: if_False)
qed

section \<open>The library\<close>

lemma merge_take: "length lib \<le> 64 \<Longrightarrow> merge_esi_res ds lib = take 64 (lib @ ds)"
  by (induction ds lib rule: merge_esi_res.induct) auto

definition parsed :: "(string \<Rightarrow> string option) \<Rightarrow> string \<Rightarrow> esi_device list" where
  "parsed fs f = (case ul_ecat_esi_parse_file fs f of None \<Rightarrow> [] | Some res \<Rightarrow> res)"

lemma load_take: "load_esi_files fs files = take 64 (concat (map (parsed fs) files))"
proof (induction files rule: rev_induct)
  case (snoc f files)
  have len: "length (load_esi_files fs files) \<le> 64" unfolding snoc by simp
  have "load_esi_files fs (files @ [f]) = merge_esi_res (parsed fs f) (load_esi_files fs files)"
    by (simp add: load_esi_files_def parsed_def split: option.split)
  also have "\<dots> = take 64 (load_esi_files fs files @ parsed fs f)" by (rule merge_take [OF len])
  also have "\<dots> = take 64 (concat (map (parsed fs) (files @ [f])))" by (simp add: snoc min_def)
  finally show ?case .
qed (simp add: load_esi_files_def)

text \<open>
  \<open>ul_ecat_scan_slaves_with_esi\<close> loads the devices of the readable files
  in order, keeps the first 64, and never touches a slave's station address.
\<close>

theorem esi_library:
  "g_esi_lib (ul_ecat_scan_slaves_with_esi fs files m) = take 64 (concat (map (parsed fs) files)) \<and>
   map station_address (g_slaves_db (ul_ecat_scan_slaves_with_esi fs files m)) = map station_address (g_slaves_db m)"
  by (simp add: ul_ecat_scan_slaves_with_esi_def Let_def load_take esi_apply_def comp_def split: option.split)

section \<open>Commands\<close>

lemma request_empty: "g_slaves_db m = [] \<Longrightarrow> ul_ecat_request_slave_state port i st m = (False, m)"
  by (cases "i < 0") (simp_all add: ul_ecat_request_slave_state_def ul_ecat_request_slave_state_mailbox_def)

lemma init_db: "ul_ecat_master_init port cfg m = (ok, m1) \<Longrightarrow> g_slaves_db m1 = g_slaves_db m"
  by (auto simp: ul_ecat_master_init_def on_world_def Let_def split: option.splits prod.splits if_splits)

text \<open>
  The command \<open>slave-state\<close> never scans: in a process that has not
  scanned, whatever index and state it is given, it does exactly what \<open>stop\<close> does,
  with exit code 0 and no frame sent.
\<close>

theorem cli_slave_state_needs_scan:
  assumes "g_slaves_db m = []"
  shows "ul_ecat_app_execute port fs [prog, ifc, ''slave-state'', idx, st] m
    = ul_ecat_app_execute port fs [prog, ifc, ''stop''] m"
proof -
  obtain ok m1 where i: "ul_ecat_master_init port (Some (cli_settings ifc)) m = (ok, m1)" by fastforce
  then have "g_slaves_db m1 = []" using init_db assms by metis
  then have "cli_command port fs [prog, ifc, ''slave-state'', idx, st] m1 = cli_command port fs [prog, ifc, ''stop''] m1"
    by (simp add: cli_command_def Let_def request_empty)
  with i show ?thesis by (simp add: ul_ecat_app_execute_def)
qed

section \<open>Witnesses\<close>

definition demo_device :: esi_device where
  "demo_device = \<lparr>ed_vendor_id = 0xE4C4, ed_product_code = 1, ed_revision_no = 2, ed_serial_no = 3, ed_device_name = ''EL7''\<rparr>"

theorem esi_roundtrip_witness:
  "ul_ecat_esi_parse_file [''a.xml'' \<mapsto> esi_doc '' '' [(demo_device, '' '')]] ''a.xml'' = Some [demo_device]"
  using esi_roundtrip [of "'' ''" "[(demo_device, '' '')]" "[''a.xml'' \<mapsto> esi_doc '' '' [(demo_device, '' '')]]" "''a.xml''"]
  by (simp add: plain_text_def plain_name_def demo_device_def char_code_def)

theorem cli_slave_state_needs_scan_witness:
  "ul_ecat_app_execute silent_port Map.empty [''ecat'', ''eth0'', ''slave-state'', ''0'', ''2''] (idle_master (0, []))
     = ul_ecat_app_execute silent_port Map.empty [''ecat'', ''eth0'', ''stop''] (idle_master (0, [])) \<and>
   world (snd (ul_ecat_app_execute silent_port Map.empty [''ecat'', ''eth0'', ''stop''] (idle_master (0, [])))) = (0, [])"
  using cli_slave_state_needs_scan [of "idle_master (0, [])" silent_port Map.empty "''ecat''" "''eth0''" "''0''" "''2''"]
  by (simp add: ul_ecat_app_execute_def cli_command_def ul_ecat_master_init_def ul_ecat_master_shutdown_def on_world_def
      silent_port_def peer_port_def)

end
