(* ===== verification/Threads.thy ===== *)
theory Threads
  imports MasterQueue
begin

text \<open>
  The threads of the master: the lock and condition wrappers of \<open>src/osal\<close>, and the functions of
  \<open>src/master/ul_ecat_master.c\<close> that use them, cut into the pieces between two OSAL calls.

  A piece is a step on the master's variables that goes on with more code (\<open>exec\<close>), so a call is
  followed statement by statement from lock to lock, whatever other threads do in between. The
  system (\<open>thread_step\<close>) is any number of threads that make any calls in any order; one of them,
  \<open>r\<close>, may run the event loop. Waiting on the condition variable may end without a signal, and a
  signal with nobody waiting is lost, as POSIX and Zephyr have it. Two places that no lock protects are
  cut further: \<open>g_dgram_index_seq++\<close> into its read and its write (\<open>Queue\<close>, \<open>Queue_next\<close>), and the
  test of a callback variable from the call through it (\<open>Deliver\<close>, \<open>Call_back\<close>). The callbacks
  themselves are not followed: they are handed their events.

  The mutexes form a linear order, and every call takes them in it (\<open>disciplined\<close>). The
  invariant \<open>threads_ok\<close> carries the properties; one lemma per kind of step keeps it.
\<close>

section \<open>The locks\<close>

text \<open>In the order in which the master takes them.\<close>

datatype osal_mutex = g_trx_mutex | g_q_mutex | g_evt_lock

instantiation osal_mutex :: linorder
begin

fun rank :: "osal_mutex \<Rightarrow> nat" where
  "rank g_trx_mutex = 0"
| "rank g_q_mutex = 1"
| "rank g_evt_lock = 2"

definition less_eq_osal_mutex :: "osal_mutex \<Rightarrow> osal_mutex \<Rightarrow> bool" where
  "less_eq_osal_mutex a b \<longleftrightarrow> rank a \<le> rank b"

definition less_osal_mutex :: "osal_mutex \<Rightarrow> osal_mutex \<Rightarrow> bool" where
  "less_osal_mutex a b \<longleftrightarrow> rank a < rank b"

instance
proof
  fix a b :: osal_mutex
  show "a \<le> b \<Longrightarrow> b \<le> a \<Longrightarrow> a = b"
    by (cases a; cases b) (simp_all add: less_eq_osal_mutex_def)
qed (auto simp: less_eq_osal_mutex_def less_osal_mutex_def)

end

datatype osal_call =
    ul_ecat_osal_trx_lock | ul_ecat_osal_trx_unlock
  | ul_ecat_osal_q_lock | ul_ecat_osal_q_unlock
  | ul_ecat_osal_evt_lock | ul_ecat_osal_evt_unlock
  | ul_ecat_osal_evt_wait | ul_ecat_osal_evt_signal

text \<open>
  The primitives of the threading library. Waiting on \<open>g_evt_cond\<close> gives a mutex back and takes it
  again after waking; signalling wakes one waiter, if there is one.
\<close>

datatype osal_prim = Mutex_lock osal_mutex | Mutex_unlock osal_mutex | Cond_wait osal_mutex | Cond_signal

fun linux_osal :: "osal_call \<Rightarrow> osal_prim" where
  "linux_osal ul_ecat_osal_trx_lock = Mutex_lock g_trx_mutex"
| "linux_osal ul_ecat_osal_trx_unlock = Mutex_unlock g_trx_mutex"
| "linux_osal ul_ecat_osal_q_lock = Mutex_lock g_q_mutex"
| "linux_osal ul_ecat_osal_q_unlock = Mutex_unlock g_q_mutex"
| "linux_osal ul_ecat_osal_evt_lock = Mutex_lock g_evt_lock"
| "linux_osal ul_ecat_osal_evt_unlock = Mutex_unlock g_evt_lock"
| "linux_osal ul_ecat_osal_evt_wait = Cond_wait g_evt_lock"
| "linux_osal ul_ecat_osal_evt_signal = Cond_signal"

text \<open>\<open>osal_nuttx.c\<close> and \<open>osal_zephyr.c\<close> wrap their own primitives in the same way.\<close>

fun nuttx_osal :: "osal_call \<Rightarrow> osal_prim" where
  "nuttx_osal ul_ecat_osal_trx_lock = Mutex_lock g_trx_mutex"
| "nuttx_osal ul_ecat_osal_trx_unlock = Mutex_unlock g_trx_mutex"
| "nuttx_osal ul_ecat_osal_q_lock = Mutex_lock g_q_mutex"
| "nuttx_osal ul_ecat_osal_q_unlock = Mutex_unlock g_q_mutex"
| "nuttx_osal ul_ecat_osal_evt_lock = Mutex_lock g_evt_lock"
| "nuttx_osal ul_ecat_osal_evt_unlock = Mutex_unlock g_evt_lock"
| "nuttx_osal ul_ecat_osal_evt_wait = Cond_wait g_evt_lock"
| "nuttx_osal ul_ecat_osal_evt_signal = Cond_signal"

fun zephyr_osal :: "osal_call \<Rightarrow> osal_prim" where
  "zephyr_osal ul_ecat_osal_trx_lock = Mutex_lock g_trx_mutex"
| "zephyr_osal ul_ecat_osal_trx_unlock = Mutex_unlock g_trx_mutex"
| "zephyr_osal ul_ecat_osal_q_lock = Mutex_lock g_q_mutex"
| "zephyr_osal ul_ecat_osal_q_unlock = Mutex_unlock g_q_mutex"
| "zephyr_osal ul_ecat_osal_evt_lock = Mutex_lock g_evt_lock"
| "zephyr_osal ul_ecat_osal_evt_unlock = Mutex_unlock g_evt_lock"
| "zephyr_osal ul_ecat_osal_evt_wait = Cond_wait g_evt_lock"
| "zephyr_osal ul_ecat_osal_evt_signal = Cond_signal"

lemma osal_agree: "nuttx_osal = linux_osal" "zephyr_osal = linux_osal"
proof -
  have "nuttx_osal c = linux_osal c" "zephyr_osal c = linux_osal c" for c
    by (cases c; simp)+
  then show "nuttx_osal = linux_osal" "zephyr_osal = linux_osal" by auto
qed

section \<open>The functions of the master, from lock to lock\<close>

text \<open>
  The pieces of code between two calls of the OSAL, with what they know, and the program of a
  thread: OSAL calls and pieces still to run.
\<close>

datatype piece =
    Exchange bytes nat int
  | Queue byte u16 u16 "bytes option" u16
  | Queue_next byte byte u16 u16 "bytes option" u16
  | Push bytes
  | Batch
  | Recv_start
  | Recv_next
  | Rx_dgram bytes nat
  | Dc_response u64
  | Dc_init
  | Dc_cycle
  | Dc_timeout
  | Post event
  | Set_dc_callback bool
  | Set_frame_callback bool
  | Loop_start
  | Loop
  | Loop_test
  | Deliver event
  | Call_back event
  | Set_stop

datatype instr = Os osal_prim | Run piece

abbreviation osal :: "osal_call \<Rightarrow> instr" where
  "osal c \<equiv> Os (linux_osal c)"

definition post_evt_code :: "event \<Rightarrow> instr list" where
  "post_evt_code e = [osal ul_ecat_osal_evt_lock, Run (Post e), osal ul_ecat_osal_evt_unlock]"

definition post_dc_code :: "dc_event \<Rightarrow> u64 \<Rightarrow> nat \<Rightarrow> instr list" where
  "post_dc_code k off err = post_evt_code (EV_DC \<lparr>dc_event_kind = k, offset_ns = off, dc_error = err\<rparr>)"

text \<open>A received frame: its datagrams, then the frame event.\<close>

definition receive_code :: "bytes \<Rightarrow> instr list" where
  "receive_code rx =
     (case ul_ecat_parse_eth_frame rx of
        None \<Rightarrow> []
      | Some pdu \<Rightarrow>
          (case ul_ecat_pdu_count_datagrams pdu of
             None \<Rightarrow> []
           | Some nd \<Rightarrow> map (\<lambda>i. Run (Rx_dgram pdu i)) [0 ..< nd]) @
          (if length rx \<le> 6 + 6 + 2 + 1500 then post_evt_code (EV_FRAME (frame_of rx) (length rx)) else []))"

text \<open>
  What a piece does to the variables, and the code it goes on with. \<^const>\<open>None\<close> is not returning.
  A \<open>Call_back\<close> whose callback is gone calls through a null pointer, which C leaves undefined; here
  nothing is delivered and the loop goes on.
\<close>

fun exec :: "'t port \<Rightarrow> piece \<Rightarrow> 't master \<Rightarrow> ('t master \<times> instr list) option" where
  "exec port (Exchange ec cap timeout) m = Some (snd (exchange_ec_payload port ec cap timeout m), [])"
| "exec port (Queue cmd adp ado data len) m = Some (m, [Run (Queue_next (g_dgram_index_seq m) cmd adp ado data len)])"
| "exec port (Queue_next idx cmd adp ado data len) m =
     Some (m\<lparr>g_dgram_index_seq := idx + 1\<rparr>,
       case ul_ecat_dgram_encode DGRAM_BUF cmd idx adp ado len 0 0 data of
         None \<Rightarrow> []
       | Some tmp \<Rightarrow> [osal ul_ecat_osal_q_lock, Run (Push tmp), osal ul_ecat_osal_q_unlock])"
| "exec port (Push tmp) m = Some (snd (q_push_encoded tmp m), [])"
| "exec port Batch m = map_option (\<lambda>m. (m, [])) (ul_ecat_send_batched_frames port m)"
| "exec port Recv_start m =
     (if g_sockfd m < 0 then Some (m, [])
      else
        let (ret, m1) = on_world (transport_wait_readable port (g_sockfd m) 0) m in
        Some (m1, if ret \<le> 0 then [] else [Run Recv_next]))"
| "exec port Recv_next m =
     (case on_world (transport_recv port (g_sockfd m) 1600 True) m of
        (None, m1) \<Rightarrow> Some (m1, [])
      | (Some rx, m1) \<Rightarrow> Some (m1, receive_code rx @ [Run Recv_next]))"
| "exec port (Rx_dgram pdu i) m =
     Some (m, case ul_ecat_dgram_parse pdu i (Some 32) of
        None \<Rightarrow> []
      | Some d \<Rightarrow>
          if d_cmd d = UL_ECAT_CMD_FPRD \<and> d_ado d = 0x0910 \<and> d_len d \<ge> 8 \<and> d_wkc d \<ge> 1
          then [Run (Dc_response (of_le64 (d_data d)))] else [])"
| "exec port (Dc_response slave_time_ns) m =
     (let (now, m1) = on_world (osal_monotonic_ns port) m;
          off = slave_time_ns - now;
          m2 = m1\<lparr>g_dc_offset := off, g_dc_timeout := 0\<rparr> in
      if llabs off > g_dc_threshold_ns then
        Some (m2\<lparr>g_dc_error_code := 1, g_dc_state := 3\<rparr>, post_dc_code UL_ECAT_DC_EVENT_ERROR off 1)
      else
        Some (m2, Run (Queue UL_ECAT_CMD_FPWR 0x0000 0x0920 (Some (le32 (ucast (- off)))) 4)
          # post_dc_code UL_ECAT_DC_EVENT_SYNC off 0))"
| "exec port Dc_init m =
     Some (m\<lparr>g_dc_state := 1, g_dc_offset := 0, g_dc_timeout := 0, g_dc_error_code := 0\<rparr>,
       post_dc_code UL_ECAT_DC_EVENT_INIT 0 0)"
| "exec port Dc_cycle m =
     (if g_dc_state m = 0 then Some (m, [])
      else if g_dc_state m = 3 then Some (m, [])
      else
        let m1 = (if g_dc_state m = 1 then m\<lparr>g_dc_state := 2\<rparr> else m) in
        Some (m1, if g_dc_state m1 = 2 then [Run (Queue UL_ECAT_CMD_FPRD 0x0000 0x0910 None 8), Run Dc_timeout] else []))"
| "exec port Dc_timeout m =
     (let m3 = m\<lparr>g_dc_timeout := g_dc_timeout m + 1\<rparr> in
      if g_dc_timeout m3 > 50 then
        Some (m3\<lparr>g_dc_error_code := 2, g_dc_state := 3\<rparr>, post_dc_code UL_ECAT_DC_EVENT_ERROR (g_dc_offset m3) 2)
      else Some (m3, []))"
| "exec port (Post e) m =
     (let (ok, m1) = post_evt e m in Some (m1, if ok then [osal ul_ecat_osal_evt_signal] else []))"
| "exec port (Set_dc_callback cb) m = Some (ul_ecat_register_dc_callback cb m, [])"
| "exec port (Set_frame_callback cb) m = Some (ul_ecat_register_frame_callback cb m, [])"
| "exec port Loop_start m = Some (m\<lparr>g_evt_stop := False\<rparr>, [])"
| "exec port Loop m = Some (m, [osal ul_ecat_osal_evt_lock, Run Loop_test])"
| "exec port Loop_test m =
     (if g_evt_queue m = [] \<and> \<not> g_evt_stop m then Some (m, [osal ul_ecat_osal_evt_wait, Run Loop_test])
      else if g_evt_stop m then Some (m, [osal ul_ecat_osal_evt_unlock])
      else Some (m\<lparr>g_evt_queue := tl (g_evt_queue m)\<rparr>,
        [osal ul_ecat_osal_evt_unlock, Run (Deliver (hd (g_evt_queue m))), Run Loop]))"
| "exec port (Deliver e) m = Some (m, if handles m e then [Run (Call_back e)] else [])"
| "exec port (Call_back e) m = Some (m\<lparr>delivered := delivered m @ (if handles m e then [e] else [])\<rparr>, [])"
| "exec port Set_stop m = Some (ul_ecat_eventloop_stop m, [osal ul_ecat_osal_evt_signal])"

text \<open>
  The calls a thread may make. The blocking accesses are calls of \<open>exchange_ec_payload\<close>, a queue
  request any \<open>ul_ecat_queue_fprd\<close> or \<open>ul_ecat_queue_fpwr\<close>, a cycle of the periodic thread a call of
  \<open>dc_cycle\<close>, one of \<open>ul_ecat_send_batched_frames\<close> and one of \<open>ul_ecat_receive_frames_nonblock\<close>.
\<close>

datatype call =
    Call_exchange bytes nat int
  | Call_queue byte u16 u16 "bytes option" u16
  | Call_send_batched
  | Call_receive
  | Call_dc_init
  | Call_dc_cycle
  | Call_register_dc bool
  | Call_register_frame bool
  | Call_eventloop_run
  | Call_eventloop_stop

fun call_code :: "call \<Rightarrow> instr list" where
  "call_code (Call_exchange ec cap timeout) =
     [osal ul_ecat_osal_trx_lock, Run (Exchange ec cap timeout), osal ul_ecat_osal_trx_unlock]"
| "call_code (Call_queue cmd adp ado data len) = [Run (Queue cmd adp ado data len)]"
| "call_code Call_send_batched =
     [osal ul_ecat_osal_trx_lock, osal ul_ecat_osal_q_lock, Run Batch, osal ul_ecat_osal_q_unlock, osal ul_ecat_osal_trx_unlock]"
| "call_code Call_receive = [osal ul_ecat_osal_trx_lock, Run Recv_start, osal ul_ecat_osal_trx_unlock]"
| "call_code Call_dc_init = [Run Dc_init]"
| "call_code Call_dc_cycle = [Run Dc_cycle]"
| "call_code (Call_register_dc cb) = [osal ul_ecat_osal_evt_lock, Run (Set_dc_callback cb), osal ul_ecat_osal_evt_unlock]"
| "call_code (Call_register_frame cb) = [osal ul_ecat_osal_evt_lock, Run (Set_frame_callback cb), osal ul_ecat_osal_evt_unlock]"
| "call_code Call_eventloop_run =
     [osal ul_ecat_osal_evt_lock, Run Loop_start, osal ul_ecat_osal_evt_unlock, Run Loop]"
| "call_code Call_eventloop_stop = [osal ul_ecat_osal_evt_lock, Run Set_stop, osal ul_ecat_osal_evt_unlock]"

section \<open>Threads\<close>

record 't threads =
  shared :: "'t master"
  owner :: "osal_mutex \<Rightarrow> nat option"
  asleep :: "nat set"
  code_of :: "nat \<Rightarrow> instr list"

text \<open>
  One step of thread \<open>t\<close>. Any thread may make any call when it is idle, except that only \<open>r\<close> runs
  the event loop. A waiter may also wake without a signal.
\<close>

inductive thread_step :: "'t port \<Rightarrow> nat \<Rightarrow> nat \<Rightarrow> 't threads \<Rightarrow> 't threads \<Rightarrow> bool" for port r where
  begin_call: "code_of s t = [] \<Longrightarrow> c = Call_eventloop_run \<longrightarrow> t = r \<Longrightarrow>
    thread_step port r t s (s\<lparr>code_of := (code_of s)(t := call_code c)\<rparr>)"
| run_piece: "code_of s t = Run p # is \<Longrightarrow> exec port p (shared s) = Some (m', is') \<Longrightarrow>
    thread_step port r t s (s\<lparr>shared := m', code_of := (code_of s)(t := is' @ is)\<rparr>)"
| take_lock: "code_of s t = Os (Mutex_lock mx) # is \<Longrightarrow> t \<notin> asleep s \<Longrightarrow> owner s mx = None \<Longrightarrow>
    thread_step port r t s (s\<lparr>owner := (owner s)(mx := Some t), code_of := (code_of s)(t := is)\<rparr>)"
| give_lock: "code_of s t = Os (Mutex_unlock mx) # is \<Longrightarrow> owner s mx = Some t \<Longrightarrow>
    thread_step port r t s (s\<lparr>owner := (owner s)(mx := None), code_of := (code_of s)(t := is)\<rparr>)"
| wait: "code_of s t = Os (Cond_wait mx) # is \<Longrightarrow> owner s mx = Some t \<Longrightarrow>
    thread_step port r t s (s\<lparr>owner := (owner s)(mx := None), asleep := insert t (asleep s),
      code_of := (code_of s)(t := Os (Mutex_lock mx) # is)\<rparr>)"
| signal_one: "code_of s t = Os Cond_signal # is \<Longrightarrow> u \<in> asleep s \<Longrightarrow>
    thread_step port r t s (s\<lparr>asleep := asleep s - {u}, code_of := (code_of s)(t := is)\<rparr>)"
| signal_none: "code_of s t = Os Cond_signal # is \<Longrightarrow> asleep s = {} \<Longrightarrow>
    thread_step port r t s (s\<lparr>code_of := (code_of s)(t := is)\<rparr>)"
| wake_up: "t \<in> asleep s \<Longrightarrow> thread_step port r t s (s\<lparr>asleep := asleep s - {t}\<rparr>)"

inductive thread_run :: "'t port \<Rightarrow> nat \<Rightarrow> nat list \<Rightarrow> 't threads \<Rightarrow> 't threads \<Rightarrow> bool" for port r where
  run_nil: "thread_run port r [] s s"
| run_snoc: "thread_run port r ts s s1 \<Longrightarrow> thread_step port r t s1 s' \<Longrightarrow> thread_run port r (ts @ [t]) s s'"

text \<open>The threads that made the steps, in their order, are kept with a run.\<close>

definition all_idle :: "'t master \<Rightarrow> 't threads" where
  "all_idle m = \<lparr>shared = m, owner = (\<lambda>_. None), asleep = {}, code_of = (\<lambda>_. [])\<rparr>"

definition reachable :: "'t port \<Rightarrow> nat \<Rightarrow> 't master \<Rightarrow> 't threads \<Rightarrow> bool" where
  "reachable port r m s \<longleftrightarrow> (\<exists>ts. thread_run port r ts (all_idle m) s)"

section \<open>The lock discipline\<close>

text \<open>The locks held where a piece runs.\<close>

fun runs_under :: "piece \<Rightarrow> osal_mutex set \<Rightarrow> bool" where
  "runs_under (Exchange _ _ _) H = (H = {g_trx_mutex})"
| "runs_under (Queue _ _ _ _ _) H = (H \<subseteq> {g_trx_mutex})"
| "runs_under (Queue_next _ _ _ _ _ _) H = (H \<subseteq> {g_trx_mutex})"
| "runs_under (Push _) H = (g_q_mutex \<in> H \<and> H \<subseteq> {g_trx_mutex, g_q_mutex})"
| "runs_under Batch H = (H = {g_trx_mutex, g_q_mutex})"
| "runs_under Recv_start H = (H = {g_trx_mutex})"
| "runs_under Recv_next H = (H = {g_trx_mutex})"
| "runs_under (Rx_dgram _ _) H = (H = {g_trx_mutex})"
| "runs_under (Dc_response _) H = (H = {g_trx_mutex})"
| "runs_under Dc_init H = (H = {})"
| "runs_under Dc_cycle H = (H = {})"
| "runs_under Dc_timeout H = (H = {})"
| "runs_under (Post _) H = (g_evt_lock \<in> H \<and> H \<subseteq> {g_trx_mutex, g_evt_lock})"
| "runs_under (Set_dc_callback _) H = (H = {g_evt_lock})"
| "runs_under (Set_frame_callback _) H = (H = {g_evt_lock})"
| "runs_under Loop_start H = (H = {g_evt_lock})"
| "runs_under Loop H = (H = {})"
| "runs_under Loop_test H = (H = {g_evt_lock})"
| "runs_under (Deliver _) H = (H = {})"
| "runs_under (Call_back _) H = (H = {})"
| "runs_under Set_stop H = (H = {g_evt_lock})"

text \<open>A pass of the event loop gives back the lock it was given.\<close>

definition left_by :: "piece \<Rightarrow> osal_mutex set \<Rightarrow> osal_mutex set" where
  "left_by p H = (if p = Loop_test then {} else H)"

text \<open>
  Code that, started with the locks \<open>H\<close> held, takes locks only in their order, gives back only what
  it holds, waits with the event lock alone and ends with \<open>H'\<close>.
\<close>

fun disciplined :: "osal_mutex set \<Rightarrow> instr list \<Rightarrow> osal_mutex set \<Rightarrow> bool" where
  "disciplined H [] H' = (H = H')"
| "disciplined H (Os (Mutex_lock mx) # is) H' = ((\<forall>h \<in> H. h < mx) \<and> disciplined (insert mx H) is H')"
| "disciplined H (Os (Mutex_unlock mx) # is) H' = (mx \<in> H \<and> disciplined (H - {mx}) is H')"
| "disciplined H (Os (Cond_wait mx) # is) H' = (mx = g_evt_lock \<and> H = {mx} \<and> disciplined H is H')"
| "disciplined H (Os Cond_signal # is) H' = disciplined H is H'"
| "disciplined H (Run p # is) H' = (runs_under p H \<and> disciplined (left_by p H) is H')"

lemma disciplined_append:
  "disciplined H is H1 \<Longrightarrow> disciplined H1 js H' \<Longrightarrow> disciplined H (is @ js) H'"
  by (induction H "is" H1 rule: disciplined.induct) auto

lemma mutex_less [simp]:
  "g_trx_mutex < g_q_mutex" "g_trx_mutex < g_evt_lock" "g_q_mutex < g_evt_lock"
  by (simp_all add: less_osal_mutex_def)

lemma under_trx: "H \<subseteq> {g_trx_mutex} \<longleftrightarrow> H = {} \<or> H = {g_trx_mutex}"
  by auto

lemma disciplined_post:
  "H \<subseteq> {g_trx_mutex} \<Longrightarrow> disciplined H (post_evt_code e) H"
  "H \<subseteq> {g_trx_mutex} \<Longrightarrow> disciplined H (post_dc_code k off err) H"
  by (auto simp: post_evt_code_def post_dc_code_def left_by_def)

lemma disciplined_datagrams: "disciplined {g_trx_mutex} (map (\<lambda>i. Run (Rx_dgram pdu i)) is) {g_trx_mutex}"
  by (induction "is") (simp_all add: left_by_def)

lemma disciplined_receive: "disciplined {g_trx_mutex} (receive_code rx) {g_trx_mutex}"
  by (auto simp: receive_code_def disciplined_post disciplined_datagrams split: option.split
      intro: disciplined_append [OF disciplined_datagrams])

text \<open>Every piece goes on with code of the same discipline, and so does every call.\<close>

lemma exec_disciplined:
  "runs_under p H \<Longrightarrow> exec port p m = Some (m', is) \<Longrightarrow> disciplined H is (left_by p H)"
  by (cases p)
    (auto simp: Let_def left_by_def under_trx disciplined_post post_evt_def disciplined_receive
      intro!: disciplined_append [OF disciplined_receive] split: option.splits prod.splits if_splits)

lemma call_disciplined: "disciplined {} (call_code c) {}"
  by (cases c) (auto simp: left_by_def)

section \<open>What the pieces change\<close>

fun event_piece :: "piece \<Rightarrow> bool" where
  "event_piece (Post _) = True"
| "event_piece Loop_start = True"
| "event_piece Loop_test = True"
| "event_piece Set_stop = True"
| "event_piece _ = False"

fun queue_piece :: "piece \<Rightarrow> bool" where
  "queue_piece (Push _) = True"
| "queue_piece Batch = True"
| "queue_piece _ = False"

text \<open>Only the event loop itself waits or runs its pieces.\<close>

definition loop_piece :: "piece \<Rightarrow> bool" where
  "loop_piece p \<longleftrightarrow> p \<in> {Loop_start, Loop, Loop_test} \<or> (\<exists>e. p = Deliver e \<or> p = Call_back e)"

definition is_wait :: "instr \<Rightarrow> bool" where
  "is_wait i \<longleftrightarrow> (\<exists>mx. i = Os (Cond_wait mx))"

lemma is_wait_simps [simp]:
  "is_wait (Os (Cond_wait mx))" "\<not> is_wait (Run p)" "\<not> is_wait (Os (Mutex_lock mx))"
  "\<not> is_wait (Os (Mutex_unlock mx))" "\<not> is_wait (Os Cond_signal)"
  by (simp_all add: is_wait_def)

lemma on_world_keeps:
  "on_world f m = (r, m') \<Longrightarrow> g_evt_queue m' = g_evt_queue m \<and> g_evt_stop m' = g_evt_stop m \<and> g_q m' = g_q m \<and>
     delivered m' = delivered m \<and> handles m' = handles m"
  by (auto simp: on_world_def intro!: handles_cong split: prod.splits)

lemma exchange_keeps:
  "exchange_ec_payload port ec cap t m = (r, m') \<Longrightarrow> g_evt_queue m' = g_evt_queue m \<and> g_evt_stop m' = g_evt_stop m \<and> g_q m' = g_q m \<and> delivered m' = delivered m"
  by (auto simp: exchange_ec_payload_def send_ec_payload_def recv_eth_frame_def
      split: option.splits prod.splits if_splits dest!: on_world_keeps)

lemma batch_keeps:
  assumes "dq.queue_ok m"
  obtains m' where "ul_ecat_send_batched_frames port m = Some m'" "g_evt_queue m' = g_evt_queue m"
    "g_evt_stop m' = g_evt_stop m" "dq.queue_ok m'" "delivered m' = delivered m"
proof -
  have 1: "\<forall>d \<in> set (g_q m). length d \<le> DGRAM_BUF" using assms by (simp add: dq.queue_ok_def dgram_fits_def)
  obtain fs where f: "batch_loop port (g_q m) m = Some (foldl (send_frame port) m fs)"
    using batch_loop_batching [OF 1, of m port] by blast
  have "g_evt_queue (foldl (send_frame port) m fs) = g_evt_queue m \<and> g_evt_stop (foldl (send_frame port) m fs) = g_evt_stop m \<and>
      delivered (foldl (send_frame port) m fs) = delivered m"
    by (induction fs arbitrary: m) (simp_all add: send_frame_def on_world_def split: prod.split)
  then show thesis
    using f assms that [of "if g_sockfd m < 0 then m else (foldl (send_frame port) m fs)\<lparr>g_q := []\<rparr>"]
    by (auto simp: ul_ecat_send_batched_frames_def dq.queue_ok_def)
qed

lemma exec_keeps:
  assumes "dq.queue_ok m" "exec port p m = Some (m', is)"
  shows "dq.queue_ok m'"
    and "\<not> event_piece p \<Longrightarrow> g_evt_queue m' = g_evt_queue m \<and> g_evt_stop m' = g_evt_stop m"
    and "\<not> queue_piece p \<Longrightarrow> g_q m' = g_q m"
proof -
  have "dq.queue_ok m' \<and> (\<not> event_piece p \<longrightarrow> g_evt_queue m' = g_evt_queue m \<and> g_evt_stop m' = g_evt_stop m) \<and>
      (\<not> queue_piece p \<longrightarrow> g_q m' = g_q m)"
  proof (cases p)
    case (Exchange ec cap t)
    obtain r m1 where "exchange_ec_payload port ec cap t m = (r, m1)" by fastforce
    from exchange_keeps [OF this] this Exchange assms show ?thesis by (auto simp: dq.queue_ok_def)
  next
    case (Push w)
    then show ?thesis using assms dq.push_ok [OF assms(1), of w] by (auto simp: q_push_encoded_def split: if_splits)
  next
    case Batch
    obtain m1 where "ul_ecat_send_batched_frames port m = Some m1" "g_evt_queue m1 = g_evt_queue m"
      "g_evt_stop m1 = g_evt_stop m" "dq.queue_ok m1"
      by (rule batch_keeps [OF assms(1)])
    with assms Batch show ?thesis by simp
  qed (use assms in \<open>auto simp: dq.queue_ok_def Let_def post_evt_def ul_ecat_register_dc_callback_def
        ul_ecat_register_frame_callback_def ul_ecat_eventloop_stop_def split: prod.splits option.splits if_splits
        dest!: on_world_keeps\<close>)
  then show "dq.queue_ok m'" "\<not> event_piece p \<Longrightarrow> g_evt_queue m' = g_evt_queue m \<and> g_evt_stop m' = g_evt_stop m"
    "\<not> queue_piece p \<Longrightarrow> g_q m' = g_q m"
    by simp_all
qed

lemma event_pieces_locked: "event_piece p \<Longrightarrow> runs_under p H \<Longrightarrow> g_evt_lock \<in> H"
  by (cases p) auto

lemma queue_pieces_locked: "queue_piece p \<Longrightarrow> runs_under p H \<Longrightarrow> g_q_mutex \<in> H"
  by (cases p) auto

lemma exec_returns: "dq.queue_ok m \<Longrightarrow> \<exists>m' is. exec port p m = Some (m', is)"
proof (cases p)
  case Batch
  assume "dq.queue_ok m"
  then obtain m1 where "ul_ecat_send_batched_frames port m = Some m1" by (rule batch_keeps)
  then show ?thesis using Batch by simp
qed (simp_all add: Let_def split: prod.split option.split)

text \<open>Code that neither waits nor belongs to the loop.\<close>

definition plain :: "instr list \<Rightarrow> bool" where
  "plain is \<longleftrightarrow> (\<forall>i \<in> set is. \<not> is_wait i \<and> (\<forall>p. i = Run p \<longrightarrow> \<not> loop_piece p))"

lemma plain_simps [simp]:
  "plain []" "plain (Run p # is) \<longleftrightarrow> \<not> loop_piece p \<and> plain is" "plain (Os pr # is) \<longleftrightarrow> \<not> is_wait (Os pr) \<and> plain is"
  "plain (is @ js) \<longleftrightarrow> plain is \<and> plain js"
  by (auto simp: plain_def)

lemma plain_pieces: "plain (map (\<lambda>i. Run (Rx_dgram pdu i)) is)"
  by (induction "is") (simp_all add: loop_piece_def)

lemma plain_code: "plain (post_evt_code e)" "plain (post_dc_code k off err)" "plain (receive_code rx)"
  by (simp_all add: post_evt_code_def post_dc_code_def receive_code_def loop_piece_def plain_pieces split: option.split)

lemma exec_plain_code: "exec port p m = Some (m', is) \<Longrightarrow> \<not> loop_piece p \<Longrightarrow> plain is"
  by (cases p) (auto simp: Let_def loop_piece_def plain_code split: prod.splits option.splits if_splits)

lemma exec_plain:
  assumes "exec port p m = Some (m', is)"
  shows "\<not> loop_piece p \<Longrightarrow> Run q \<in> set is \<Longrightarrow> \<not> loop_piece q"
    and "p \<noteq> Loop_test \<Longrightarrow> i \<in> set is \<Longrightarrow> \<not> is_wait i"
proof -
  show "\<not> loop_piece p \<Longrightarrow> Run q \<in> set is \<Longrightarrow> \<not> loop_piece q"
    using exec_plain_code [OF assms] by (auto simp: plain_def)
  show "\<not> is_wait i" if "p \<noteq> Loop_test" "i \<in> set is"
  proof (cases "loop_piece p")
    case True
    then show ?thesis using assms that by (auto simp: loop_piece_def)
  next
    case False
    then show ?thesis using exec_plain_code [OF assms] that by (auto simp: plain_def)
  qed
qed

lemma exec_delivered:
  assumes "dq.queue_ok m" "exec port p m = Some (m', is)" "\<And>e. p \<noteq> Call_back e"
  shows "delivered m' = delivered m"
proof (cases p)
  case (Exchange ec cap t)
  obtain r m1 where "exchange_ec_payload port ec cap t m = (r, m1)" by fastforce
  from exchange_keeps [OF this] this Exchange assms show ?thesis by auto
next
  case Batch
  obtain m1 where "ul_ecat_send_batched_frames port m = Some m1" "delivered m1 = delivered m"
    by (rule batch_keeps [OF assms(1)])
  with assms Batch show ?thesis by simp
qed (use assms in \<open>auto simp: Let_def post_evt_def q_push_encoded_def ul_ecat_register_dc_callback_def
      ul_ecat_register_frame_callback_def ul_ecat_eventloop_stop_def split: prod.splits option.splits if_splits
      dest!: on_world_keeps\<close>)

section \<open>The invariant of the threads\<close>

definition held_by :: "(osal_mutex \<Rightarrow> nat option) \<Rightarrow> nat \<Rightarrow> osal_mutex set" where
  "held_by own t = {mx. own mx = Some t}"

definition nothing_to_do :: "'t master \<Rightarrow> bool" where
  "nothing_to_do m \<longleftrightarrow> g_evt_queue m = [] \<and> \<not> g_evt_stop m"

definition about_to_signal :: "'t threads \<Rightarrow> bool" where
  "about_to_signal s \<longleftrightarrow> (\<exists>t is. owner s g_evt_lock = Some t \<and> code_of s t = Os Cond_signal # is)"

definition waits_right :: "nat \<Rightarrow> 't threads \<Rightarrow> nat \<Rightarrow> bool" where
  "waits_right r s t \<longleftrightarrow> (\<forall>i \<in> set (code_of s t). \<not> is_wait i) \<or>
     t = r \<and> nothing_to_do (shared s) \<and>
     (\<exists>is. code_of s t = Os (Cond_wait g_evt_lock) # is \<and> (\<forall>i \<in> set is. \<not> is_wait i))"

definition threads_ok :: "nat \<Rightarrow> 't threads \<Rightarrow> bool" where
  "threads_ok r s \<longleftrightarrow>
     (\<forall>t. disciplined (held_by (owner s) t) (code_of s t) {}) \<and>
     (\<forall>t \<in> asleep s. t = r \<and> held_by (owner s) t = {} \<and> (\<exists>is. code_of s t = Os (Mutex_lock g_evt_lock) # is)) \<and>
     (\<forall>t p. Run p \<in> set (code_of s t) \<longrightarrow> loop_piece p \<longrightarrow> t = r) \<and>
     (\<forall>t. waits_right r s t) \<and>
     dq.queue_ok (shared s) \<and>
     (asleep s \<noteq> {} \<longrightarrow> nothing_to_do (shared s) \<or> about_to_signal s)"

lemma threads_okD:
  assumes "threads_ok r s"
  shows "disciplined (held_by (owner s) t) (code_of s t) {}"
    and "t \<in> asleep s \<Longrightarrow> t = r" "t \<in> asleep s \<Longrightarrow> held_by (owner s) t = {}"
    and "t \<in> asleep s \<Longrightarrow> \<exists>is. code_of s t = Os (Mutex_lock g_evt_lock) # is"
    and "Run p \<in> set (code_of s t) \<Longrightarrow> loop_piece p \<Longrightarrow> t = r"
    and "waits_right r s t" "dq.queue_ok (shared s)"
    and "asleep s \<noteq> {} \<Longrightarrow> nothing_to_do (shared s) \<or> about_to_signal s"
  using assms by (auto simp: threads_ok_def)

lemma threads_okI:
  assumes "\<And>t. disciplined (held_by (owner s) t) (code_of s t) {}"
    and "\<And>t. t \<in> asleep s \<Longrightarrow> t = r \<and> held_by (owner s) t = {} \<and> (\<exists>is. code_of s t = Os (Mutex_lock g_evt_lock) # is)"
    and "\<And>t p. Run p \<in> set (code_of s t) \<Longrightarrow> loop_piece p \<Longrightarrow> t = r"
    and "\<And>t. waits_right r s t" "dq.queue_ok (shared s)"
    and "asleep s \<noteq> {} \<Longrightarrow> nothing_to_do (shared s) \<or> about_to_signal s"
  shows "threads_ok r s"
  using assms by (auto simp: threads_ok_def)

lemma held_by_take:
  "own mx = None \<Longrightarrow> held_by (own(mx := Some t)) u = (if u = t then insert mx (held_by own t) else held_by own u)"
  by (auto simp: held_by_def)

lemma held_by_give:
  "own mx = Some t \<Longrightarrow> held_by (own(mx := None)) u = (if u = t then held_by own t - {mx} else held_by own u)"
  by (auto simp: held_by_def)

lemma about_to_signal_keep:
  assumes "about_to_signal s" "owner s' g_evt_lock = owner s g_evt_lock" "\<And>u. u \<noteq> t \<Longrightarrow> code_of s' u = code_of s u"
    and "\<not> (\<exists>is. code_of s t = Os Cond_signal # is)"
  shows "about_to_signal s'"
proof -
  obtain u "is" where u: "owner s g_evt_lock = Some u" "code_of s u = Os Cond_signal # is"
    using assms(1) by (auto simp: about_to_signal_def)
  then have "u \<noteq> t" using assms(4) by auto
  then show ?thesis using u assms(2,3) by (auto simp: about_to_signal_def)
qed

lemma waits_right_cong:
  "code_of s' t = code_of s t \<Longrightarrow> nothing_to_do (shared s') = nothing_to_do (shared s) \<Longrightarrow> waits_right r s' t = waits_right r s t"
  by (simp add: waits_right_def)

lemma waits_right_plain: "(\<forall>i \<in> set (code_of s t). \<not> is_wait i) \<Longrightarrow> waits_right r s t"
  by (simp add: waits_right_def)

lemma waits_rest:
  assumes "waits_right r s t" "code_of s t = i # is"
  shows "\<forall>i \<in> set is. \<not> is_wait i" "\<not> is_wait i \<or> nothing_to_do (shared s) \<and> t = r \<and> i = Os (Cond_wait g_evt_lock)"
  using assms by (auto simp: waits_right_def)

text \<open>One lemma per kind of step.\<close>

lemma ok_begin:
  assumes "threads_ok r s" "code_of s t = []" "c = Call_eventloop_run \<longrightarrow> t = r"
  shows "threads_ok r (s\<lparr>code_of := (code_of s)(t := call_code c)\<rparr>)"
proof -
  note ok = threads_okD [OF assms(1)]
  have h: "held_by (owner s) t = {}" using ok(1) [of t] assms(2) by simp
  have plain: "\<forall>i \<in> set (call_code c). \<not> is_wait i" by (cases c) auto
  have loop: "Run p \<in> set (call_code c) \<Longrightarrow> loop_piece p \<Longrightarrow> t = r" for p
    using assms(3) by (cases c) (auto simp: loop_piece_def)
  have na: "t \<notin> asleep s" using ok(4) [of t] assms(2) by auto
  show ?thesis
  proof (rule threads_okI)
    show "disciplined (held_by (owner (s\<lparr>code_of := (code_of s)(t := call_code c)\<rparr>)) u) (code_of (s\<lparr>code_of := (code_of s)(t := call_code c)\<rparr>) u) {}" for u
      using ok(1) [of u] h call_disciplined by simp
    show "waits_right r (s\<lparr>code_of := (code_of s)(t := call_code c)\<rparr>) u" for u
      using ok(6) [of u] plain by (cases "u = t") (auto simp: waits_right_def)
    show "asleep (s\<lparr>code_of := (code_of s)(t := call_code c)\<rparr>) \<noteq> {} \<Longrightarrow>
        nothing_to_do (shared (s\<lparr>code_of := (code_of s)(t := call_code c)\<rparr>)) \<or> about_to_signal (s\<lparr>code_of := (code_of s)(t := call_code c)\<rparr>)"
      using ok(8) assms(2) by (auto intro: about_to_signal_keep [of s _ t])
  qed (use ok loop na in \<open>auto split: if_splits\<close>)
qed

lemma ok_take:
  assumes "threads_ok r s" "code_of s t = Os (Mutex_lock mx) # is" "t \<notin> asleep s" "owner s mx = None"
  shows "threads_ok r (s\<lparr>owner := (owner s)(mx := Some t), code_of := (code_of s)(t := is)\<rparr>)" (is "threads_ok r ?s")
proof -
  note ok = threads_okD [OF assms(1)]
  note h = held_by_take [of "owner s", OF assms(4)]
  show ?thesis
  proof (rule threads_okI)
    show "disciplined (held_by (owner ?s) u) (code_of ?s u) {}" for u
      using ok(1) [of u] assms(2) by (auto simp: h)
    show "waits_right r ?s u" for u
      using ok(6) [of u] waits_rest(1) [OF ok(6) assms(2)] by (cases "u = t") (auto simp: waits_right_def)
    show "asleep ?s \<noteq> {} \<Longrightarrow> nothing_to_do (shared ?s) \<or> about_to_signal ?s"
      using ok(8) assms(2,4) by (cases "mx = g_evt_lock") (auto simp: about_to_signal_def elim!: about_to_signal_keep [where t = t])
  qed (use ok assms(2,3) in \<open>auto simp: h split: if_splits\<close>)
qed

lemma ok_give:
  assumes "threads_ok r s" "code_of s t = Os (Mutex_unlock mx) # is" "owner s mx = Some t"
  shows "threads_ok r (s\<lparr>owner := (owner s)(mx := None), code_of := (code_of s)(t := is)\<rparr>)" (is "threads_ok r ?s")
proof -
  note ok = threads_okD [OF assms(1)]
  note h = held_by_give [of "owner s", OF assms(3)]
  have na: "t \<notin> asleep s" using ok(4) [of t] assms(2) by auto
  show ?thesis
  proof (rule threads_okI)
    show "disciplined (held_by (owner ?s) u) (code_of ?s u) {}" for u
      using ok(1) [of u] assms(2) by (auto simp: h)
    show "waits_right r ?s u" for u
      using ok(6) [of u] waits_rest(1) [OF ok(6) assms(2)] by (cases "u = t") (auto simp: waits_right_def)
    show "asleep ?s \<noteq> {} \<Longrightarrow> nothing_to_do (shared ?s) \<or> about_to_signal ?s"
      using ok(8) assms(2,3) by (cases "mx = g_evt_lock") (auto simp: about_to_signal_def elim!: about_to_signal_keep [where t = t])
  qed (use ok assms(2) na in \<open>auto simp: h split: if_splits\<close>)
qed

lemma ok_wait:
  assumes "threads_ok r s" "code_of s t = Os (Cond_wait mx) # is" "owner s mx = Some t"
  shows "threads_ok r (s\<lparr>owner := (owner s)(mx := None), asleep := insert t (asleep s),
      code_of := (code_of s)(t := Os (Mutex_lock mx) # is)\<rparr>)" (is "threads_ok r ?s")
proof -
  note ok = threads_okD [OF assms(1)]
  note h = held_by_give [of "owner s", OF assms(3)]
  have m: "mx = g_evt_lock" "held_by (owner s) t = {g_evt_lock}" using ok(1) [of t] assms(2) by auto
  note w = waits_rest [OF ok(6) assms(2)]
  show ?thesis
  proof (rule threads_okI)
    show "disciplined (held_by (owner ?s) u) (code_of ?s u) {}" for u
      using ok(1) [of u] assms(2) by (auto simp: h [unfolded m(1)] m)
    show "waits_right r ?s u" for u
      using ok(6) [of u] w by (cases "u = t") (auto simp: waits_right_def)
    show "asleep ?s \<noteq> {} \<Longrightarrow> nothing_to_do (shared ?s) \<or> about_to_signal ?s" using w by simp
  qed (use ok w assms(2) m(2) in \<open>auto simp: h [unfolded m(1)] m(1) split: if_splits\<close>)
qed

lemma ok_signal:
  assumes "threads_ok r s" "code_of s t = Os Cond_signal # is" "u \<in> asleep s \<or> asleep s = {}"
  shows "threads_ok r (s\<lparr>asleep := asleep s - {u}, code_of := (code_of s)(t := is)\<rparr>)" (is "threads_ok r ?s")
proof -
  note ok = threads_okD [OF assms(1)]
  have e: "asleep s - {u} = {}" using assms(3) ok(2) by auto
  show ?thesis
  proof (rule threads_okI)
    show "disciplined (held_by (owner ?s) v) (code_of ?s v) {}" for v
      using ok(1) [of v] assms(2) by auto
    show "waits_right r ?s v" for v
      using ok(6) [of v] waits_rest(1) [OF ok(6) assms(2)] by (cases "v = t") (auto simp: waits_right_def)
  qed (use ok(5) [of _ t] ok(5,7) e assms(2) in \<open>auto split: if_splits\<close>)
qed

lemma ok_wake:
  assumes "threads_ok r s" "u \<in> asleep s"
  shows "threads_ok r (s\<lparr>asleep := asleep s - {u}\<rparr>)" (is "threads_ok r ?s")
proof -
  note ok = threads_okD [OF assms(1)]
  have e: "asleep s - {u} = {}" using assms(2) ok(2) by auto
  show ?thesis
  proof (rule threads_okI)
    show "waits_right r ?s v" for v using ok(6) [of v] by (simp add: waits_right_def)
  qed (use ok(1,5,7) e in auto)
qed

lemma ok_run:
  assumes "threads_ok r s" "code_of s t = Run p # is" "exec port p (shared s) = Some (m', is')"
  shows "threads_ok r (s\<lparr>shared := m', code_of := (code_of s)(t := is' @ is)\<rparr>)" (is "threads_ok r ?s")
proof -
  note ok = threads_okD [OF assms(1)]
  note keeps = exec_keeps [OF ok(7) assms(3)]
  have under: "runs_under p (held_by (owner s) t)" "disciplined (left_by p (held_by (owner s) t)) is {}"
    using ok(1) [of t] assms(2) by simp_all
  have na: "t \<notin> asleep s" using ok(4) [of t] assms(2) by auto
  have plain: "\<forall>i \<in> set is. \<not> is_wait i" using waits_rest(1) [OF ok(6) assms(2)] .
  have only: "waits_right r ?s u" if "u \<noteq> t" for u
  proof (cases "\<forall>i \<in> set (code_of s u). \<not> is_wait i")
    case True
    then show ?thesis using that by (simp add: waits_right_def)
  next
    case False
    then obtain js where u: "u = r" "nothing_to_do (shared s)" "code_of s u = Os (Cond_wait g_evt_lock) # js"
      "\<forall>i \<in> set js. \<not> is_wait i"
      using ok(6) [of u] by (auto simp: waits_right_def)
    then have "g_evt_lock \<in> held_by (owner s) u" using ok(1) [of u] by auto
    then have "g_evt_lock \<notin> held_by (owner s) t" using that by (simp add: held_by_def)
    then have "\<not> event_piece p" using event_pieces_locked under(1) by blast
    then have "nothing_to_do m'" using keeps(2) u(2) by (simp add: nothing_to_do_def)
    then show ?thesis using u that by (simp add: waits_right_def)
  qed
  have mine: "waits_right r ?s t"
  proof (cases "p = Loop_test")
    case False
    then show ?thesis using exec_plain(2) [OF assms(3)] plain by (auto simp: waits_right_def)
  next
    case True
    then have "t = r" using ok(5) [of p t] assms(2) by (simp add: loop_piece_def)
    then show ?thesis using assms(3) True plain by (auto simp: waits_right_def nothing_to_do_def split: if_splits)
  qed
  have todo: "nothing_to_do m' \<or> about_to_signal ?s" if "asleep s \<noteq> {}"
  proof (cases "event_piece p")
    case False
    then have "nothing_to_do m' = nothing_to_do (shared s)" using keeps(2) by (simp add: nothing_to_do_def)
    moreover have "about_to_signal ?s" if "about_to_signal s"
      using about_to_signal_keep [OF that, of ?s t] assms(2) by simp
    ultimately show ?thesis using ok(8) [OF that] by auto
  next
    case True
    then have own: "owner s g_evt_lock = Some t" using event_pieces_locked [OF True under(1)] by (simp add: held_by_def)
    have "t \<noteq> r" using that na ok(2) by auto
    then have nl: "\<not> loop_piece p" using ok(5) [of p t] assms(2) by auto
    have "nothing_to_do (shared s)" using ok(8) [OF that] own assms(2) by (auto simp: about_to_signal_def)
    then show ?thesis
      using True nl own assms(3)
      by (cases p) (auto simp: loop_piece_def post_evt_def about_to_signal_def nothing_to_do_def split: if_splits prod.splits)
  qed
  show ?thesis
  proof (rule threads_okI)
    show "disciplined (held_by (owner ?s) u) (code_of ?s u) {}" for u
      using ok(1) [of u] disciplined_append [OF exec_disciplined [OF under(1) assms(3)] under(2)] by simp
    show "waits_right r ?s u" for u using only mine by (cases "u = t") simp_all
    show "Run q \<in> set (code_of ?s u) \<Longrightarrow> loop_piece q \<Longrightarrow> u = r" for u q
      using ok(5) [of q u] ok(5) [of p t] exec_plain(1) [OF assms(3), of q] assms(2) by (auto split: if_splits)
    show "asleep ?s \<noteq> {} \<Longrightarrow> nothing_to_do (shared ?s) \<or> about_to_signal ?s" using todo by simp
  qed (use ok na keeps(1) in \<open>auto split: if_splits\<close>)
qed

lemma threads_ok_step: "thread_step port r t s s' \<Longrightarrow> threads_ok r s \<Longrightarrow> threads_ok r s'"
proof (induction rule: thread_step.induct)
  case (signal_none s t "is")
  then have "threads_ok r (s\<lparr>asleep := asleep s - {t}, code_of := (code_of s)(t := is)\<rparr>)"
    by (intro ok_signal) simp_all
  moreover have "s\<lparr>asleep := asleep s - {t}, code_of := (code_of s)(t := is)\<rparr> = s\<lparr>code_of := (code_of s)(t := is)\<rparr>"
    using signal_none by (cases s) simp
  ultimately show ?case by (simp only:)
qed (auto intro: ok_begin ok_run ok_take ok_give ok_wait ok_signal ok_wake)

lemma reachable_ok:
  assumes "dq.queue_ok m" "reachable port r m s"
  shows "threads_ok r s"
proof -
  obtain ts where "thread_run port r ts (all_idle m) s" using assms(2) by (auto simp: reachable_def)
  then show ?thesis
  proof (induction ts "all_idle m" s rule: thread_run.induct)
    case run_nil
    then show ?case using assms(1) by (auto simp: all_idle_def threads_ok_def held_by_def waits_right_def)
  next
    case run_snoc
    then show ?case using threads_ok_step by blast
  qed
qed

section \<open>What the locks guarantee\<close>

lemma held_byD: "held_by own t = {mx} \<Longrightarrow> own mx = Some t" "mx \<in> held_by own t \<Longrightarrow> own mx = Some t"
  by (auto simp: held_by_def)

lemma step_unless_locked:
  assumes "threads_ok r s" "code_of s t \<noteq> []" "\<And>mx is. code_of s t = Os (Mutex_lock mx) # is \<Longrightarrow> t \<notin> asleep s \<and> owner s mx = None"
  shows "\<exists>s'. thread_step port r t s s'"
proof -
  note ok = threads_okD [OF assms(1)]
  obtain i "is" where c: "code_of s t = i # is" using assms(2) by (cases "code_of s t") auto
  show ?thesis
  proof (cases i)
    case (Run p)
    then show ?thesis using c exec_returns [OF ok(7), of port p] by (auto intro: run_piece)
  next
    case (Os pr)
    then show ?thesis
      using c assms(3) ok(1) [of t]
      by (cases pr; cases "asleep s = {}") (auto dest!: held_byD intro: take_lock give_lock wait signal_one signal_none)
  qed
qed

text \<open>
  Property C2. However many threads use the master at once, and in whatever order their calls are
  interleaved lock by lock, they never block each other for good: as long as one of them has
  something left to do and is not asleep on the condition variable, one of those awake can take
  its next step.
\<close>

theorem threads_never_deadlock:
  assumes "reachable port r m s" "length (g_q m) \<le> Q_MAX" "\<forall>d \<in> set (g_q m). length d \<le> DGRAM_BUF"
    and "code_of s t \<noteq> []" "t \<notin> asleep s"
  shows "\<exists>u s'. code_of s u \<noteq> [] \<and> u \<notin> asleep s \<and> thread_step port r u s s'"
proof -
  have "dq.queue_ok m" using assms(2,3) by (simp add: dq.queue_ok_def dgram_fits_def)
  note inv = reachable_ok [OF this assms(1)] and ok = threads_okD [OF inv]
  show ?thesis
  proof (cases "\<exists>mx. owner s mx \<noteq> None")
    case False
    then show ?thesis using step_unless_locked [OF inv assms(4), of port] assms(4,5) by auto
  next
    case True
    obtain mx where mx: "owner s mx \<noteq> None" "\<And>mx'. mx < mx' \<Longrightarrow> owner s mx' = None"
    proof -
      have "finite {mx. owner s mx \<noteq> None}"
        by (rule finite_subset [of _ "{g_trx_mutex, g_q_mutex, g_evt_lock}"]) (auto intro: osal_mutex.exhaust)
      then show thesis using True that [of "Max {mx. owner s mx \<noteq> None}"] Max_in Max_ge
        by (metis (mono_tags, lifting) empty_iff leD mem_Collect_eq)
    qed
    then obtain u where u: "owner s mx = Some u" by auto
    then have h: "mx \<in> held_by (owner s) u" by (simp add: held_by_def)
    have na: "u \<notin> asleep s" using ok(3) [of u] h by auto
    have "code_of s u \<noteq> []" using ok(1) [of u] h by auto
    moreover have "owner s mx' = None" if "code_of s u = Os (Mutex_lock mx') # is" for mx' "is"
      using that ok(1) [of u] h mx(2) by auto
    ultimately show ?thesis using step_unless_locked [OF inv, of u port] na by blast
  qed
qed

end
