(* ===== verification/ThreadProps.thy ===== *)
theory ThreadProps
  imports Threads "HOL-Library.Sublist"
begin

text \<open>
  What the locks of the master guarantee: the shared variables change only under their locks, a
  sleeping event loop is woken by what it waits for, a stop ends the loop, events keep their order
  through any interleaving, and a call that runs alone does what the sequential model of
  \<open>Master\<close> and \<open>MasterCycle\<close> says. The last links the two models: \<open>sequential\<close> names the function
  each call is verified as elsewhere.
\<close>

lemma exec_world:
  assumes "exec port p m = Some (m', is)" "runs_under p H" "world m' \<noteq> world m"
  shows "g_trx_mutex \<in> H"
  using assms by (cases p) (auto simp: Let_def post_evt_def q_push_encoded_def ul_ecat_register_dc_callback_def
      ul_ecat_register_frame_callback_def ul_ecat_eventloop_stop_def split: if_splits prod.splits)


text \<open>
  Property C9. No wake-up is lost: whenever the event loop is asleep although an event is queued
  or a stop has been asked for, the thread that brought this about still holds the event lock and
  its next step wakes the loop.
\<close>

theorem no_lost_wakeup:
  assumes "reachable port r m s" "length (g_q m) \<le> Q_MAX" "\<forall>d \<in> set (g_q m). length d \<le> DGRAM_BUF"
    and "t \<in> asleep s" "g_evt_queue (shared s) \<noteq> [] \<or> g_evt_stop (shared s)"
  shows "\<exists>u is. owner s g_evt_lock = Some u \<and> code_of s u = osal ul_ecat_osal_evt_signal # is \<and>
    (\<forall>s'. thread_step port r u s s' \<longrightarrow> t \<notin> asleep s')"
proof -
  have "dq.queue_ok m" using assms(2,3) by (simp add: dq.queue_ok_def dgram_fits_def)
  note ok = threads_okD [OF reachable_ok [OF this assms(1)]]
  have "asleep s = {t}" using ok(2) assms(4) by auto
  obtain u "is" where u: "owner s g_evt_lock = Some u" "code_of s u = Os Cond_signal # is"
    using ok(8) assms(4,5) by (auto simp: nothing_to_do_def about_to_signal_def)
  have "t \<notin> asleep s'" if "thread_step port r u s s'" for s'
    using that
  proof (cases rule: thread_step.cases)
    case wake_up
    then show ?thesis using \<open>asleep s = {t}\<close> by auto
  qed (use u \<open>asleep s = {t}\<close> in auto)
  then show ?thesis using u by auto
qed

section \<open>A stop ends the loop\<close>

text \<open>The thread is inside the loop of \<open>ul_ecat_eventloop_run\<close>, past its reset of the flag.\<close>

definition in_loop :: "instr list \<Rightarrow> bool" where
  "in_loop is \<longleftrightarrow> (\<forall>p. Run p \<in> set is \<longrightarrow> p = Loop \<or> p = Loop_test \<or> (\<exists>e. p = Deliver e \<or> p = Call_back e))"

text \<open>How many steps the loop still needs once the flag is set.\<close>

fun steps_left :: "instr list \<Rightarrow> nat" where
  "steps_left [] = 0"
| "steps_left (Run Loop # is) = 4 + steps_left is"
| "steps_left (Run Loop_test # is) = 2 + steps_left is"
| "steps_left (Run (Deliver e) # is) = 2 + steps_left is"
| "steps_left (_ # is) = 1 + steps_left is"

lemma loop_step:
  assumes "threads_ok r s" "g_evt_stop (shared s)" "in_loop (code_of s r)" "code_of s r \<noteq> []" "thread_step port r t s s'"
  shows "g_evt_stop (shared s') \<and> in_loop (code_of s' r) \<and>
    steps_left (code_of s' r) + card (asleep s') + (if t = r then 1 else 0) \<le> steps_left (code_of s r) + card (asleep s)"
proof -
  note ok = threads_okD [OF assms(1)]
  have fin: "asleep s \<subseteq> {r}" using ok(2) by blast
  then have fa: "finite (asleep s)" using finite_subset by blast
  show ?thesis
    using assms(5)
  proof (cases rule: thread_step.cases)
    case (begin_call c)
    then show ?thesis using assms(2-4) by auto
  next
    case (run_piece p "is" m' is')
    show ?thesis
    proof (cases "t = r")
      case True
      then have il: "p = Loop \<or> p = Loop_test \<or> (\<exists>e. p = Deliver e \<or> p = Call_back e)" "in_loop is"
        using assms(3) run_piece(2) by (auto simp: in_loop_def)
      then consider "p = Loop" | "p = Loop_test" | e where "p = Deliver e" | e where "p = Call_back e" by blast
      then show ?thesis
        by cases (use assms(2) run_piece True il(2) in \<open>auto simp: in_loop_def\<close>)
    next
      case False
      then have nl: "\<not> loop_piece p" using ok(5) [of p t] run_piece(2) by auto
      have "g_evt_stop m'"
      proof (cases "event_piece p")
        case True
        then show ?thesis using nl run_piece(3) assms(2)
          by (cases p) (auto simp: loop_piece_def post_evt_def ul_ecat_eventloop_stop_def split: if_splits)
      next
        case F: False
        then show ?thesis using exec_keeps(2) [OF ok(7) run_piece(3)] assms(2) by simp
      qed
      then show ?thesis using assms(3) run_piece(1) False by simp
    qed
  next
    case (wait mx "is")
    then show ?thesis using ok(6) [of t] assms(2) by (auto simp: waits_right_def nothing_to_do_def)
  next
    case (signal_one "is" u)
    then show ?thesis using assms(2,3) fa card_Diff1_le [of "asleep s" u] by (auto simp: in_loop_def)
  next
    case wake_up
    then have "card (asleep s - {t}) + 1 = card (asleep s)" using fa card_Suc_Diff1 by fastforce
    then show ?thesis using assms(2,3) wake_up by auto
  qed (use assms(2,3) in \<open>auto simp: in_loop_def\<close>)
qed

inductive loop_run :: "'t port \<Rightarrow> nat \<Rightarrow> nat list \<Rightarrow> 't threads \<Rightarrow> 't threads \<Rightarrow> bool" for port r where
  loop_nil: "loop_run port r [] s s"
| loop_cons: "code_of s r \<noteq> [] \<Longrightarrow> thread_step port r t s s1 \<Longrightarrow> loop_run port r ts s1 s' \<Longrightarrow> loop_run port r (t # ts) s s'"

text \<open>Runs during which the loop has not returned yet.\<close>


section \<open>Events, thread by thread\<close>

lemma evt_run_append:
  "evt_run (as @ bs) m =
     (let (acc, tk, m1) = evt_run as m; (acc', tk', m2) = evt_run bs m1 in (acc @ acc', tk @ tk', m2))"
  by (induction as m rule: evt_run.induct) (simp_all add: Let_def split: prod.split)

text \<open>Events the loop has taken off the queue and not yet handed to a callback.\<close>

fun in_hand :: "instr list \<Rightarrow> event list" where
  "in_hand [] = []"
| "in_hand (Run (Deliver e) # is) = e # in_hand is"
| "in_hand (Run (Call_back e) # is) = e # in_hand is"
| "in_hand (_ # is) = in_hand is"

lemma in_hand_append: "in_hand (is @ js) = in_hand is @ in_hand js"
  by (induction "is" rule: in_hand.induct) simp_all

lemma in_hand_none: "(\<forall>e. Run (Deliver e) \<notin> set is \<and> Run (Call_back e) \<notin> set is) \<Longrightarrow> in_hand is = []"
  by (induction "is" rule: in_hand.induct) auto

text \<open>Going round the loop is the last thing its thread does.\<close>

definition loop_last :: "instr list \<Rightarrow> bool" where
  "loop_last is \<longleftrightarrow> Run Loop \<notin> set (butlast is) \<and> Run Loop_test \<notin> set (butlast is)"

lemma loop_last_rest: "loop_last (i # is) \<Longrightarrow> loop_last is"
  by (cases "is") (auto simp: loop_last_def)

lemma loop_last_append:
  "loop_last js \<Longrightarrow> Run Loop \<notin> set is \<Longrightarrow> Run Loop_test \<notin> set is \<Longrightarrow> loop_last (is @ js)"
  by (auto simp: loop_last_def butlast_append dest: in_set_butlastD)

lemma loop_last_exec:
  assumes "loop_last (Run p # is)" "exec port p m = Some (m', is')"
  shows "loop_last (is' @ is)"
proof (cases "loop_piece p")
  case False
  then have "Run Loop \<notin> set is'" "Run Loop_test \<notin> set is'"
    using exec_plain(1) [OF assms(2) False] by (auto simp: loop_piece_def)
  with loop_last_rest [OF assms(1)] show ?thesis by (rule loop_last_append)
next
  case True
  then have "is = [] \<or> (\<exists>e. p = Deliver e \<or> p = Call_back e) \<or> p = Loop_start"
    using assms(1) by (cases "is") (auto simp: loop_last_def loop_piece_def)
  then show ?thesis
    using assms True loop_last_rest [OF assms(1)] by (auto simp: loop_piece_def loop_last_def split: if_splits)
qed

lemma loop_last_step:
  assumes "thread_step port r t s s'" "\<And>u. loop_last (code_of s u)"
  shows "loop_last (code_of s' u)"
proof -
  have rest: "loop_last is" if "code_of s t = i # is" for i "is"
    using assms(2) [of t] loop_last_rest that by simp
  show ?thesis
    using assms(1)
  proof (cases rule: thread_step.cases)
    case (begin_call c)
    have "loop_last (call_code c)" by (cases c) (auto simp: loop_last_def)
    then show ?thesis using begin_call assms(2) by simp
  next
    case (run_piece p "is" m' is')
    then have "loop_last (is' @ is)" using loop_last_exec assms(2) [of t] by metis
    then show ?thesis using run_piece(1) assms(2) by simp
  next
    case (wait mx "is")
    have "loop_last (Os (Mutex_lock mx) # is)" using assms(2) [of t] wait(2) by (cases "is") (auto simp: loop_last_def)
    then show ?thesis using wait(1) assms(2) by simp
  qed (use assms(2) rest in simp_all)
qed

section \<open>Refinement of the event queue\<close>

definition follows :: "'t master \<Rightarrow> nat \<Rightarrow> 't threads \<Rightarrow> bool" where
  "follows m r s \<longleftrightarrow> (\<exists>as acc tk m' ds. evt_run as m = (acc, tk, m') \<and>
     g_evt_queue (shared s) = g_evt_queue m' \<and> g_evt_stop (shared s) = g_evt_stop m' \<and>
     delivered (shared s) = delivered m @ ds \<and> subseq (ds @ in_hand (code_of s r)) tk)"

lemma followsE:
  assumes "follows m r s"
  obtains as acc tk m' ds where "evt_run as m = (acc, tk, m')" "g_evt_queue (shared s) = g_evt_queue m'"
    "g_evt_stop (shared s) = g_evt_stop m'" "delivered (shared s) = delivered m @ ds" "subseq (ds @ in_hand (code_of s r)) tk"
  using assms by (auto simp: follows_def)

lemma followsI:
  "evt_run as m = (acc, tk, m') \<Longrightarrow> g_evt_queue (shared s) = g_evt_queue m' \<Longrightarrow> g_evt_stop (shared s) = g_evt_stop m' \<Longrightarrow>
     delivered (shared s) = delivered m @ ds \<Longrightarrow> subseq (ds @ in_hand (code_of s r)) tk \<Longrightarrow> follows m r s"
  by (auto simp: follows_def)

lemma follows_same:
  assumes "follows m r s" "g_evt_queue (shared s') = g_evt_queue (shared s)" "g_evt_stop (shared s') = g_evt_stop (shared s)"
    and "delivered (shared s') = delivered (shared s)" "in_hand (code_of s' r) = in_hand (code_of s r)"
  shows "follows m r s'"
  using assms by (simp add: follows_def)

text \<open>A step that is one of the abstract actions.\<close>

lemma follows_action:
  fixes m :: "'t master" and s s' :: "'t threads"
  assumes "follows m r s" "\<And>m' :: 't master. g_evt_queue m' = g_evt_queue (shared s) \<Longrightarrow> g_evt_stop m' = g_evt_stop (shared s) \<Longrightarrow>
      \<exists>acc m2. evt_run [a] m' = (acc, tk, m2) \<and> g_evt_queue (shared s') = g_evt_queue m2 \<and> g_evt_stop (shared s') = g_evt_stop m2"
    and "delivered (shared s') = delivered (shared s)" "in_hand (code_of s' r) = in_hand (code_of s r) @ tk"
  shows "follows m r s'"
proof -
  obtain as acc tk' m' ds where f: "evt_run as m = (acc, tk', m')" "g_evt_queue (shared s) = g_evt_queue m'"
    "g_evt_stop (shared s) = g_evt_stop m'" "delivered (shared s) = delivered m @ ds"
    "subseq (ds @ in_hand (code_of s r)) tk'"
    by (rule followsE [OF assms(1)])
  obtain acc2 m2 where a: "evt_run [a] m' = (acc2, tk, m2)" "g_evt_queue (shared s') = g_evt_queue m2"
    "g_evt_stop (shared s') = g_evt_stop m2"
    using assms(2) [of m'] f(2,3) by auto
  have "evt_run (as @ [a]) m = (acc @ acc2, tk' @ tk, m2)" using f(1) a(1) by (simp add: evt_run_append)
  moreover have "subseq (ds @ in_hand (code_of s' r)) (tk' @ tk)"
    using f(5) assms(4) by (simp add: list_emb_append_mono flip: append_assoc)
  ultimately show ?thesis using a(2,3) f(4) assms(3) unfolding follows_def by auto
qed

lemma in_hand_exec:
  assumes "exec port p m = Some (m', is)" "\<not> loop_piece p"
  shows "in_hand is = []"
  using exec_plain(1) [OF assms(1,2)] by (intro in_hand_none) (auto simp: loop_piece_def)

lemma follows_step:
  assumes "thread_step port r t s s'" "threads_ok r s" "\<And>u. loop_last (code_of s u)" "follows m r s"
  shows "follows m r s'"
  using assms(1)
proof (cases rule: thread_step.cases)
  case (begin_call c)
  have "in_hand (call_code c) = []" by (cases c) simp_all
  then show ?thesis using begin_call by (intro follows_same [OF assms(4)]) simp_all
next
  case (run_piece p "is" m' is')
  note ok = threads_okD [OF assms(2)]
  have here: "t = r" if "loop_piece p" using ok(5) [of p t] run_piece(2) that by simp
  have plain: "in_hand (code_of s' r) = in_hand (code_of s r)" if "\<not> loop_piece p"
    using in_hand_exec [OF run_piece(3) that] run_piece(1,2) that
    by (cases "t = r"; cases p) (auto simp: in_hand_append loop_piece_def)
  consider (Post) e where "p = Post e" | (Stop) "p = Set_stop" | (Start) "p = Loop_start" | (Test) "p = Loop_test"
    | (Loop) "p = Loop" | (Deliver) e where "p = Deliver e" | (Call_back) e where "p = Call_back e"
    | (other) "\<not> event_piece p" "\<not> loop_piece p" "\<And>e. p \<noteq> Call_back e"
    by (cases p) (auto simp: loop_piece_def)
  then show ?thesis
  proof cases
    case (Post e)
    show ?thesis
    proof (rule follows_action [OF assms(4), of "evt_action.Post e" "[]"])
      show "in_hand (code_of s' r) = in_hand (code_of s r) @ []" using plain Post by (simp add: loop_piece_def)
    qed (use run_piece Post in \<open>auto simp: post_evt_def split: if_splits\<close>)
  next
    case Stop
    show ?thesis
    proof (rule follows_action [OF assms(4), of evt_action.Stop "[]"])
      show "in_hand (code_of s' r) = in_hand (code_of s r) @ []" using plain Stop by (simp add: loop_piece_def)
    qed (use run_piece Stop in \<open>auto simp: ul_ecat_eventloop_stop_def\<close>)
  next
    case Start
    then show ?thesis using run_piece here
      by (intro follows_action [OF assms(4), of evt_action.Start "[]"]) (auto simp: loop_piece_def)
  next
    case Test
    then have "is = []" using assms(3) [of t] run_piece(2) by (cases "is") (auto simp: loop_last_def)
    moreover have "t = r" using here Test by (simp add: loop_piece_def)
    ultimately show ?thesis
    proof (cases "g_evt_queue (shared s) = [] \<or> g_evt_stop (shared s)")
      case True
      then show ?thesis using run_piece Test \<open>is = []\<close> \<open>t = r\<close>
        by (intro follows_same [OF assms(4)]) (auto split: if_splits)
    next
      case False
      then show ?thesis using run_piece Test \<open>is = []\<close> \<open>t = r\<close>
        by (intro follows_action [OF assms(4), of evt_action.Pass "[hd (g_evt_queue (shared s))]"])
          (auto simp: eventloop_pass_def neq_Nil_conv split: if_splits)
    qed
  next
    case Loop
    then show ?thesis using run_piece here by (intro follows_same [OF assms(4)]) (auto simp: loop_piece_def)
  next
    case (Deliver e)
    then have "t = r" using here by (simp add: loop_piece_def)
    obtain as acc tk m1 ds where f: "evt_run as m = (acc, tk, m1)" "g_evt_queue (shared s) = g_evt_queue m1"
      "g_evt_stop (shared s) = g_evt_stop m1" "delivered (shared s) = delivered m @ ds" "subseq (ds @ in_hand (code_of s r)) tk"
      by (rule followsE [OF assms(4)])
    let ?d = "if handles (shared s) e then [e] else []"
    have "subseq (ds @ ?d @ in_hand is) (ds @ e # in_hand is)"
      by (intro list_emb_append_mono) auto
    then have "subseq (ds @ in_hand (code_of s' r)) tk"
      using f(5) run_piece Deliver \<open>t = r\<close> by (auto elim: subseq_order.order_trans)
    then show ?thesis
      using f(2-4) run_piece Deliver by (intro followsI [OF f(1), of s' ds]) auto
  next
    case (Call_back e)
    then have "t = r" using here by (simp add: loop_piece_def)
    obtain as acc tk m1 ds where f: "evt_run as m = (acc, tk, m1)" "g_evt_queue (shared s) = g_evt_queue m1"
      "g_evt_stop (shared s) = g_evt_stop m1" "delivered (shared s) = delivered m @ ds" "subseq (ds @ in_hand (code_of s r)) tk"
      by (rule followsE [OF assms(4)])
    let ?d = "if handles (shared s) e then [e] else []"
    have "subseq (ds @ ?d @ in_hand is) (ds @ e # in_hand is)"
      by (intro list_emb_append_mono) auto
    then have "subseq ((ds @ ?d) @ in_hand is) tk"
      using f(5) run_piece(2) Call_back \<open>t = r\<close> by (auto elim: subseq_order.order_trans)
    then show ?thesis
      using f(2-4) run_piece Call_back \<open>t = r\<close> by (intro followsI [OF f(1), of s' "ds @ ?d"]) auto
  next
    case other
    then show ?thesis using exec_keeps(2) [OF ok(7) run_piece(3) other(1)] exec_delivered [OF ok(7) run_piece(3) other(3)]
        plain run_piece(1)
      by (intro follows_same [OF assms(4)]) simp_all
  qed
qed (use assms(4) in \<open>auto elim!: follows_same split: if_splits\<close>)


section \<open>Calls that run alone\<close>

text \<open>
  Code run to its end by one thread while the others do nothing: what it makes of the variables. The
  locks play no part, as nobody else holds one; waiting has no rule.
\<close>

inductive alone :: "'t port \<Rightarrow> instr list \<Rightarrow> 't master \<Rightarrow> 't master \<Rightarrow> bool" for port where
  alone_nil: "alone port [] m m"
| alone_lock: "alone port is m m' \<Longrightarrow> alone port (Os (Mutex_lock mx) # is) m m'"
| alone_unlock: "alone port is m m' \<Longrightarrow> alone port (Os (Mutex_unlock mx) # is) m m'"
| alone_signal: "alone port is m m' \<Longrightarrow> alone port (Os Cond_signal # is) m m'"
| alone_run: "exec port p m = Some (m1, js) \<Longrightarrow> alone port (js @ is) m1 m' \<Longrightarrow> alone port (Run p # is) m m'"

lemma alone_append: "alone port is m m1 \<Longrightarrow> alone port js m1 m' \<Longrightarrow> alone port (is @ js) m m'"
proof (induction rule: alone.induct)
  case (alone_run p m m1 ks "is" m2)
  then show ?case using alone.alone_run [of port p m m1 ks "is @ js" m'] by simp
qed (auto intro: alone.intros)

lemma alone_piece: "exec port p m = Some (m1, js) \<Longrightarrow> alone port js m1 m' \<Longrightarrow> alone port [Run p] m m'"
  by (rule alone_run) simp_all

lemma alone_step: "exec port p m = Some (m', []) \<Longrightarrow> alone port [Run p] m m'"
  using alone_piece [of port p m m' "[]" m'] alone_nil [of port m'] by simp

lemma alone_locked:
  "alone port is m m' \<Longrightarrow> alone port (Os (Mutex_lock mx) # is @ [Os (Mutex_unlock mx)]) m m'"
  by (intro alone_lock alone_append [of port "is"]) (auto intro: alone.intros)

lemma alone_post:
  "alone port (post_evt_code e) m (snd (post_evt e m))"
  "alone port (post_dc_code k off err) m (ul_ecat_eventloop_post_dc_event \<lparr>dc_event_kind = k, offset_ns = off, dc_error = err\<rparr> m)"
proof -
  have "alone port [Run (Post e)] m (snd (post_evt e m))" for e
  proof (rule alone_piece)
    show "exec port (Post e) m = Some (snd (post_evt e m), if fst (post_evt e m) then [osal ul_ecat_osal_evt_signal] else [])"
      by (simp add: split_beta)
    show "alone port (if fst (post_evt e m) then [osal ul_ecat_osal_evt_signal] else []) (snd (post_evt e m)) (snd (post_evt e m))"
      by (auto intro: alone.intros)
  qed
  then have post: "alone port (post_evt_code e) m (snd (post_evt e m))" for e
    using alone_locked [of port "[Run (Post e)]" m _ g_evt_lock] by (simp add: post_evt_code_def)
  then show "alone port (post_evt_code e) m (snd (post_evt e m))"
    "alone port (post_dc_code k off err) m (ul_ecat_eventloop_post_dc_event \<lparr>dc_event_kind = k, offset_ns = off, dc_error = err\<rparr> m)"
    by (simp_all add: post_dc_code_def ul_ecat_eventloop_post_dc_event_def)
qed

lemma alone_queue: "alone port [Run (Queue cmd adp ado data len)] m (queue_dgram cmd adp ado data len m)"
proof (cases "ul_ecat_dgram_encode DGRAM_BUF cmd (g_dgram_index_seq m) adp ado len 0 0 data")
  case None
  then have "alone port [Run (Queue_next (g_dgram_index_seq m) cmd adp ado data len)] m (queue_dgram cmd adp ado data len m)"
    by (intro alone_step) (simp add: queue_dgram_def)
  then show ?thesis by (rule alone_piece [OF exec.simps(2)])
next
  case (Some tmp)
  let ?m1 = "m\<lparr>g_dgram_index_seq := g_dgram_index_seq m + 1\<rparr>"
  have "alone port [Run (Push tmp)] ?m1 (snd (q_push_encoded tmp ?m1))" by (rule alone_step) simp
  from alone_locked [OF this, of g_q_mutex]
  have "alone port [Run (Queue_next (g_dgram_index_seq m) cmd adp ado data len)] m (queue_dgram cmd adp ado data len m)"
    using Some by (intro alone_piece [OF exec.simps(3)]) (simp add: queue_dgram_def)
  then show ?thesis by (rule alone_piece [OF exec.simps(2)])
qed

lemma alone_dc_response: "alone port [Run (Dc_response st)] m (handle_dc_response port st m)"
proof -
  obtain now m1 where w: "on_world (osal_monotonic_ns port) m = (now, m1)" by fastforce
  let ?off = "st - now" and ?m2 = "m1\<lparr>g_dc_offset := st - now, g_dc_timeout := 0\<rparr>"
  show ?thesis
  proof (cases "llabs ?off > g_dc_threshold_ns")
    case True
    then show ?thesis using w
      by (intro alone_piece [where ?m1.0 = "?m2\<lparr>g_dc_error_code := 1, g_dc_state := 3\<rparr>" and js = "post_dc_code UL_ECAT_DC_EVENT_ERROR ?off 1"])
        (simp_all add: handle_dc_response_def alone_post Let_def)
  next
    case False
    have "alone port ([Run (Queue UL_ECAT_CMD_FPWR 0 0x0920 (Some (le32 (ucast (- ?off)))) 4)] @ post_dc_code UL_ECAT_DC_EVENT_SYNC ?off 0)
        ?m2 (handle_dc_response port st m)"
      using False w by (intro alone_append [OF alone_queue]) (simp add: handle_dc_response_def ul_ecat_queue_fpwr_def alone_post Let_def)
    then show ?thesis using False w by (intro alone_piece [where ?m1.0 = ?m2]) (simp_all add: Let_def)
  qed
qed

lemma alone_rx_dgram: "alone port [Run (Rx_dgram pdu i)] m (process_rx_datagram port pdu i m)"
  by (rule alone_piece) (auto simp: process_rx_datagram_def alone_dc_response alone_nil split: option.split)

lemma alone_rx_dgrams:
  "alone port (map (\<lambda>i. Run (Rx_dgram pdu i)) is) m (foldl (\<lambda>m i. process_rx_datagram port pdu i m) m is)"
proof (induction "is" arbitrary: m)
  case (Cons i "is")
  from alone_append [OF alone_rx_dgram Cons] show ?case by simp
qed (simp add: alone_nil)

lemma alone_receive_one: "alone port (receive_code rx) m (receive_one port rx m)"
  by (auto simp: receive_code_def receive_one_def process_rx_datagrams_def ul_ecat_eventloop_post_frame_event_def Let_def
      alone_nil alone_post alone_rx_dgrams split: option.split intro: alone_append [OF alone_rx_dgrams])

lemma alone_receive_loop:
  assumes "receive_loop port m = Some m'"
  shows "alone port [Run Recv_next] m m'"
proof (rule receive_loop.raw_induct [where P = "\<lambda>port m m'. alone port [Run Recv_next] m m'", OF _ assms])
  fix loop and port :: "'t port" and m m'
  assume IH: "\<And>port m m'. loop port m = Some m' \<Longrightarrow> alone port [Run Recv_next] m m'"
    and run: "(case on_world (transport_recv port (g_sockfd m) 1600 True) m of (None, m1) \<Rightarrow> Some m1
      | (Some rx, m1) \<Rightarrow> loop port (receive_one port rx m1)) = Some m'"
  obtain r m1 where w: "on_world (transport_recv port (g_sockfd m) 1600 True) m = (r, m1)" by fastforce
  show "alone port [Run Recv_next] m m'"
  proof (cases r)
    case None
    then show ?thesis using w run by (intro alone_step) simp
  next
    case (Some rx)
    then have "alone port [Run Recv_next] (receive_one port rx m1) m'" using w run IH by simp
    from alone_append [OF alone_receive_one this] show ?thesis
      using w Some by (intro alone_piece) simp_all
  qed
qed

text \<open>The sequential meaning of a call; the event loop has none without other threads.\<close>

fun sequential :: "'t port \<Rightarrow> call \<Rightarrow> 't master \<Rightarrow> 't master option" where
  "sequential port (Call_exchange ec cap timeout) m = Some (snd (exchange_ec_payload port ec cap timeout m))"
| "sequential port (Call_queue cmd adp ado data len) m = Some (queue_dgram cmd adp ado data len m)"
| "sequential port Call_send_batched m = ul_ecat_send_batched_frames port m"
| "sequential port Call_receive m = ul_ecat_receive_frames_nonblock port m"
| "sequential port Call_dc_init m = Some (dc_init m)"
| "sequential port Call_dc_cycle m = Some (dc_cycle m)"
| "sequential port (Call_register_dc cb) m = Some (ul_ecat_register_dc_callback cb m)"
| "sequential port (Call_register_frame cb) m = Some (ul_ecat_register_frame_callback cb m)"
| "sequential port Call_eventloop_run m = None"
| "sequential port Call_eventloop_stop m = Some (ul_ecat_eventloop_stop m)"

lemma alone_dc_cycle: "alone port [Run Dc_cycle] m (dc_cycle m)"
proof (cases "g_dc_state m = 0 \<or> g_dc_state m = 3")
  case True
  then show ?thesis by (intro alone_step) (auto simp: dc_cycle_def)
next
  case False
  define m1 where "m1 = (if g_dc_state m = 1 then m\<lparr>g_dc_state := 2\<rparr> else m)"
  show ?thesis
  proof (cases "g_dc_state m1 = 2")
    case st: False
    then show ?thesis using False by (intro alone_step) (auto simp: dc_cycle_def m1_def split: if_splits)
  next
    case st: True
    let ?m2 = "ul_ecat_queue_fprd 0 0x0910 8 m1"
    let ?m3 = "?m2\<lparr>g_dc_timeout := g_dc_timeout ?m2 + 1\<rparr>"
    let ?js = "[Run (Queue UL_ECAT_CMD_FPRD 0 0x0910 None 8), Run Dc_timeout]"
    have seq: "dc_cycle m = (if g_dc_timeout ?m3 > 50 then ul_ecat_eventloop_post_dc_event
        \<lparr>dc_event_kind = UL_ECAT_DC_EVENT_ERROR, offset_ns = g_dc_offset ?m3, dc_error = 2\<rparr>
        (?m3\<lparr>g_dc_error_code := 2, g_dc_state := 3\<rparr>) else ?m3)"
      using False st by (cases "g_dc_state m = 1") (simp_all add: dc_cycle_def m1_def Let_def)
    have "alone port [Run Dc_timeout] ?m2 (dc_cycle m)"
    proof (cases "g_dc_timeout ?m3 > 50")
      case True
      then show ?thesis
        by (intro alone_piece [where ?m1.0 = "?m3\<lparr>g_dc_error_code := 2, g_dc_state := 3\<rparr>"
            and js = "post_dc_code UL_ECAT_DC_EVENT_ERROR (g_dc_offset ?m3) 2"])
          (simp_all add: seq alone_post Let_def del: One_nat_def)
    next
      case False
      then show ?thesis by (intro alone_step) (simp add: seq)
    qed
    then have "alone port ([Run (Queue UL_ECAT_CMD_FPRD 0 0x0910 None 8)] @ [Run Dc_timeout]) m1 (dc_cycle m)"
      by (intro alone_append [OF alone_queue]) (simp add: ul_ecat_queue_fprd_def)
    moreover have "exec port Dc_cycle m = Some (m1, ?js)" using False st by (simp add: m1_def Let_def)
    ultimately show ?thesis by (intro alone_piece) simp_all
  qed
qed

lemma alone_receive:
  assumes "ul_ecat_receive_frames_nonblock port m = Some m'"
  shows "alone port [Run Recv_start] m m'"
proof (cases "g_sockfd m < 0")
  case True
  then show ?thesis using assms by (intro alone_step) (simp add: ul_ecat_receive_frames_nonblock_def)
next
  case False
  obtain ret m1 where w: "on_world (transport_wait_readable port (g_sockfd m) 0) m = (ret, m1)" by fastforce
  show ?thesis
  proof (cases "ret \<le> 0")
    case True
    then show ?thesis using assms False w by (intro alone_step) (simp add: ul_ecat_receive_frames_nonblock_def)
  next
    case False
    then have "receive_loop port m1 = Some m'"
      using assms \<open>\<not> g_sockfd m < 0\<close> w by (simp add: ul_ecat_receive_frames_nonblock_def)
    from alone_receive_loop [OF this] show ?thesis
      using False \<open>\<not> g_sockfd m < 0\<close> w by (intro alone_piece) simp_all
  qed
qed

lemma alone_call:
  assumes "sequential port c m = Some m'"
  shows "alone port (call_code c) m m'"
proof (cases c)
  case (Call_exchange ec cap timeout)
  have "alone port [Run (Exchange ec cap timeout)] m m'" using assms Call_exchange by (intro alone_step) simp
  from alone_locked [OF this] Call_exchange show ?thesis by simp
next
  case Call_send_batched
  have "alone port [Run Batch] m m'" using assms Call_send_batched by (intro alone_step) simp
  from alone_locked [OF alone_locked [OF this, of g_q_mutex], of g_trx_mutex] Call_send_batched show ?thesis by simp
next
  case Call_receive
  then show ?thesis using alone_locked [OF alone_receive, of port m m' g_trx_mutex] assms by simp
next
  case Call_dc_init
  then show ?thesis using assms
    by (auto simp: dc_init_def intro!: alone_piece [where ?m1.0 = "m\<lparr>g_dc_state := 1, g_dc_offset := 0, g_dc_timeout := 0, g_dc_error_code := 0\<rparr>"
        and js = "post_dc_code UL_ECAT_DC_EVENT_INIT 0 0"] simp: alone_post)
next
  case (Call_register_dc cb)
  have "alone port [Run (Set_dc_callback cb)] m m'" using assms Call_register_dc by (intro alone_step) simp
  from alone_locked [OF this, of g_evt_lock] Call_register_dc show ?thesis by simp
next
  case (Call_register_frame cb)
  have "alone port [Run (Set_frame_callback cb)] m m'" using assms Call_register_frame by (intro alone_step) simp
  from alone_locked [OF this, of g_evt_lock] Call_register_frame show ?thesis by simp
next
  case Call_eventloop_stop
  have "alone port [Run Set_stop] m m'"
    using assms Call_eventloop_stop by (intro alone_piece [where js = "[osal ul_ecat_osal_evt_signal]"]) (auto intro: alone.intros)
  from alone_locked [OF this, of g_evt_lock] Call_eventloop_stop show ?thesis by simp
qed (use assms alone_queue alone_dc_cycle in auto)

text \<open>Back to the threads: with nobody else under way, the steps of one thread do the same.\<close>

lemma run_trans: "thread_run port r ts s s1 \<Longrightarrow> thread_run port r us s1 s' \<Longrightarrow> thread_run port r (ts @ us) s s'"
proof (induction us arbitrary: s' rule: rev_induct)
  case Nil
  then show ?case by (auto elim: thread_run.cases)
next
  case (snoc t us)
  from snoc.prems(2) obtain s2 where "thread_run port r us s1 s2" "thread_step port r t s2 s'"
    by (auto elim: thread_run.cases)
  with snoc.IH [OF snoc.prems(1) this(1)] show ?case using run_snoc [of port r "ts @ us"] by simp
qed

lemma run_step: "thread_step port r t s s1 \<Longrightarrow> thread_run port r ts s1 s' \<Longrightarrow> \<exists>us. thread_run port r us s s' \<and> set us \<subseteq> insert t (set ts)"
  using run_trans [OF run_snoc [OF run_nil]] by (intro exI [of _ "[t] @ ts"]) auto

definition solo :: "'t master \<Rightarrow> nat \<Rightarrow> osal_mutex set \<Rightarrow> instr list \<Rightarrow> 't threads" where
  "solo m t H is = \<lparr>shared = m, owner = (\<lambda>mx. if mx \<in> H then Some t else None), asleep = {}, code_of = (\<lambda>_. [])(t := is)\<rparr>"

lemma solo_run:
  assumes "alone port is m m'" "disciplined H is H'"
  shows "\<exists>ts. thread_run port r ts (solo m t H is) (solo m' t H' []) \<and> set ts \<subseteq> {t}"
  using assms
proof (induction arbitrary: H rule: alone.induct)
  case (alone_nil m)
  then show ?case by (intro exI [of _ "[]"]) (auto intro: run_nil)
next
  case (alone_lock "is" m m' mx)
  then have "disciplined (insert mx H) is H'" by simp
  from alone_lock.IH [OF this] obtain ts where ts: "thread_run port r ts (solo m t (insert mx H) is) (solo m' t H' [])" "set ts \<subseteq> {t}"
    by blast
  have "mx \<notin> H" using alone_lock.prems by auto
  then have "thread_step port r t (solo m t H (Os (Mutex_lock mx) # is))
      ((solo m t H (Os (Mutex_lock mx) # is))\<lparr>owner := (owner (solo m t H (Os (Mutex_lock mx) # is)))(mx := Some t),
        code_of := (code_of (solo m t H (Os (Mutex_lock mx) # is)))(t := is)\<rparr>)"
    by (intro take_lock) (simp_all add: solo_def)
  also have "\<dots> = solo m t (insert mx H) is" by (auto simp: solo_def)
  finally show ?case using run_step [OF _ ts(1), of t] ts(2) by fastforce
next
  case (alone_unlock "is" m m' mx)
  then obtain ts where ts: "thread_run port r ts (solo m t (H - {mx}) is) (solo m' t H' [])" "set ts \<subseteq> {t}"
    using alone_unlock.IH [of "H - {mx}"] by auto
  have "mx \<in> H" using alone_unlock.prems by auto
  then have "thread_step port r t (solo m t H (Os (Mutex_unlock mx) # is))
      ((solo m t H (Os (Mutex_unlock mx) # is))\<lparr>owner := (owner (solo m t H (Os (Mutex_unlock mx) # is)))(mx := None),
        code_of := (code_of (solo m t H (Os (Mutex_unlock mx) # is)))(t := is)\<rparr>)"
    by (intro give_lock) (simp_all add: solo_def)
  also have "\<dots> = solo m t (H - {mx}) is" by (auto simp: solo_def)
  finally show ?case using run_step [OF _ ts(1), of t] ts(2) by fastforce
next
  case (alone_signal "is" m m')
  then obtain ts where ts: "thread_run port r ts (solo m t H is) (solo m' t H' [])" "set ts \<subseteq> {t}" by auto
  have "thread_step port r t (solo m t H (Os Cond_signal # is))
      ((solo m t H (Os Cond_signal # is))\<lparr>code_of := (code_of (solo m t H (Os Cond_signal # is)))(t := is)\<rparr>)"
    by (intro signal_none) (simp_all add: solo_def)
  also have "\<dots> = solo m t H is" by (auto simp: solo_def)
  finally show ?case using run_step [OF _ ts(1), of t] ts(2) by fastforce
next
  case (alone_run p m m1 js "is" m')
  have "disciplined H (js @ is) H'"
    using disciplined_append [OF exec_disciplined [OF _ alone_run.hyps(1)]] alone_run.prems by auto
  with alone_run.IH obtain ts where ts: "thread_run port r ts (solo m1 t H (js @ is)) (solo m' t H' [])" "set ts \<subseteq> {t}" by auto
  have "thread_step port r t (solo m t H (Run p # is))
      ((solo m t H (Run p # is))\<lparr>shared := m1, code_of := (code_of (solo m t H (Run p # is)))(t := js @ is)\<rparr>)"
    using alone_run.hyps(1) by (intro thread_step.run_piece [where p = p]) (simp_all add: solo_def)
  also have "\<dots> = solo m1 t H (js @ is)" by (auto simp: solo_def)
  finally show ?case using run_step [OF _ ts(1), of t] ts(2) by fastforce
qed

text \<open>
  Property C5. A call that no other thread interferes with goes, lock by lock, from the idle
  system to the idle system, and leaves the variables as the sequential model of that function
  does.
\<close>

theorem calls_alone:
  assumes "sequential port c m = Some m'"
  shows "\<exists>ts. thread_run port r ts (all_idle m) (all_idle m') \<and> set ts = {t}"
proof -
  have c: "c = Call_eventloop_run \<longrightarrow> t = r" using assms by (cases c) simp_all
  obtain ts where ts: "thread_run port r ts (solo m t {} (call_code c)) (solo m' t {} [])" "set ts \<subseteq> {t}"
    using solo_run [OF alone_call [OF assms] call_disciplined] by blast
  have "thread_step port r t (all_idle m) ((all_idle m)\<lparr>code_of := (code_of (all_idle m))(t := call_code c)\<rparr>)"
    using c by (intro begin_call) (simp_all add: all_idle_def)
  also have "\<dots> = solo m t {} (call_code c)" by (auto simp: all_idle_def solo_def)
  finally have "thread_run port r ([t] @ ts) (all_idle m) (solo m' t {} [])"
    using run_trans [OF run_snoc [OF run_nil] ts(1)] by (metis append_Nil)
  moreover have "solo m' t {} [] = all_idle m'" by (simp add: solo_def all_idle_def fun_eq_iff)
  ultimately show ?thesis using ts(2) by (intro exI [of _ "[t] @ ts"]) auto
qed

section \<open>Schedules\<close>

text \<open>
  One step of a chosen thread, computed: what it does when it is idle is given, and a signal wakes
  the first sleeper.
\<close>

fun advance :: "'t port \<Rightarrow> nat \<Rightarrow> nat \<times> call \<Rightarrow> 't threads \<Rightarrow> 't threads option" where
  "advance port r (t, c) s =
     (case code_of s t of
        [] \<Rightarrow> if c = Call_eventloop_run \<and> t \<noteq> r then None else Some (s\<lparr>code_of := (code_of s)(t := call_code c)\<rparr>)
      | Run p # is \<Rightarrow>
          (case exec port p (shared s) of
             None \<Rightarrow> None
           | Some (m', is') \<Rightarrow> Some (s\<lparr>shared := m', code_of := (code_of s)(t := is' @ is)\<rparr>))
      | Os (Mutex_lock mx) # is \<Rightarrow>
          if t \<in> asleep s \<or> owner s mx \<noteq> None then None
          else Some (s\<lparr>owner := (owner s)(mx := Some t), code_of := (code_of s)(t := is)\<rparr>)
      | Os (Mutex_unlock mx) # is \<Rightarrow>
          if owner s mx \<noteq> Some t then None
          else Some (s\<lparr>owner := (owner s)(mx := None), code_of := (code_of s)(t := is)\<rparr>)
      | Os (Cond_wait mx) # is \<Rightarrow>
          if owner s mx \<noteq> Some t then None
          else Some (s\<lparr>owner := (owner s)(mx := None), asleep := insert t (asleep s),
            code_of := (code_of s)(t := Os (Mutex_lock mx) # is)\<rparr>)
      | Os Cond_signal # is \<Rightarrow>
          if asleep s = {} then Some (s\<lparr>code_of := (code_of s)(t := is)\<rparr>)
          else if finite (asleep s) then Some (s\<lparr>asleep := asleep s - {Min (asleep s)}, code_of := (code_of s)(t := is)\<rparr>)
          else None)"

fun play :: "'t port \<Rightarrow> nat \<Rightarrow> (nat \<times> call) list \<Rightarrow> 't threads \<Rightarrow> 't threads option" where
  "play port r [] s = Some s"
| "play port r (x # xs) s = (case advance port r x s of None \<Rightarrow> None | Some s' \<Rightarrow> play port r xs s')"

lemma advance_step: "advance port r (t, c) s = Some s' \<Longrightarrow> thread_step port r t s s'"
  by (auto split: list.splits instr.splits osal_prim.splits option.splits if_splits intro: thread_step.intros Min_in)

lemma play_run: "play port r xs s = Some s' \<Longrightarrow> thread_run port r (map fst xs) s s'"
proof (induction xs arbitrary: s)
  case Nil
  then show ?case by (simp add: run_nil)
next
  case (Cons x xs)
  obtain t c where x: "x = (t, c)" by fastforce
  obtain s1 where "advance port r x s = Some s1" "play port r xs s1 = Some s'"
    using Cons.prems by (auto split: option.splits)
  with Cons.IH [of s1] advance_step [of port r t c s s1] show ?case
    using run_trans [OF run_snoc [OF run_nil], of port r t s s1] x by fastforce
qed

lemma play_reachable: "play port r xs (all_idle m) = Some s \<Longrightarrow> reachable port r m s"
  by (auto simp: reachable_def dest: play_run)

section \<open>Witnesses\<close>

text \<open>
  The loop has gone to sleep on an empty queue; another thread asks it to stop and is about to signal.
\<close>

definition demo_schedule :: "(nat \<times> call) list" where
  "demo_schedule = replicate 8 (0, Call_eventloop_run) @ replicate 3 (1, Call_eventloop_stop)"

definition demo_threads :: "(nat \<times> bytes list) threads" where
  "demo_threads =
     \<lparr>shared = (idle_master (0, []))\<lparr>g_evt_stop := True\<rparr>, owner = (\<lambda>_. None)(g_evt_lock := Some 1), asleep = {0},
      code_of = (\<lambda>_. [])(0 := [Os (Mutex_lock g_evt_lock), Run Loop_test], 1 := [Os Cond_signal, Os (Mutex_unlock g_evt_lock)])\<rparr>"

lemma idle_evt: "g_evt_queue (idle_master w) = []" "\<not> g_evt_stop (idle_master w)"
  by (simp_all add: idle_master_def)

lemma demo_schedule: "play port 0 demo_schedule (all_idle (idle_master (0, []))) = Some demo_threads"
  by (simp add: demo_schedule_def numeral_eq_Suc all_idle_def ul_ecat_eventloop_stop_def idle_evt demo_threads_def
      fun_eq_iff idle_master_def)

lemma demo_reachable: "reachable port 0 (idle_master (0, [])) demo_threads"
  by (rule play_reachable [OF demo_schedule])

lemma demo_code: "code_of demo_threads 0 = [Os (Mutex_lock g_evt_lock), Run Loop_test]"
  "code_of demo_threads (Suc 0) = [Os Cond_signal, Os (Mutex_unlock g_evt_lock)]"
  "asleep demo_threads = {0}" "g_evt_stop (shared demo_threads)"
  by (simp_all add: demo_threads_def)

theorem threads_never_deadlock_witness:
  "\<exists>u s'. code_of demo_threads u \<noteq> [] \<and> u \<notin> asleep demo_threads \<and> thread_step silent_port 0 u demo_threads s'"
  using threads_never_deadlock [OF demo_reachable, of "Suc 0" silent_port] by (simp add: demo_code)

theorem no_lost_wakeup_witness:
  "\<exists>u is. owner demo_threads g_evt_lock = Some u \<and> code_of demo_threads u = osal ul_ecat_osal_evt_signal # is \<and>
     (\<forall>s'. thread_step silent_port 0 u demo_threads s' \<longrightarrow> 0 \<notin> asleep s')"
  using no_lost_wakeup [OF demo_reachable, of 0 silent_port] by (simp add: demo_code)



abbreviation demo_idle :: "(nat \<times> bytes list) master" where
  "demo_idle \<equiv> idle_master (0, [])"


theorem calls_alone_witness:
  "\<exists>ts. thread_run silent_port 0 ts (all_idle (idle_master (0, []))) (all_idle (dc_init (idle_master (0, [])))) \<and> set ts = {1}"
  using calls_alone [of silent_port Call_dc_init "idle_master (0, [])" "dc_init (idle_master (0, []))" 0 1] by simp

end
