(* ===== verification/Races.thy ===== *)
theory Races
  imports ThreadProps
begin

text \<open>
  Races of the master's threads: what the code does not protect with a lock, shown on schedules that
  \<open>Threads\<close> allows. Two requests queued at the same time can get the same index
  (\<open>index_race\<close>), and a callback that is unregistered between its test and its call is called all
  the same (\<open>unregister_race\<close>); as long as nobody unregisters one, every callback is there when it is
  called (\<open>callbacks_registered\<close>, by an invariant on calm runs).
\<close>

section \<open>Two requests with one index\<close>

lemma encoded_fits: "ul_ecat_dgram_encode cap cmd idx adp ado len irq wkc data = Some w \<Longrightarrow> length w \<le> cap"
  by (auto simp: ul_ecat_dgram_encode_def Let_def ul_ecat_dgram_wire_size_def split: if_splits option.splits)

lemma encoded_index: "ul_ecat_dgram_encode cap cmd idx adp ado len irq wkc data = Some w \<Longrightarrow> w ! 1 = idx"
  by (auto simp: ul_ecat_dgram_encode_def Let_def split: if_splits option.splits)

definition race_for_index :: "nat \<Rightarrow> call \<Rightarrow> nat \<Rightarrow> call \<Rightarrow> (nat \<times> call) list" where
  "race_for_index t c u d = [(t, c), (u, d), (t, c), (u, d), (t, c), (u, d), (t, c), (t, c), (t, c), (u, d), (u, d), (u, d)]"

text \<open>
  The index of a queued datagram is not unique: from an empty queue, any two
  encodable requests that two threads queue at the same time can end up queued with the same index
  byte, and the index counter has then advanced by one only.
\<close>

theorem index_race:
  fixes t u :: nat
  assumes "g_q m = []" "t \<noteq> u"
    and "ul_ecat_dgram_encode DGRAM_BUF c1 (g_dgram_index_seq m) a1 o1 n1 0 0 d1 = Some w1"
    and "ul_ecat_dgram_encode DGRAM_BUF c2 (g_dgram_index_seq m) a2 o2 n2 0 0 d2 = Some w2"
  shows "\<exists>s. reachable port r m s \<and> code_of s = (\<lambda>_. []) \<and> g_q (shared s) = [w1, w2] \<and> w1 ! 1 = w2 ! 1 \<and>
    g_dgram_index_seq (shared s) = g_dgram_index_seq m + 1"
proof -
  let ?m = "m\<lparr>g_dgram_index_seq := g_dgram_index_seq m + 1, g_q := [w1, w2]\<rparr>"
  define s where "s = \<lparr>shared = ?m, owner = (\<lambda>_. None), asleep = {}, code_of = (\<lambda>_. [])\<rparr>"
  have fit: "length w1 \<le> DGRAM_BUF" "length w2 \<le> DGRAM_BUF" using assms(3,4) encoded_fits by blast+
  have "play port r (race_for_index t (Call_queue c1 a1 o1 d1 n1) u (Call_queue c2 a2 o2 d2 n2)) (all_idle m) =
      Some s"
    using assms fit by (simp add: s_def race_for_index_def all_idle_def q_push_encoded_def fun_upd_idem fun_eq_iff)
  from play_reachable [OF this] show ?thesis
    using encoded_index [OF assms(3)] encoded_index [OF assms(4)] by (intro exI [of _ s]) (simp add: s_def)
qed

section \<open>A callback that goes away\<close>

fun unregister :: "event \<Rightarrow> call" where
  "unregister (EV_DC _) = Call_register_dc False"
| "unregister (EV_FRAME _ _) = Call_register_frame False"

text \<open>
  A callback can be called after it has been unregistered: with an event queued and
  its callback registered, a thread that unregisters the callback while the event loop is between
  its test and its call leaves the loop about to call through a null pointer.
\<close>

theorem unregister_race:
  fixes t r :: nat
  assumes "g_evt_queue m = e # es" "handles m e" "t \<noteq> r"
  shows "\<exists>s is. reachable port r m s \<and> code_of s r = Run (Call_back e) # is \<and> \<not> handles (shared s) e"
proof -
  let ?c = "unregister e"
  define m1 where "m1 = (case e of EV_DC _ \<Rightarrow> ul_ecat_register_dc_callback False | EV_FRAME _ _ \<Rightarrow> ul_ecat_register_frame_callback False)
    (m\<lparr>g_evt_stop := False, g_evt_queue := es\<rparr>)"
  have h: "handles (m\<lparr>g_evt_stop := False, g_evt_queue := es\<rparr>) e"
    using assms(2) by (cases e) simp_all
  define s where "s = \<lparr>shared = m1, owner = (\<lambda>_. None), asleep = {}, code_of = (\<lambda>_. [])(r := [Run (Call_back e), Run Loop])\<rparr>"
  have "play port r (replicate 9 (r, Call_eventloop_run) @ replicate 4 (t, ?c)) (all_idle m) =
      Some s"
    using assms h by (cases e) (simp_all add: s_def m1_def all_idle_def fun_eq_iff numeral_eq_Suc)
  from play_reachable [OF this] have "reachable port r m s" .
  moreover have "\<not> handles m1 e"
    by (cases e) (simp_all add: m1_def ul_ecat_register_dc_callback_def ul_ecat_register_frame_callback_def)
  ultimately show ?thesis by (intro exI [of _ s] exI [of _ "[Run Loop]"]) (simp add: s_def)
qed

text \<open>Without calls that unregister one, a callback is there when it is called.\<close>

definition unregisters :: "instr list \<Rightarrow> bool" where
  "unregisters is \<longleftrightarrow> Run (Set_dc_callback False) \<in> set is \<or> Run (Set_frame_callback False) \<in> set is"

inductive calm_run :: "'t port \<Rightarrow> nat \<Rightarrow> 't threads \<Rightarrow> 't threads \<Rightarrow> bool" for port r where
  calm_nil: "calm_run port r s s"
| calm_snoc: "calm_run port r s s1 \<Longrightarrow> thread_step port r t s1 s' \<Longrightarrow> \<forall>u. \<not> unregisters (code_of s' u) \<Longrightarrow> calm_run port r s s'"

lemma world_handles: "handles (snd (on_world f m)) = handles m"
  using on_world_keeps [OF prod.collapse [symmetric], of f m] by simp

lemma exchange_handles: "exchange_ec_payload port ec cap t m = (r, m') \<Longrightarrow> handles m' = handles m"
  by (auto simp: exchange_ec_payload_def send_ec_payload_def recv_eth_frame_def
      split: option.splits prod.splits if_splits dest!: on_world_keeps)

lemma batch_handles: "ul_ecat_send_batched_frames port m = Some m' \<Longrightarrow> dq.queue_ok m \<Longrightarrow> handles m' = handles m"
proof -
  assume run: "ul_ecat_send_batched_frames port m = Some m'" and "dq.queue_ok m"
  then have 1: "\<forall>d \<in> set (g_q m). length d \<le> DGRAM_BUF" by (simp add: dq.queue_ok_def dgram_fits_def)
  obtain fs where f: "batch_loop port (g_q m) m = Some (foldl (send_frame port) m fs)"
    using batch_loop_batching [OF 1, of m port] by blast
  have h: "handles (foldl (send_frame port) m fs) = handles m"
    by (induction fs arbitrary: m) (simp_all add: send_frame_def world_handles)
  have "handles (m0\<lparr>g_q := q\<rparr>) = handles m0" for m0 :: "'a master" and q by (rule handles_cong) simp_all
  then show ?thesis using run f h by (auto simp: ul_ecat_send_batched_frames_def split: if_splits)
qed

lemma exec_handles:
  assumes "dq.queue_ok m" "exec port p m = Some (m', is)" "p \<noteq> Set_dc_callback False" "p \<noteq> Set_frame_callback False" "handles m e"
  shows "handles m' e"
proof (cases p)
  case (Exchange ec cap t)
  obtain r m1 where "exchange_ec_payload port ec cap t m = (r, m1)" by fastforce
  from exchange_handles [OF this] this Exchange assms show ?thesis by auto
next
  case Batch
  then show ?thesis using assms(2,5) batch_handles [OF _ assms(1), of port m'] by auto
next
  case (Dc_response st)
  obtain now m1 where "on_world (osal_monotonic_ns port) m = (now, m1)" by fastforce
  with on_world_keeps [OF this] assms(2,5) Dc_response show ?thesis
    by (cases e) (auto simp: Let_def split: if_splits dest!: fun_cong [of "handles m1" "handles m" e])
qed (use assms in \<open>cases e; auto simp: Let_def post_evt_def q_push_encoded_def ul_ecat_register_dc_callback_def
      ul_ecat_register_frame_callback_def ul_ecat_eventloop_stop_def split: prod.splits option.splits if_splits
      dest!: on_world_keeps dest: fun_cong [of _ _ e]\<close>)+


lemma exec_call_back:
  assumes "exec port p m = Some (m', is)" "Run (Call_back e) \<in> set is"
  shows "m' = m \<and> handles m e"
proof (cases "loop_piece p")
  case True
  then show ?thesis using assms by (auto simp: loop_piece_def split: if_splits)
next
  case False
  then show ?thesis using exec_plain(1) [OF assms(1) False assms(2)] by (simp add: loop_piece_def)
qed

definition calm :: "'t threads \<Rightarrow> bool" where
  "calm s \<longleftrightarrow> (\<forall>u. \<not> unregisters (code_of s u)) \<and> (\<forall>u e. Run (Call_back e) \<in> set (code_of s u) \<longrightarrow> handles (shared s) e)"

lemma calmD:
  assumes "calm s"
  shows "Run (Call_back e) \<in> set (code_of s u) \<Longrightarrow> handles (shared s) e"
    and "code_of s u = i # is \<Longrightarrow> Run (Call_back e) \<in> set is \<Longrightarrow> handles (shared s) e"
proof -
  show all: "Run (Call_back e) \<in> set (code_of s u) \<Longrightarrow> handles (shared s) e" for u
    using assms by (simp add: calm_def)
  show "code_of s u = i # is \<Longrightarrow> Run (Call_back e) \<in> set is \<Longrightarrow> handles (shared s) e"
    using all [of u] by simp
qed

lemma calm_step:
  assumes "thread_step port r t s s'" "calm s" "dq.queue_ok (shared s)" "\<forall>u. \<not> unregisters (code_of s' u)"
  shows "calm s'"
proof -
  have "handles (shared s') e" if there: "Run (Call_back e) \<in> set (code_of s' u)" for u e
    using assms(1)
  proof (cases rule: thread_step.cases)
    case (begin_call c)
    have "Run (Call_back e) \<notin> set (call_code c)" by (cases c) simp_all
    then show ?thesis using there begin_call calmD(1) [OF assms(2)] by (auto split: if_splits)
  next
    case (run_piece p "is" m' is')
    then have "p \<noteq> Set_dc_callback False" "p \<noteq> Set_frame_callback False"
      using assms(2) unfolding calm_def unregisters_def by (metis list.set_intros(1))+
    note keep = exec_handles [OF assms(3) run_piece(3) this, of e]
    show ?thesis
    proof (cases "u = t \<and> Run (Call_back e) \<in> set is'")
      case True
      then show ?thesis using exec_call_back [OF run_piece(3)] run_piece(1) by auto
    next
      case False
      then have "Run (Call_back e) \<in> set (code_of s u)" using there run_piece(1,2) by (auto split: if_splits)
      then show ?thesis using keep run_piece(1) assms(2) by (auto simp: calm_def)
    qed
  qed (use there calmD [OF assms(2)] in \<open>auto split: if_splits\<close>)
  then show ?thesis using assms(4) by (simp add: calm_def)
qed

text \<open>
  Property C26. As long as no thread unregisters a callback, the event loop only calls callbacks
  that are registered, whatever the threads do otherwise.
\<close>

theorem callbacks_registered:
  assumes "calm_run port r (all_idle m) s" "length (g_q m) \<le> Q_MAX" "\<forall>d \<in> set (g_q m). length d \<le> DGRAM_BUF"
    and "code_of s u = Run (Call_back e) # is"
  shows "handles (shared s) e"
proof -
  have q: "dq.queue_ok m" using assms(2,3) by (simp add: dq.queue_ok_def dgram_fits_def)
  have "calm s \<and> reachable port r m s"
    using assms(1)
  proof (induction "all_idle m" s rule: calm_run.induct)
    case calm_nil
    show ?case by (auto simp: calm_def all_idle_def unregisters_def reachable_def intro: run_nil)
  next
    case (calm_snoc s1 t s')
    then have "reachable port r m s'" by (auto simp: reachable_def intro: run_snoc)
    moreover have "dq.queue_ok (shared s1)" using threads_okD(7) [OF reachable_ok [OF q]] calm_snoc by blast
    ultimately show ?case using calm_step calm_snoc by blast
  qed
  then show ?thesis unfolding calm_def by (metis assms(4) list.set_intros(1))
qed

section \<open>Witnesses\<close>

lemma demo_requests:
  "ul_ecat_dgram_encode DGRAM_BUF UL_ECAT_CMD_FPRD 0 0x1000 0x130 2 0 0 None = Some [4, 0, 0, 0x10, 0x30, 1, 2, 0, 0, 0, 0, 0, 0, 0]"
  "ul_ecat_dgram_encode DGRAM_BUF UL_ECAT_CMD_FPRD 0 0 0x910 8 0 0 None = Some [4, 0, 0, 0, 0x10, 9, 8, 0, 0, 0, 0, 0, 0, 0, 0, 0, 0, 0, 0, 0]"
  by code_simp+

text \<open>A read of the application against the DC read of the periodic thread.\<close>

theorem index_race_witness:
  "\<exists>s w1 w2. reachable silent_port 0 demo_idle s \<and> g_q (shared s) = [w1, w2] \<and> w1 \<noteq> w2 \<and> w1 ! 1 = w2 ! 1"
proof -
  have "g_q demo_idle = []" "(1 :: nat) \<noteq> 2" by simp_all
  from index_race [OF this, of UL_ECAT_CMD_FPRD "0x1000" "0x130" 2 None _ UL_ECAT_CMD_FPRD 0 "0x910" 8 None _ silent_port 0]
  show ?thesis using demo_requests by fastforce
qed

definition demo_loop :: "(nat \<times> bytes list) master" where
  "demo_loop = (idle_master (0, []))\<lparr>g_evt_queue := [demo_event], g_cb_dc := True\<rparr>"

theorem unregister_race_witness:
  "\<exists>s is. reachable silent_port 0 demo_loop s \<and> code_of s 0 = Run (Call_back demo_event) # is \<and> \<not> g_cb_dc (shared s)"
  using unregister_race [of demo_loop demo_event "[]" 1 0 silent_port] by (simp add: demo_loop_def)

fun calm_play :: "'t port \<Rightarrow> nat \<Rightarrow> (nat \<times> call) list \<Rightarrow> 't threads \<Rightarrow> 't threads option" where
  "calm_play port r [] s = Some s"
| "calm_play port r (x # xs) s =
     (case advance port r x s of
        None \<Rightarrow> None
      | Some s' \<Rightarrow> if unregisters (code_of s' (fst x)) then None else calm_play port r xs s')"

lemma advance_others: "advance port r (t, c) s = Some s' \<Longrightarrow> u \<noteq> t \<Longrightarrow> code_of s' u = code_of s u"
  by (auto split: list.splits instr.splits osal_prim.splits option.splits if_splits)

lemma calm_play_run:
  "calm_play port r xs s = Some s' \<Longrightarrow> calm_run port r s0 s \<Longrightarrow> \<forall>u. \<not> unregisters (code_of s u) \<Longrightarrow> calm_run port r s0 s'"
proof (induction xs arbitrary: s)
  case (Cons x xs)
  obtain t c where x: "x = (t, c)" by fastforce
  obtain s1 where s1: "advance port r (t, c) s = Some s1" "\<not> unregisters (code_of s1 t)" "calm_play port r xs s1 = Some s'"
    using Cons.prems(1) x by (auto split: option.splits if_splits)
  have "\<forall>u. \<not> unregisters (code_of s1 u)"
    using advance_others [OF s1(1)] Cons.prems(3) s1(2) by metis
  with Cons.IH [OF s1(3)] calm_snoc [OF Cons.prems(2) advance_step [OF s1(1)]] show ?case by blast
qed simp

theorem callbacks_registered_witness:
  "\<exists>s. calm_run silent_port 0 (all_idle demo_loop) s \<and> code_of s 0 = [Run (Call_back demo_event), Run Loop] \<and> handles (shared s) demo_event"
proof -
  define s where "s = \<lparr>shared = demo_loop\<lparr>g_evt_queue := [], g_evt_stop := False\<rparr>, owner = (\<lambda>_. None), asleep = {},
    code_of = (\<lambda>_. [])(0 := [Run (Call_back demo_event), Run Loop])\<rparr>"
  have "calm_play silent_port 0 (replicate 9 (0, Call_eventloop_run)) (all_idle demo_loop) = Some s"
    by (simp add: all_idle_def numeral_eq_Suc unregisters_def demo_loop_def s_def fun_eq_iff)
  then have run: "calm_run silent_port 0 (all_idle demo_loop) s"
    by (rule calm_play_run) (simp_all add: calm_nil all_idle_def unregisters_def)
  moreover have "code_of s 0 = [Run (Call_back demo_event), Run Loop]" by (simp add: s_def)
  ultimately show ?thesis using callbacks_registered [OF run, of 0 demo_event "[Run Loop]"] by (auto simp: demo_loop_def)
qed

end
