(* ===== verification/Harness.thy ===== *)
theory Harness
  imports SlavePdu MasterCli
begin

text \<open>
  The TCP test server around the slave, \<open>tools/ul_ecat_slave_harness.c\<close>: \<open>read_full\<close> and
  \<open>write_full\<close>, the request loop of a connection, the loop over connections.

  A connection is a \<open>sock\<close>: what \<open>read\<close> and \<open>write\<close> do. The request loop may go on for as long as
  the client does, so \<open>serve_conn\<close> is a partial function. The contract of a connected stream socket
  is the locale \<open>byte_stream\<close>, in which the loops are proved correct; it is interpreted on a socket
  whose network splits the traffic arbitrarily. Start-up takes the answers of \<open>getopt\<close> and ends with an
  exit code or a listening socket; the clients are the list of connections accepted on it.
\<close>

section \<open>Sockets\<close>

text \<open>
  What the harness uses of a connection: \<open>read\<close>, whose result is empty for the end of the stream
  and for an error, and \<open>write\<close>, whose result is the number of bytes taken, 0 for an error.
\<close>

record 't sock =
  sock_read :: "nat \<Rightarrow> 't \<Rightarrow> bytes \<times> 't"
  sock_write :: "bytes \<Rightarrow> 't \<Rightarrow> nat \<times> 't"

function read_full :: "'t sock \<Rightarrow> nat \<Rightarrow> 't \<Rightarrow> bytes option \<times> 't" where
  "read_full sk n t =
     (if n = 0 then (Some [], t)
      else
        let (b, t1) = sock_read sk n t in
        if b = [] then (None, t1)
        else
          let (r, t2) = read_full sk (n - length b) t1 in
          (map_option (\<lambda>bs. b @ bs) r, t2))"
  by pat_completeness auto
termination
  by (relation "measure (\<lambda>(_, n, _). n)") auto

function write_full :: "'t sock \<Rightarrow> bytes \<Rightarrow> 't \<Rightarrow> bool \<times> 't" where
  "write_full sk p t =
     (if p = [] then (True, t)
      else
        let (w, t1) = sock_write sk p t in
        if w = 0 then (False, t1) else write_full sk (drop w p) t1)"
  by pat_completeness auto
termination
  by (relation "measure (\<lambda>(_, p, _). length p)") auto

declare read_full.simps [simp del] write_full.simps [simp del]

section \<open>Serving a client\<close>

definition be32 :: "nat \<Rightarrow> bytes" where
  "be32 n = rev (le32 (word_of_nat n))"

definition of_be32 :: "bytes \<Rightarrow> nat" where
  "of_be32 b = unat (of_le32 (b ! 3) (b ! 2) (b ! 1) (b ! 0))"

abbreviation HARNESS_BUF :: nat where "HARNESS_BUF \<equiv> 2048"

text \<open>
  One pass of the loop over requests: the request is read, executed and answered. The flag tells
  whether the connection stays open.
\<close>

definition serve_request :: "'t sock \<Rightarrow> slave \<Rightarrow> 't \<Rightarrow> bool \<times> slave \<times> 't" where
  "serve_request sk s t =
     (case read_full sk 4 t of
        (None, t1) \<Rightarrow> (False, s, t1)
      | (Some nbe, t1) \<Rightarrow>
          let n = of_be32 nbe in
          if n = 0 \<or> n > HARNESS_BUF then (False, s, snd (write_full sk (be32 0) t1))
          else
            (case read_full sk n t1 of
               (None, t2) \<Rightarrow> (False, s, t2)
             | (Some rx, t2) \<Rightarrow>
                 (case ul_ecat_slave_process_ethernet s rx HARNESS_BUF of
                    (None, s1) \<Rightarrow>
                      let (ok, t3) = write_full sk (be32 0) t2 in (ok, s1, t3)
                  | (Some tx, s1) \<Rightarrow>
                      let (ok, t3) = write_full sk (be32 (length tx)) t2 in
                      if \<not> ok then (False, s1, t3)
                      else if tx \<noteq> [] then let (ok2, t4) = write_full sk tx t3 in (ok2, s1, t4)
                      else (True, s1, t3))))"

partial_function (option) serve_conn :: "'t sock \<Rightarrow> slave \<Rightarrow> 't \<Rightarrow> (slave \<times> 't) option" where
  "serve_conn sk s t =
     (let (open_still, s1, t1) = serve_request sk s t in
      if open_still then serve_conn sk s1 t1 else Some (s1, t1))"

text \<open>The clients accepted one after the other; the slave lives through all of them.\<close>

fun serve_clients :: "'t sock \<Rightarrow> slave \<Rightarrow> 't list \<Rightarrow> (slave \<times> 't list) option" where
  "serve_clients sk s [] = Some (s, [])"
| "serve_clients sk s (t # ts) =
     Option.bind (serve_conn sk s t) (\<lambda>(s1, t1).
       map_option (\<lambda>(s2, ts'). (s2, t1 # ts')) (serve_clients sk s1 ts))"

definition harness_mac :: bytes where
  "harness_mac = [2, 0, 0, 0, 0, 1]"

definition ul_ecat_generated_slave_identity :: slave_identity where
  "ul_ecat_generated_slave_identity =
     \<lparr>vendor_id = 0x00000002, product_code = 0x1C213052, revision = 0x00000001, serial = 0x00000001\<rparr>"

definition harness_main :: "'t sock \<Rightarrow> 't list \<Rightarrow> (slave \<times> 't list) option" where
  "harness_main sk clients = serve_clients sk (ul_ecat_slave_init harness_mac ul_ecat_generated_slave_identity) clients"

section \<open>Byte streams\<close>

text \<open>
  The contract of a connected stream socket: a read yields some of the bytes still to come, and
  nothing only at their end; a write takes some of the bytes offered.
\<close>

locale byte_stream =
  fixes sk :: "'t sock"
    and pending :: "'t \<Rightarrow> bytes"
    and sent :: "'t \<Rightarrow> bytes"
    and ok :: "'t \<Rightarrow> bool"
  assumes read_some: "ok t \<Longrightarrow> 0 < n \<Longrightarrow> pending t \<noteq> [] \<Longrightarrow>
      \<exists>k t'. 0 < k \<and> k \<le> n \<and> k \<le> length (pending t) \<and> sock_read sk n t = (take k (pending t), t') \<and> ok t' \<and>
        pending t' = drop k (pending t) \<and> sent t' = sent t"
    and read_end: "ok t \<Longrightarrow> pending t = [] \<Longrightarrow>
      \<exists>t'. sock_read sk n t = ([], t') \<and> ok t' \<and> pending t' = [] \<and> sent t' = sent t"
    and write_some: "ok t \<Longrightarrow> p \<noteq> [] \<Longrightarrow>
      \<exists>k t'. 0 < k \<and> k \<le> length p \<and> sock_write sk p t = (k, t') \<and> ok t' \<and>
        pending t' = pending t \<and> sent t' = sent t @ take k p"
begin

text \<open>What a connection may look like later: so many bytes fewer to read, so many more written.\<close>

definition moved :: "'t \<Rightarrow> bytes \<Rightarrow> bytes \<Rightarrow> 't \<Rightarrow> bool" where
  "moved t rest out t' \<longleftrightarrow> ok t' \<and> pending t' = rest \<and> sent t' = sent t @ out"

lemma read_full_gets:
  "ok t \<Longrightarrow> pending t = p @ rest \<Longrightarrow> \<exists>t'. read_full sk (length p) t = (Some p, t') \<and> moved t rest [] t'"
proof (induction "length p" arbitrary: p t rule: less_induct)
  case less
  show ?case
  proof (cases "p = []")
    case True
    then show ?thesis using less.prems by (subst read_full.simps) (simp add: moved_def)
  next
    case False
    then obtain k t1 where k: "0 < k" "k \<le> length p" "sock_read sk (length p) t = (take k (pending t), t1)" "ok t1"
        "pending t1 = drop k (pending t)" "sent t1 = sent t"
      using read_some [of t "length p"] less.prems by auto
    have "pending t1 = drop k p @ rest" "length (drop k p) < length p" using k(1,2,5) less.prems(2) False by auto
    then obtain t2 where "read_full sk (length (drop k p)) t1 = (Some (drop k p), t2)" "moved t1 rest [] t2"
      using less.hyps [OF _ k(4)] by blast
    then show ?thesis
      using k False less.prems(2) by (subst read_full.simps) (auto simp: moved_def)
  qed
qed

lemma read_full_ends:
  "ok t \<Longrightarrow> length (pending t) < n \<Longrightarrow> \<exists>t'. read_full sk n t = (None, t') \<and> moved t [] [] t'"
proof (induction n arbitrary: t rule: less_induct)
  case (less n)
  show ?case
  proof (cases "pending t = []")
    case True
    then obtain t1 where "sock_read sk n t = ([], t1)" "ok t1" "pending t1 = []" "sent t1 = sent t"
      using read_end less.prems(1) by blast
    then show ?thesis using less.prems(2) by (subst read_full.simps) (simp add: moved_def)
  next
    case False
    then obtain k t1 where k: "0 < k" "k \<le> length (pending t)" "sock_read sk n t = (take k (pending t), t1)" "ok t1"
        "pending t1 = drop k (pending t)" "sent t1 = sent t"
      using read_some [of t n] less.prems by auto
    have "n - k < n" "length (pending t1) < n - k" using k(1,2,5) less.prems(2) by auto
    then obtain t2 where "read_full sk (n - k) t1 = (None, t2)" "moved t1 [] [] t2"
      using less.IH [OF _ k(4)] by blast
    then show ?thesis
      using k False less.prems(2) by (subst read_full.simps) (auto simp: moved_def min_def)
  qed
qed

lemma write_full_puts: "ok t \<Longrightarrow> \<exists>t'. write_full sk p t = (True, t') \<and> moved t (pending t) p t'"
proof (induction "length p" arbitrary: p t rule: less_induct)
  case less
  show ?case
  proof (cases "p = []")
    case True
    then show ?thesis using less.prems by (subst write_full.simps) (simp add: moved_def)
  next
    case False
    then obtain k t1 where k: "0 < k" "k \<le> length p" "sock_write sk p t = (k, t1)" "ok t1"
        "pending t1 = pending t" "sent t1 = sent t @ take k p"
      using write_some less.prems by blast
    then obtain t2 where "write_full sk (drop k p) t1 = (True, t2)" "moved t1 (pending t1) (drop k p) t2"
      using less.hyps [of "drop k p" t1] False by auto
    then show ?thesis
      using k False by (subst write_full.simps) (auto simp: moved_def)
  qed
qed

end

section \<open>Serving over a byte stream\<close>

text \<open>The protocol: a request is a frame behind its length, and so is the answer; 0 is no answer.\<close>

definition framed :: "bytes \<Rightarrow> bytes" where
  "framed f = be32 (length f) @ f"

definition answer :: "slave \<Rightarrow> bytes \<Rightarrow> bytes \<times> slave" where
  "answer s f =
     (case ul_ecat_slave_process_ethernet s f HARNESS_BUF of
        (None, s1) \<Rightarrow> (be32 0, s1)
      | (Some tx, s1) \<Rightarrow> (framed tx, s1))"

fun answers :: "slave \<Rightarrow> bytes list \<Rightarrow> bytes \<times> slave" where
  "answers s [] = ([], s)"
| "answers s (f # fs) = (let (a, s1) = answer s f; (as, s2) = answers s1 fs in (a @ as, s2))"

lemma answers_append:
  "answers s (fs @ gs) = (let (a, s1) = answers s fs; (b, s2) = answers s1 gs in (a @ b, s2))"
  by (induction s fs rule: answers.induct) (simp_all split: prod.split)

definition request_ok :: "bytes \<Rightarrow> bool" where
  "request_ok f \<longleftrightarrow> f \<noteq> [] \<and> length f \<le> HARNESS_BUF"

lemma length_be32 [simp]: "length (be32 n) = 4"
  by (simp add: be32_def)

lemma of_be32_be32: "n < 2 ^ 32 \<Longrightarrow> of_be32 (be32 n) = n"
proof -
  assume n: "n < 2 ^ 32"
  have "of_be32 (be32 n) = unat (word_of_nat n :: u32)"
    by (simp add: of_be32_def be32_def le32_def of_le32_bytes numeral_2_eq_2 numeral_3_eq_3)
  then show ?thesis using n by (simp add: unat_of_nat take_bit_nat_eq_self)
qed

context byte_stream
begin

lemma serve_request_frame:
  assumes "ok t" "pending t = framed f @ rest" "request_ok f"
  shows "\<exists>t'. serve_request sk s t = (True, snd (answer s f), t') \<and> moved t rest (fst (answer s f)) t'"
proof -
  obtain t1 where r1: "read_full sk 4 t = (Some (be32 (length f)), t1)" "ok t1" "pending t1 = f @ rest" "sent t1 = sent t"
    using read_full_gets [OF assms(1), of "be32 (length f)" "f @ rest"] assms(2) by (auto simp: framed_def moved_def)
  obtain t2 where r2: "read_full sk (length f) t1 = (Some f, t2)" "ok t2" "pending t2 = rest" "sent t2 = sent t"
    using read_full_gets [OF r1(2,3)] r1(4) by (auto simp: moved_def)
  have n: "of_be32 (be32 (length f)) = length f" "0 < length f" "length f \<le> HARNESS_BUF"
    using assms(3) by (auto simp: request_ok_def intro!: of_be32_be32)
  obtain r s1 where p: "ul_ecat_slave_process_ethernet s f HARNESS_BUF = (r, s1)" by fastforce
  show ?thesis
  proof (cases r)
    case None
    obtain t3 where "write_full sk (be32 0) t2 = (True, t3)" "moved t2 (pending t2) (be32 0) t3"
      using write_full_puts [OF r2(2)] by blast
    then show ?thesis
      using r1 r2 n p None by (simp add: serve_request_def answer_def moved_def)
  next
    case (Some tx)
    obtain t3 where w3: "write_full sk (be32 (length tx)) t2 = (True, t3)" "moved t2 (pending t2) (be32 (length tx)) t3"
      using write_full_puts [OF r2(2)] by blast
    then have "ok t3" by (simp add: moved_def)
    then obtain t4 where "write_full sk tx t3 = (True, t4)" "moved t3 (pending t3) tx t4"
      using write_full_puts by blast
    then show ?thesis
      using r1 r2 n p Some w3 by (simp add: serve_request_def answer_def framed_def moved_def)
  qed
qed

lemma serve_conn_frames:
  "ok t \<Longrightarrow> pending t = concat (map framed fs) \<Longrightarrow> list_all request_ok fs \<Longrightarrow>
     \<exists>t'. serve_conn sk s t = Some (snd (answers s fs), t') \<and> moved t [] (fst (answers s fs)) t'"
proof (induction fs arbitrary: s t)
  case Nil
  then obtain t1 where "read_full sk 4 t = (None, t1)" "moved t [] [] t1"
    using read_full_ends [of t 4] by auto
  then show ?case by (subst serve_conn.simps) (simp add: serve_request_def)
next
  case (Cons f fs)
  obtain t1 where 1: "serve_request sk s t = (True, snd (answer s f), t1)" "moved t (concat (map framed fs)) (fst (answer s f)) t1"
    using serve_request_frame [OF Cons.prems(1), of f "concat (map framed fs)" s] Cons.prems(2,3) by auto
  then obtain t2 where "serve_conn sk (snd (answer s f)) t1 = Some (snd (answers (snd (answer s f)) fs), t2)"
      "moved t1 [] (fst (answers (snd (answer s f)) fs)) t2"
    using Cons.IH [of t1 "snd (answer s f)"] Cons.prems(3) by (auto simp: moved_def)
  then show ?case
    using 1 by (subst serve_conn.simps) (auto simp: moved_def split: prod.splits)
qed

lemma serve_clients_frames:
  "list_all2 (\<lambda>t fs. ok t \<and> pending t = concat (map framed fs) \<and> list_all request_ok fs) ts fss \<Longrightarrow>
     \<exists>ts'. serve_clients sk s ts = Some (snd (answers s (concat fss)), ts') \<and>
       (\<exists>as. concat as = fst (answers s (concat fss)) \<and> list_all2 (\<lambda>(t, a) t'. moved t [] a t') (zip ts as) ts' \<and> length as = length ts)"
proof (induction ts fss arbitrary: s rule: list_all2_induct)
  case Nil
  then show ?case by simp
next
  case (Cons t ts fs fss)
  obtain t' where 1: "serve_conn sk s t = Some (snd (answers s fs), t')" "moved t [] (fst (answers s fs)) t'"
    using serve_conn_frames Cons(1) by blast
  obtain ts' as where 2: "serve_clients sk (snd (answers s fs)) ts = Some (snd (answers (snd (answers s fs)) (concat fss)), ts')"
      "concat as = fst (answers (snd (answers s fs)) (concat fss))"
      "list_all2 (\<lambda>(t, a) t'. moved t [] a t') (zip ts as) ts'" "length as = length ts"
    using Cons(3) by blast
  show ?case
    using 1 2 by (auto simp: answers_append split: prod.split intro!: exI [of _ "fst (answers s fs) # as"])
qed

end

section \<open>A chunked socket\<close>

text \<open>
  A socket whose network splits the traffic as it likes: the input arrives in chunks, of which a
  read takes at most one, and each write takes at most as much as the next limit says.
\<close>

record chunked =
  in_chunks :: "bytes list"
  write_limits :: "nat list"
  out_bytes :: bytes

definition chunk_sock :: "chunked sock" where
  "chunk_sock =
     \<lparr>sock_read = \<lambda>n t.
        (case in_chunks t of
           [] \<Rightarrow> ([], t)
         | c # cs \<Rightarrow> (take n c, t\<lparr>in_chunks := (if length c \<le> n then cs else drop n c # cs)\<rparr>)),
      sock_write = \<lambda>p t.
        (let k = (case write_limits t of [] \<Rightarrow> length p | l # ls \<Rightarrow> min (Suc l) (length p)) in
         (k, t\<lparr>write_limits := drop 1 (write_limits t), out_bytes := out_bytes t @ take k p\<rparr>))\<rparr>"

definition chunks_ok :: "chunked \<Rightarrow> bool" where
  "chunks_ok t \<longleftrightarrow> [] \<notin> set (in_chunks t)"

abbreviation still_to_read :: "chunked \<Rightarrow> bytes" where
  "still_to_read t \<equiv> concat (in_chunks t)"

interpretation cs: byte_stream chunk_sock still_to_read out_bytes chunks_ok
proof
  fix t and n :: nat
  assume a: "chunks_ok t" "0 < n" "still_to_read t \<noteq> []"
  then obtain c cs where c: "in_chunks t = c # cs" "c \<noteq> []" "[] \<notin> set cs"
    by (cases "in_chunks t") (auto simp: chunks_ok_def)
  show "\<exists>k t'. 0 < k \<and> k \<le> n \<and> k \<le> length (still_to_read t) \<and> sock_read chunk_sock n t = (take k (still_to_read t), t') \<and>
      chunks_ok t' \<and> still_to_read t' = drop k (still_to_read t) \<and> out_bytes t' = out_bytes t"
    using a(2) c by (intro exI [of _ "min n (length c)"]) (auto simp: chunk_sock_def chunks_ok_def)
next
  fix t and n :: nat
  assume a: "chunks_ok t" "still_to_read t = []"
  then have "in_chunks t = []" by (cases "in_chunks t") (auto simp: chunks_ok_def)
  then show "\<exists>t'. sock_read chunk_sock n t = ([], t') \<and> chunks_ok t' \<and> still_to_read t' = [] \<and> out_bytes t' = out_bytes t"
    using a by (simp add: chunk_sock_def)
next
  fix t and p :: bytes
  assume "chunks_ok t" "p \<noteq> []"
  then show "\<exists>k t'. 0 < k \<and> k \<le> length p \<and> sock_write chunk_sock p t = (k, t') \<and> chunks_ok t' \<and>
      still_to_read t' = still_to_read t \<and> out_bytes t' = out_bytes t @ take k p"
    by (cases "write_limits t") (auto simp: chunk_sock_def chunks_ok_def Let_def)
qed

abbreviation first_slave :: slave where
  "first_slave \<equiv> ul_ecat_slave_init harness_mac ul_ecat_generated_slave_identity"

text \<open>
  Property C23. However the network cuts the traffic into pieces, when every client sends whole
  requests (1 to 2048 bytes each) and then closes, the harness serves them all and returns from
  every connection: the clients together receive exactly the framed answers of one slave that
  executes all requests in order, and 0 for a request it does not answer.
\<close>

theorem harness_serves:
  assumes "list_all2 (\<lambda>t fs. chunks_ok t \<and> concat (in_chunks t) = concat (map framed fs) \<and> out_bytes t = [] \<and>
      list_all request_ok fs) ts fss"
  shows "\<exists>ts'. harness_main chunk_sock ts = Some (snd (answers first_slave (concat fss)), ts') \<and>
    length ts' = length ts \<and> concat (map out_bytes ts') = fst (answers first_slave (concat fss))"
proof -
  have "list_all2 (\<lambda>t fs. chunks_ok t \<and> still_to_read t = concat (map framed fs) \<and> list_all request_ok fs) ts fss"
    using assms by (rule list_all2_mono) simp
  from cs.serve_clients_frames [OF this] obtain ts' as where r:
    "serve_clients chunk_sock first_slave ts = Some (snd (answers first_slave (concat fss)), ts')"
    "concat as = fst (answers first_slave (concat fss))" "list_all2 (\<lambda>(t, a) t'. cs.moved t [] a t') (zip ts as) ts'"
    "length as = length ts"
    by blast
  have "map out_bytes ts' = as"
  proof (rule nth_equalityI)
    have l: "length ts' = length ts" using r(3,4) by (simp add: list_all2_lengthD [symmetric])
    show "length (map out_bytes ts') = length as" using l r(4) by simp
    fix i
    assume "i < length (map out_bytes ts')"
    then show "map out_bytes ts' ! i = as ! i"
      using r(3,4) l assms by (auto simp: list_all2_conv_all_nth cs.moved_def)
  qed
  moreover have "length ts' = length ts" using r(3,4) by (simp add: list_all2_lengthD [symmetric])
  ultimately show ?thesis using r(1,2) by (simp add: harness_main_def)
qed

section \<open>Witnesses\<close>

text \<open>A request of three bytes, no frame at all, that arrives in two pieces.\<close>

definition demo_client :: chunked where
  "demo_client = \<lparr>in_chunks = [[0, 0, 0], [3, 1, 2, 3]], write_limits = [0], out_bytes = []\<rparr>"

theorem harness_serves_witness:
  "\<exists>s t. harness_main chunk_sock [demo_client] = Some (s, [t]) \<and> out_bytes t = [0, 0, 0, 0]"
proof -
  have f: "framed [1, 2, 3] = [0, 0, 0, 3, 1, 2, 3]" by (simp add: framed_def be32_def le32_def)
  have a: "answers first_slave [[1, 2, 3]] = ([0, 0, 0, 0], first_slave)"
    by (simp add: answer_def ul_ecat_slave_process_ethernet_def ul_ecat_parse_eth_frame_def be32_def le32_def)
  from harness_serves [of "[demo_client]" "[[[1, 2, 3]]]"] f a
  show ?thesis
    by (auto simp: demo_client_def chunks_ok_def request_ok_def length_Suc_conv)
qed

section \<open>Start-up\<close>

text \<open>The answers of \<open>getopt\<close> for \<open>"p:h"\<close>, up to its end.\<close>

datatype getopt_answer = Opt_p string | Opt_h | Opt_other

text \<open>The exit code, or the port to listen on.\<close>

fun harness_options :: "u16 \<Rightarrow> getopt_answer list \<Rightarrow> int + u16" where
  "harness_options port [] = Inr port"
| "harness_options port (Opt_p optarg # os) = harness_options (ucast (strtoul optarg 10)) os"
| "harness_options port (Opt_h # os) = Inl 0"
| "harness_options port (Opt_other # os) = Inl 1"

record 'k srv =
  srv_socket :: "'k \<Rightarrow> int \<times> 'k"
  srv_reuse :: "int \<Rightarrow> 'k \<Rightarrow> int \<times> 'k"
  srv_bind :: "int \<Rightarrow> u16 \<Rightarrow> 'k \<Rightarrow> int \<times> 'k"
  srv_listen :: "int \<Rightarrow> 'k \<Rightarrow> int \<times> 'k"
  srv_close :: "int \<Rightarrow> 'k \<Rightarrow> 'k"

text \<open>The exit code, or the listening socket on which \<open>main\<close> accepts its clients.\<close>

definition harness_listen :: "'k srv \<Rightarrow> u16 \<Rightarrow> 'k \<Rightarrow> (int + int) \<times> 'k" where
  "harness_listen os port k =
     (let (s, k1) = srv_socket os k in
      if s < 0 then (Inl 1, k1)
      else
        let (_, k2) = srv_reuse os s k1;
            (r, k3) = srv_bind os s port k2 in
        if r \<noteq> 0 then (Inl 1, srv_close os s k3)
        else
          let (r, k4) = srv_listen os s k3 in
          if r \<noteq> 0 then (Inl 1, srv_close os s k4) else (Inr s, k4))"

definition harness_start :: "'k srv \<Rightarrow> getopt_answer list \<Rightarrow> 'k \<Rightarrow> (int + int) \<times> 'k" where
  "harness_start os opts k =
     (case harness_options 9234 opts of Inl code \<Rightarrow> (Inl code, k) | Inr port \<Rightarrow> harness_listen os port k)"

text \<open>A kernel that keeps the open sockets and where they are bound, its other outcomes from a script.\<close>

record srv_kernel =
  s_open :: "int list"
  s_bound :: "(int \<times> u16) list"
  s_script :: "int list"

definition s_next :: "srv_kernel \<Rightarrow> int \<times> srv_kernel" where
  "s_next k = (case s_script k of [] \<Rightarrow> (-1, k) | x # xs \<Rightarrow> (x, k\<lparr>s_script := xs\<rparr>))"

definition script_srv :: "srv_kernel srv" where
  "script_srv =
     \<lparr>srv_socket = \<lambda>k. (let (x, k1) = s_next k; s = foldr max (s_open k1) 2 + 1 in
        if x < 0 then (-1, k1) else (s, k1\<lparr>s_open := s # s_open k1\<rparr>)),
      srv_reuse = \<lambda>_. s_next,
      srv_bind = \<lambda>s port k. (let (x, k1) = s_next k in (x, if x = 0 then k1\<lparr>s_bound := (s, port) # s_bound k1\<rparr> else k1)),
      srv_listen = \<lambda>_. s_next,
      srv_close = \<lambda>s k. k\<lparr>s_open := removeAll s (s_open k), s_bound := filter (\<lambda>b. fst b \<noteq> s) (s_bound k)\<rparr>\<rparr>"

lemma s_next_keeps: "s_next k = (x, k1) \<Longrightarrow> s_open k1 = s_open k \<and> s_bound k1 = s_bound k"
  by (auto simp: s_next_def split: list.splits)

lemma s_next_snd [simp]: "s_open (snd (s_next k)) = s_open k" "s_bound (snd (s_next k)) = s_bound k"
  using s_next_keeps [of k] by (metis surj_pair snd_conv)+

lemma fresh_socket: "foldr max fds 2 + 1 \<notin> set (fds :: int list)" "0 \<le> foldr max fds (2 :: int) + 1"
proof -
  have "\<forall>x \<in> set fds. x \<le> foldr max fds 2" "2 \<le> foldr max fds (2 :: int)"
    by (induction fds) (auto simp: max_def)
  then show "foldr max fds 2 + 1 \<notin> set (fds :: int list)" "0 \<le> foldr max fds (2 :: int) + 1" by auto
qed

lemma harness_options_code: "harness_options p opts = Inl code \<Longrightarrow> code = (if Opt_h \<in> set (takeWhile (\<lambda>x. x \<noteq> Opt_other) opts) then 0 else 1)"
  by (induction p opts rule: harness_options.induct) auto

lemma harness_options_port: "harness_options p opts = Inr port \<Longrightarrow>
    \<exists>args. opts = map Opt_p args \<and> port = (if args = [] then p else ucast (strtoul (last args) 10))"
proof (induction p opts rule: harness_options.induct)
  case (2 p optarg os)
  then obtain args where "os = map Opt_p args" "port = (if args = [] then ucast (strtoul optarg 10) else ucast (strtoul (last args) 10))"
    by auto
  then show ?case by (intro exI [of _ "optarg # args"]) auto
qed simp_all

text \<open>
  Property C0. Whatever the kernel answers, the harness ends its start-up with a socket of its
  own, bound to the port its last \<open>-p\<close> named (9234 without one) and listening, or
  with an exit code and no socket more than before; the code is 0 exactly when \<open>-h\<close>
  came before any bad option.
\<close>

theorem harness_starts:
  assumes "fst ` set (s_bound k) \<subseteq> set (s_open k)"
  shows "case harness_start script_srv opts k of
      (Inl code, k') \<Rightarrow> s_open k' = s_open k \<and> s_bound k' = s_bound k \<and> code \<in> {0, 1} \<and>
        (code = 0 \<longleftrightarrow> Opt_h \<in> set (takeWhile (\<lambda>x. x \<noteq> Opt_other) opts))
    | (Inr s, k') \<Rightarrow> 0 \<le> s \<and> s \<notin> set (s_open k) \<and> s_open k' = s # s_open k \<and>
        (\<exists>args. opts = map Opt_p args \<and>
          s_bound k' = (s, if args = [] then 9234 else ucast (strtoul (last args) 10)) # s_bound k)"
proof (cases "harness_options 9234 opts")
  case (Inl code)
  then show ?thesis using harness_options_code [OF Inl] by (simp add: harness_start_def)
next
  case (Inr port)
  obtain args where args: "opts = map Opt_p args" "port = (if args = [] then 9234 else ucast (strtoul (last args) 10))"
    using harness_options_port [OF Inr] by blast
  obtain x1 k1 where 1: "s_next k = (x1, k1)" by fastforce
  define s where "s = foldr max (s_open k1) 2 + 1"
  have o1: "s_open k1 = s_open k" "s_bound k1 = s_bound k" using s_next_keeps [OF 1] by simp_all
  have s: "s \<notin> set (s_open k)" "0 \<le> s" using fresh_socket [of "s_open k1"] by (simp_all add: s_def o1)
  have b: "filter (\<lambda>b. fst b \<noteq> s) (s_bound k) = s_bound k" "removeAll s (s_open k) = s_open k"
    using s(1) assms by (auto simp: filter_id_conv)
  obtain x2 k2 where 2: "s_next (k1\<lparr>s_open := s # s_open k1\<rparr>) = (x2, k2)" by fastforce
  obtain x3 k3 where 3: "s_next k2 = (x3, k3)" by fastforce
  obtain x4 k4 where 4: "s_next (k3\<lparr>s_bound := (s, port) # s_bound k3\<rparr>) = (x4, k4)" by fastforce
  have o: "s_open k3 = s # s_open k" "s_bound k3 = s_bound k" "s_open k4 = s # s_open k" "s_bound k4 = (s, port) # s_bound k"
    using s_next_keeps [OF 2] s_next_keeps [OF 3] s_next_keeps [OF 4] o1 by simp_all
  have r: "harness_start script_srv opts k =
      (if x1 < 0 then (Inl 1, k1)
       else if x3 \<noteq> 0 then (Inl 1, srv_close script_srv s k3)
       else if x4 \<noteq> 0 then (Inl 1, srv_close script_srv s k4) else (Inr s, k4))"
    using 1 2 3 4 s(2) unfolding harness_start_def Inr harness_listen_def
    by (simp add: script_srv_def Let_def s_def [symmetric])
  have c: "s_open (srv_close script_srv s q) = removeAll s (s_open q)"
    "s_bound (srv_close script_srv s q) = filter (\<lambda>b. fst b \<noteq> s) (s_bound q)" for q
    by (simp_all add: script_srv_def)
  have h: "Opt_h \<notin> set (takeWhile (\<lambda>x. x \<noteq> Opt_other) opts)" using args(1) by (auto dest: set_takeWhileD)
  show ?thesis unfolding r using o o1 b c s h args by auto
qed

theorem harness_starts_witness:
  "fst (harness_start script_srv [Opt_p ''80''] \<lparr>s_open = [], s_bound = [], s_script = [0, 0, 98]\<rparr>) = Inl 1 \<and>
   s_open (snd (harness_start script_srv [Opt_p ''80''] \<lparr>s_open = [], s_bound = [], s_script = [0, 0, 98]\<rparr>)) = []"
proof -
  have "fst (harness_start script_srv [Opt_p ''80''] \<lparr>s_open = [], s_bound = [], s_script = [0, 0, 98]\<rparr>) = Inl 1"
    by (simp add: harness_start_def harness_listen_def script_srv_def s_next_def Let_def)
  then show ?thesis
    using harness_starts [of "\<lparr>s_open = [], s_bound = [], s_script = [0, 0, 98]\<rparr>" "[Opt_p ''80'']"]
    by (auto split: prod.splits)
qed

end
