(* ===== verification/Line.thy ===== *)
theory Line
  imports Commissioning
begin

text \<open>
  Several of the repository's slaves on one line: the frame the master sends goes to the first slave,
  the frame \<open>ul_ecat_slave_process_ethernet\<close> answers goes to the next one, and the answer of the last
  slave goes back to the master (\<open>line_peer\<close>). \<open>line_port\<close> is the master's port on such a line, so
  the master's operations of \<open>Master\<close> run against any number of slaves.

  \<open>serve_line_alone\<close> carries the rest: every slave ends in the state it would reach if it got the
  frame alone, and the working counters that come back are those of the last slave, because
  \<open>process_one\<close> sets the counter and does not add to it. On top of it, \<open>exchange_line\<close>, \<open>write_line\<close>
  and \<open>read_line\<close> are one exchange, one blocking write and one blocking read on the line.
\<close>

section \<open>A line of slaves\<close>

fun line_peer :: "bytes \<Rightarrow> slave list \<Rightarrow> bytes option \<times> slave list" where
  "line_peer f [] = (Some f, [])"
| "line_peer f (s # ss) =
     (case ul_ecat_slave_process_ethernet s f 1518 of
        (None, s') \<Rightarrow> (None, s' # ss)
      | (Some g, s') \<Rightarrow> (case line_peer g ss of (r, ss') \<Rightarrow> (r, s' # ss')))"

definition line_port :: "(slave list \<times> bytes list) port" where
  "line_port = peer_port (\<lambda>_. 0) line_peer"

text \<open>What the datagrams of one frame do to the line, one slave after the other.\<close>

fun serve_line :: "slave list \<Rightarrow> dgram list \<Rightarrow> dgram list \<times> slave list" where
  "serve_line [] ds = (ds, [])"
| "serve_line (s # ss) ds =
     (case serve s ds of (rs, s') \<Rightarrow> (case serve_line ss rs of (qs, ss') \<Rightarrow> (qs, s' # ss')))"

lemma line_peer_dgrams:
  assumes "ul_ecat_build_eth_frame d1 s1 (concat (map dgram_bytes ds)) cap = Some f" "length d1 = 6" "length s1 = 6"
    and "\<forall>s \<in> set ss. length (mac s) = 6" "\<forall>d \<in> set ds. valid_dgram d \<and> unat (d_len d) \<le> DG_DATA_MAX"
    and "serve_line ss ds = (rs, ss')"
  shows "\<exists>g. line_peer f ss = (Some g, ss') \<and> ul_ecat_parse_eth_frame g = Some (concat (map dgram_bytes rs)) \<and>
    length g = length f"
  using assms
proof (induction ss arbitrary: d1 s1 ds cap f ss')
  case Nil
  then show ?case using build_parse_frame(1) [OF Nil.prems(1-3), of "[]"] by simp
next
  case (Cons s ss)
  obtain qs s' where q: "serve s ds = (qs, s')" by fastforce
  obtain ts where r: "serve_line ss qs = (rs, ts)" "ss' = s' # ts"
    using Cons.prems(6) q by (auto split: prod.splits)
  note l = build_length [OF Cons.prems(1-3)]
  have sh: "\<forall>r \<in> set qs. valid_dgram r" "length (concat (map dgram_bytes qs)) = length (concat (map dgram_bytes ds))"
    "list_all2 (\<lambda>d r. d_len r = d_len d) ds qs" "mac s' = mac s"
    using serve_shape [OF q] Cons.prems(5) by (auto elim: list_all2_mono)
  have v: "\<forall>r \<in> set qs. valid_dgram r \<and> unat (d_len r) \<le> DG_DATA_MAX"
  proof
    fix r assume "r \<in> set qs"
    then obtain d where "d \<in> set ds" "d_len r = d_len d" using sh(3) by (force simp: list_all2_conv_all_nth in_set_conv_nth)
    with \<open>r \<in> set qs\<close> sh(1) Cons.prems(5) show "valid_dgram r \<and> unat (d_len r) \<le> DG_DATA_MAX" by simp
  qed
  have "ul_ecat_slave_process_pdu s (concat (map dgram_bytes ds)) UL_ECAT_MAX_EC_PAYLOAD = (Some (concat (map dgram_bytes qs)), s')"
    by (rule process_pdu_encoded [OF Cons.prems(5) _ q]) (use l(2) in simp)
  then have run: "ul_ecat_slave_process_ethernet s f 1518 =
      (ul_ecat_build_eth_frame s1 (mac s') (concat (map dgram_bytes qs)) 1518, s')"
    using process_ethernet_eq [OF Cons.prems(1-3), of s "[]" 1518] by simp
  obtain g where g: "ul_ecat_build_eth_frame s1 (mac s') (concat (map dgram_bytes qs)) 1518 = Some g"
    using build_ok [of "concat (map dgram_bytes qs)" 1518] l(2) sh(2) by auto
  have "length (mac s') = 6" using Cons.prems(4) sh(4) by simp
  with Cons.IH [OF g Cons.prems(3) _ _ v r(1)] Cons.prems(4) obtain h where
    h: "line_peer g ss = (Some h, ts)" "ul_ecat_parse_eth_frame h = Some (concat (map dgram_bytes rs))" "length h = length g"
    by auto
  have "length g = length f" using build_length(1) [OF g Cons.prems(3) \<open>length (mac s') = 6\<close>] l(1) sh(2) by simp
  with h run g r(2) show ?case by simp
qed

text \<open>
  Requests that ask for the same thing: only the working counter and, in a read, the data that is
  about to be overwritten may differ.
\<close>

definition same_request :: "dgram \<Rightarrow> dgram \<Rightarrow> bool" where
  "same_request d e \<longleftrightarrow> d_cmd e = d_cmd d \<and> d_adp e = d_adp d \<and> d_ado e = d_ado d \<and> d_len e = d_len d \<and>
     length (d_data e) = length (d_data d) \<and> (d_cmd d = UL_ECAT_CMD_FPRD \<or> d_data e = d_data d)"

lemma same_request_refl [simp]: "same_request d d"
  by (simp add: same_request_def)

lemma same_request_trans: "same_request c d \<Longrightarrow> same_request d e \<Longrightarrow> same_request c e"
  by (auto simp: same_request_def)

text \<open>The same request has the same effect and the same working counter.\<close>

lemma serve1_same:
  assumes "same_request d e"
  shows "snd (serve1 s e) = snd (serve1 s d)" "d_wkc (fst (serve1 s e)) = d_wkc (fst (serve1 s d))"
    "d_wkc (fst (serve1 s d)) \<noteq> 0 \<Longrightarrow> d_data (fst (serve1 s e)) = d_data (fst (serve1 s d))"
proof -
  note sr = assms [unfolded same_request_def]
  have "snd (serve1 s e) = snd (serve1 s d) \<and> d_wkc (fst (serve1 s e)) = d_wkc (fst (serve1 s d)) \<and>
    (d_wkc (fst (serve1 s d)) \<noteq> 0 \<longrightarrow> d_data (fst (serve1 s e)) = d_data (fst (serve1 s d)))"
  proof (cases "d_cmd d = UL_ECAT_CMD_FPRD")
    case True
    with sr show ?thesis
      by (cases "ul_ecat_esc_read (esc s) (d_ado d) (unat (d_len d))")
        (simp_all add: serve1_def process_one_def Let_def split: prod.splits if_split)
  next
    case False
    with sr have "d_data e = d_data d" by simp
    with sr show ?thesis by (simp add: serve1_def split: prod.splits)
  qed
  then show "snd (serve1 s e) = snd (serve1 s d)" "d_wkc (fst (serve1 s e)) = d_wkc (fst (serve1 s d))"
    "d_wkc (fst (serve1 s d)) \<noteq> 0 \<Longrightarrow> d_data (fst (serve1 s e)) = d_data (fst (serve1 s d))" by auto
qed

lemma serve1_request:
  assumes "valid_dgram d"
  shows "same_request d (fst (serve1 s d))" "d_wkc (fst (serve1 s d)) = 0 \<Longrightarrow> d_data (fst (serve1 s d)) = d_data d"
proof -
  note sh = serve1_shape [OF prod.collapse [symmetric] assms, of s]
  have data: "d_data (fst (serve1 s d)) = d_data d \<or> d_cmd d = UL_ECAT_CMD_FPRD \<and> d_wkc (fst (serve1 s d)) = 1"
  proof (cases "addressed s d \<and> in_mirror d")
    case False
    then show ?thesis using serve1_unaddressed [OF _ assms] by auto
  next
    case True
    then have "is_write d \<or> d_cmd d = UL_ECAT_CMD_FPRD" by (auto simp: addressed_def is_write_def split: if_splits)
    with True show ?thesis using serve1_write [OF _ _ _ assms] serve1_read by auto
  qed
  then show "d_wkc (fst (serve1 s d)) = 0 \<Longrightarrow> d_data (fst (serve1 s d)) = d_data d" by auto
  show "same_request d (fst (serve1 s d))"
    using data sh(1-6) assms by (auto simp: same_request_def valid_dgram_def)
qed

lemma serve_same:
  assumes "list_all2 same_request ds es"
  shows "snd (serve s es) = snd (serve s ds)" "map d_wkc (fst (serve s es)) = map d_wkc (fst (serve s ds))"
  using assms
  by (induction ds es arbitrary: s rule: list_all2_induct) (auto simp: Let_def case_prod_beta serve1_same)

lemma serve_request: "\<forall>d \<in> set ds. valid_dgram d \<Longrightarrow> list_all2 same_request ds (fst (serve s ds))"
  by (induction ds arbitrary: s) (auto simp: Let_def case_prod_beta serve1_request)

text \<open>Every slave of the line does what it would do alone; the counters are those of the last one.\<close>

lemma serve_line_alone:
  assumes "list_all2 same_request ds es" "\<forall>d \<in> set ds. valid_dgram d" "\<forall>d \<in> set es. valid_dgram d"
  shows "snd (serve_line ss es) = map (\<lambda>s. snd (serve s ds)) ss"
    and "ss \<noteq> [] \<Longrightarrow> map d_wkc (fst (serve_line ss es)) = map d_wkc (fst (serve (last ss) ds))"
proof -
  have "snd (serve_line ss es) = map (\<lambda>s. snd (serve s ds)) ss \<and>
    (ss \<noteq> [] \<longrightarrow> map d_wkc (fst (serve_line ss es)) = map d_wkc (fst (serve (last ss) ds)))"
    using assms(1,3)
  proof (induction ss arbitrary: es)
    case (Cons s ss)
    obtain qs s' where q: "serve s es = (qs, s')" by fastforce
    have req: "list_all2 same_request es qs" using serve_request [OF Cons.prems(2), of s] q by simp
    then have 1: "list_all2 same_request ds qs"
      using Cons.prems(1) list_all2_trans [of same_request same_request same_request ds es qs] same_request_trans by blast
    have 2: "\<forall>r \<in> set qs. valid_dgram r" using serve_shape [OF q Cons.prems(2)] by simp
    from Cons.IH [OF 1 2] serve_same [OF Cons.prems(1), of s] q show ?case
      by (cases ss) (auto split: prod.splits)
  qed simp
  then show "snd (serve_line ss es) = map (\<lambda>s. snd (serve s ds)) ss"
    and "ss \<noteq> [] \<Longrightarrow> map d_wkc (fst (serve_line ss es)) = map d_wkc (fst (serve (last ss) ds))" by auto
qed

lemma serve_line_request:
  assumes "list_all2 same_request ds es" "\<forall>d \<in> set es. valid_dgram d"
  shows "list_all2 same_request ds (fst (serve_line ss es)) \<and> (\<forall>r \<in> set (fst (serve_line ss es)). valid_dgram r)"
  using assms
proof (induction ss arbitrary: es)
  case (Cons s ss)
  obtain qs s' where q: "serve s es = (qs, s')" by fastforce
  have req: "list_all2 same_request es qs" using serve_request [OF Cons.prems(2), of s] q by simp
  then have 1: "list_all2 same_request ds qs"
    using Cons.prems(1) list_all2_trans [of same_request same_request same_request ds es qs] same_request_trans by blast
  have 2: "\<forall>r \<in> set qs. valid_dgram r" using serve_shape [OF q Cons.prems(2)] by simp
  from Cons.IH [OF 1 2] q show ?case by (auto split: prod.splits)
qed simp

text \<open>
  Property C15. A frame of any datagrams that goes down a line of any number of slaves is answered;
  every slave ends in the state in which the frame alone would leave it; the answer parses back to
  the same requests in the same order, and its working counters are those the last slave of the
  line counts, whatever the slaves before it did.
\<close>

theorem line_of_slaves:
  assumes "ul_ecat_build_eth_frame dst src (concat (map dgram_bytes ds)) cap = Some f" "length dst = 6" "length src = 6"
    and "ss \<noteq> []" "\<forall>s \<in> set ss. length (mac s) = 6" "\<forall>d \<in> set ds. valid_dgram d \<and> unat (d_len d) \<le> DG_DATA_MAX"
  shows "\<exists>g area rs. line_peer f ss = (Some g, map (\<lambda>s. snd (serve s ds)) ss) \<and>
    ul_ecat_parse_eth_frame g = Some area \<and> wire.decode_area area = Some rs \<and>
    list_all2 same_request ds rs \<and> map d_wkc rs = map d_wkc (fst (serve (last ss) ds))"
proof -
  obtain rs ss' where r: "serve_line ss ds = (rs, ss')" by fastforce
  have v: "\<forall>d \<in> set ds. valid_dgram d" using assms(6) by simp
  have refl: "list_all2 same_request ds ds" by (simp add: list_all2_same)
  from serve_line_request [OF refl v, of ss] r have rs: "list_all2 same_request ds rs" "\<forall>r \<in> set rs. valid_dgram r" by auto
  obtain g where "line_peer f ss = (Some g, ss')" "ul_ecat_parse_eth_frame g = Some (concat (map dgram_bytes rs))"
    using line_peer_dgrams [OF assms(1-3,5,6) r] by auto
  moreover have "wire.decode_area (concat (map dgram_bytes rs)) = Some rs" by (rule wire.decode_area_enc [OF rs(2)])
  ultimately show ?thesis using serve_line_alone [OF refl v v, of ss] r rs(1) assms(4) by auto
qed

section \<open>The master on a line\<close>

definition on_line :: "(slave list \<times> bytes list) master \<Rightarrow> slave list \<Rightarrow> bool" where
  "on_line m ss \<longleftrightarrow> world m = (ss, []) \<and> ss \<noteq> [] \<and> (\<forall>s \<in> set ss. length (mac s) = 6) \<and>
     length (g_dst_mac m) = 6 \<and> length (g_src_mac m) = 6"

abbreviation served :: "dgram \<Rightarrow> slave list \<Rightarrow> slave list" where
  "served d ss \<equiv> map (\<lambda>s. snd (serve1 s d)) ss"

lemma on_line_served: "on_line m ss \<Longrightarrow> valid_dgram d \<Longrightarrow> on_line (m\<lparr>world := (served d ss, [])\<rparr>) (served d ss)"
  using serve1_shape(10) [OF prod.collapse [symmetric]] by (auto simp: on_line_def)

lemma exchange_line:
  assumes "on_line m ss" "valid_dgram d" "unat (d_len d) \<le> DG_DATA_MAX"
  obtains r where "exchange_ec_payload line_port (dgram_bytes d) 512 t m = (Some (dgram_bytes r), m\<lparr>world := (served d ss, [])\<rparr>)"
    "valid_dgram r" "same_request d r" "d_wkc r = d_wkc (fst (serve1 (last ss) d))"
proof -
  note at = assms(1) [unfolded on_line_def]
  have b: "length (dgram_bytes d) \<le> 1498" "18 + length (dgram_bytes d) \<le> 1600"
    using assms(2,3) by (simp_all add: length_dgram_bytes valid_dgram_def)
  obtain f where f: "ul_ecat_build_eth_frame (g_dst_mac m) (g_src_mac m) (dgram_bytes d) 1600 = Some f"
    using build_ok [OF b] by blast
  obtain rs ss' where line: "serve_line ss [d] = (rs, ss')" by fastforce
  obtain g where g: "line_peer f ss = (Some g, ss')" "ul_ecat_parse_eth_frame g = Some (concat (map dgram_bytes rs))"
    "length g = length f"
    using line_peer_dgrams [of "g_dst_mac m" "g_src_mac m" "[d]" 1600 f ss, OF _ _ _ _ _ line] f at assms(2,3) by auto
  have req: "list_all2 same_request [d] (fst (serve_line ss [d]))" "\<forall>r \<in> set (fst (serve_line ss [d])). valid_dgram r"
    using serve_line_request [of "[d]" "[d]" ss] assms(2) by auto
  then obtain r where r: "rs = [r]" "valid_dgram r" "same_request d r"
    using line by (cases rs) auto
  have alone: "ss' = served d ss" "d_wkc r = d_wkc (fst (serve1 (last ss) d))"
    using serve_line_alone [of "[d]" "[d]" ss] at assms(2) line r(1) by (auto simp: Let_def case_prod_beta)
  have "length (dgram_bytes r) \<le> 512"
    using r(2,3) assms(3) by (simp add: same_request_def length_dgram_bytes valid_dgram_def)
  then have "exchange_ec_payload line_port (dgram_bytes d) 512 t m = (Some (dgram_bytes r), m\<lparr>world := (served d ss, [])\<rparr>)"
    using exchange_peer [where peer = line_peer, OF _ f g(1)] g(2,3) b at r(1) alone(1)
      build_length(1) [OF f] by (simp add: line_port_def)
  then show ?thesis using r(2,3) alone(2) by (rule that)
qed

lemma write_line:
  fixes cmd :: byte and adp ado :: u16
  assumes "on_line m ss" "length data \<le> 256"
  defines "d \<equiv> write_dgram cmd adp ado data"
  shows "write_blocking line_port cmd adp ado data (word_of_nat (length data)) t m
    = (Some (d_wkc (fst (serve1 (last ss) d))), m\<lparr>world := (served d ss, [])\<rparr>)"
proof -
  note v = dgram_valid(2) [OF assms(2), of cmd adp ado, folded d_def]
  have l: "unat (d_len d) \<le> 256" using assms(2) by (simp add: d_def write_dgram_def unat_of_nat)
  obtain r where "exchange_ec_payload line_port (dgram_bytes d) 512 t m = (Some (dgram_bytes r), m\<lparr>world := (served d ss, [])\<rparr>)"
    "valid_dgram r" "same_request d r" "d_wkc r = d_wkc (fst (serve1 (last ss) d))"
    by (rule exchange_line [OF assms(1) v l])
  then show ?thesis
    using assms(2) parse_reply(2) [of r, OF _ order_refl]
    by (simp add: write_blocking_def encode_write_dgram d_def)
qed

lemma read_line:
  fixes adp ado :: u16
  assumes "on_line m ss" "unat len \<le> 256"
  defines "d \<equiv> read_dgram adp ado len"
  obtains buf where "fprd_blocking line_port adp ado out len t m
    = (Some (d_wkc (fst (serve1 (last ss) d)), buf), m\<lparr>world := (served d ss, [])\<rparr>)"
proof -
  note v = dgram_valid(1) [OF assms(2), of adp ado, folded d_def]
  have l: "unat (d_len d) \<le> 256" using assms(2) by (simp add: d_def)
  obtain r where r: "exchange_ec_payload line_port (dgram_bytes d) 512 t m = (Some (dgram_bytes r), m\<lparr>world := (served d ss, [])\<rparr>)"
    "valid_dgram r" "same_request d r" "d_wkc r = d_wkc (fst (serve1 (last ss) d))"
    by (rule exchange_line [OF assms(1) v l])
  have "d_len r = len" using r(3) by (simp add: same_request_def d_def)
  then show ?thesis
    using r assms(2) parse_reply(1) [OF r(2), of "unat len"] that
    by (simp add: fprd_blocking_def encode_read_dgram d_def)
qed

text \<open>Reading leaves the registers of every slave alone.\<close>

lemma read_still: "valid_dgram d \<Longrightarrow> d_cmd d = UL_ECAT_CMD_FPRD \<Longrightarrow> still s (snd (serve1 s d))"
proof (cases "addressed s d \<and> in_mirror d")
  case False
  assume "valid_dgram d"
  with False show ?thesis using serve1_unaddressed by (simp add: still_def)
next
  case True
  assume "d_cmd d = UL_ECAT_CMD_FPRD"
  with True show ?thesis
    by (simp add: serve1_read still_def sm1_read_keep) (simp add: on_sm1_read_eq Let_def)
qed

lemma still_trans: "still r s \<Longrightarrow> still s t \<Longrightarrow> still r t"
  by (simp add: still_def)

lemma identity_line:
  assumes "on_line m ss" "list_all2 still ss0 ss"
  obtains v tmp' ss' where "read_identity line_port st reg tmp m = (v, tmp', m\<lparr>world := (ss', [])\<rparr>)"
    "on_line (m\<lparr>world := (ss', [])\<rparr>) ss'" "list_all2 still ss0 ss'"
proof -
  let ?d = "read_dgram st reg 4"
  have v: "valid_dgram ?d" by (simp add: dgram_valid)
  obtain buf where b: "fprd_blocking line_port st reg tmp 4 200 m
    = (Some (d_wkc (fst (serve1 (last ss) ?d)), buf), m\<lparr>world := (served ?d ss, [])\<rparr>)"
    by (rule read_line [OF assms(1), of 4]) simp_all
  have "list_all2 still ss0 (served ?d ss)"
    using assms(2) read_still [OF v] still_trans by (auto simp: list_all2_conv_all_nth)
  then show ?thesis
    using b on_line_served [OF assms(1) v] that by (simp add: read_identity_def)
qed

definition take_address :: "u16 \<Rightarrow> u16 \<Rightarrow> slave \<Rightarrow> slave" where
  "take_address k w s = (if logical_position s = k then s\<lparr>esc := mem_write (esc s) 0x10 (le16 w)\<rparr> else s)"

lemma take_address_sel: "logical_position (take_address k w s) = logical_position s" "mac (take_address k w s) = mac s"
  by (simp_all add: take_address_def)

lemma take_address_station: "station_of (take_address k w s) = (if logical_position s = k then w else station_of s)"
  by (simp add: take_address_def station_of_def read_u16_reg le16_def of_le16_bytes)

lemma apwr_line:
  assumes "on_line m ss"
  shows "apwr_blocking line_port k 0x0010 (le16 w) 2 200 m =
    (Some (if logical_position (last ss) = k then 1 else 0), m\<lparr>world := (map (take_address k w) ss, [])\<rparr>)"
proof -
  let ?d = "write_dgram UL_ECAT_CMD_APWR k 0x10 (le16 w)"
  have v: "valid_dgram ?d" by (rule dgram_valid(2)) simp
  have l: "d_len ?d = 2" by (simp add: write_dgram_def)
  have one: "serve1 s ?d = (?d\<lparr>d_wkc := if logical_position s = k then 1 else 0\<rparr>, take_address k w s)" for s
  proof (cases "logical_position s = k")
    case True
    then show ?thesis
      by (subst serve1_write [OF _ _ _ v])
         (simp_all add: is_write_def addressed_def in_mirror_def covers_def l take_address_def)
  next
    case False
    then show ?thesis
      by (subst serve1_unaddressed [OF _ v]) (auto simp add: addressed_def take_address_def)
  qed
  show ?thesis using write_line [OF assms, of "le16 w" UL_ECAT_CMD_APWR k "0x10" 200] by (simp add: apwr_blocking_def one)
qed

lemma on_line_address: "on_line m ss \<Longrightarrow> on_line (m\<lparr>world := (map (take_address k w) ss, [])\<rparr>) (map (take_address k w) ss)"
  by (simp add: on_line_def take_address_sel)

text \<open>The four identity registers of the station that the line answers for.\<close>

lemma identities_line:
  assumes "on_line (m\<lparr>g_slaves_db := [], world := (s1, [])\<rparr>) s1"
  obtains v1 t1 s2 v2 t2 s3 v3 t3 s4 v4 t4 s5 where
    "read_identity line_port 0x1000 0x12 (stack_bytes line_port 4 (world (m\<lparr>g_slaves_db := [], world := (s1, [])\<rparr>))) (m\<lparr>g_slaves_db := [], world := (s1, [])\<rparr>) = (v1, t1, (m\<lparr>g_slaves_db := [], world := (s2, [])\<rparr>))"
    "read_identity line_port 0x1000 0x16 t1 (m\<lparr>g_slaves_db := [], world := (s2, [])\<rparr>) = (v2, t2, (m\<lparr>g_slaves_db := [], world := (s3, [])\<rparr>))"
    "read_identity line_port 0x1000 0x1A t2 (m\<lparr>g_slaves_db := [], world := (s3, [])\<rparr>) = (v3, t3, (m\<lparr>g_slaves_db := [], world := (s4, [])\<rparr>))"
    "read_identity line_port 0x1000 0x1E t3 (m\<lparr>g_slaves_db := [], world := (s4, [])\<rparr>) = (v4, t4, (m\<lparr>g_slaves_db := [], world := (s5, [])\<rparr>))"
    "on_line (m\<lparr>g_slaves_db := [], world := (s5, [])\<rparr>) s5" "list_all2 still s1 s5"
proof -
  let ?on = "\<lambda>ss. m\<lparr>g_slaves_db := [], world := (ss, [])\<rparr>"
  have s0: "list_all2 still s1 s1" by (simp add: list_all2_same still_refl)
  obtain v1 t1 s2 where 2: "read_identity line_port 0x1000 0x12 (stack_bytes line_port 4 (world (?on s1))) (?on s1)
      = (v1, t1, ?on s2)" "on_line (?on s2) s2" "list_all2 still s1 s2"
    by (rule identity_line [OF assms s0]) simp
  obtain v2 t2 s3 where 3: "read_identity line_port 0x1000 0x16 t1 (?on s2) = (v2, t2, ?on s3)" "on_line (?on s3) s3" "list_all2 still s1 s3"
    by (rule identity_line [OF 2(2,3)]) simp
  obtain v3 t3 s4 where 4: "read_identity line_port 0x1000 0x1A t2 (?on s3) = (v3, t3, ?on s4)" "on_line (?on s4) s4" "list_all2 still s1 s4"
    by (rule identity_line [OF 3(2,3)]) simp
  obtain v4 t4 s5 where 5: "read_identity line_port 0x1000 0x1E t3 (?on s4) = (v4, t4, ?on s5)" "on_line (?on s5) s5" "list_all2 still s1 s5"
    by (rule identity_line [OF 4(2,3)]) simp
  show ?thesis by (rule that [OF 2(1) 3(1) 4(1) 5])
qed

text \<open>
  Property C29. On a line of any number of slaves, \<open>ul_ecat_scan_network\<close> never finds
  more than one: it finds one when the last slave of the line has position 0, and none otherwise,
  although every slave at position 0 has by then taken the station address 0x1000.
\<close>

theorem line_scan:
  assumes "world m = (ss, [])" "ss \<noteq> []" "\<forall>s \<in> set ss. length (mac s) = 6" "length (g_dst_mac m) = 6" "length (g_src_mac m) = 6"
  shows "length (g_slaves_db (ul_ecat_scan_network line_port m)) = (if logical_position (last ss) = 0 then 1 else 0) \<and>
    (\<exists>ss'. world (ul_ecat_scan_network line_port m) = (ss', []) \<and>
      list_all2 (\<lambda>s s'. logical_position s = 0 \<longrightarrow> station_of s' = 0x1000) ss ss')"
proof -
  let ?m0 = "m\<lparr>g_slaves_db := []\<rparr>" and ?on = "\<lambda>ss. m\<lparr>g_slaves_db := [], world := (ss, [])\<rparr>"
  let ?s1 = "map (take_address 0 0x1000) ss"
  have at0: "on_line ?m0 ss" using assms by (simp add: on_line_def)
  have at1: "on_line (?on ?s1) ?s1" using on_line_address [OF at0, of 0 "0x1000"] by simp
  have first: "apwr_blocking line_port (word_of_nat 0) 0x0010 (le16 0x1000) 2 200 ?m0
      = (Some (if logical_position (last ss) = 0 then 1 else 0), ?on ?s1)"
    using apwr_line [OF at0, of 0 "0x1000"] by simp
  have up: "[0 ..< 16] = 0 # 1 # [2 ..< 16]" by (simp add: upt_conv_Cons)
  have addr: "list_all2 (\<lambda>s s'. logical_position s = 0 \<longrightarrow> station_of s' = 0x1000) ss ?s1"
    by (simp add: list_all2_conv_all_nth take_address_station)
  show ?thesis
  proof (cases "logical_position (last ss) = 0")
    case False
    then have "ul_ecat_scan_network line_port m = ?on ?s1"
      unfolding ul_ecat_scan_network_def up using first by (simp add: Let_def)
    with False addr show ?thesis by simp
  next
    case True
    obtain v1 t1 s2 v2 t2 s3 v3 t3 s4 v4 t4 s5 where
      reads: "read_identity line_port 0x1000 0x12 (stack_bytes line_port 4 (world (?on ?s1))) (?on ?s1) = (v1, t1, ?on s2)"
        "read_identity line_port 0x1000 0x16 t1 (?on s2) = (v2, t2, ?on s3)"
        "read_identity line_port 0x1000 0x1A t2 (?on s3) = (v3, t3, ?on s4)"
        "read_identity line_port 0x1000 0x1E t3 (?on s4) = (v4, t4, ?on s5)"
      and 5: "on_line (?on s5) s5" "list_all2 still ?s1 s5"
      by (rule identities_line [OF at1])
    let ?e = "\<lparr>station_address = 0x1000, m_state = UL_ECAT_SLAVE_STATE_INIT, m_vendor_id = v1,
      m_product_code = v2, m_revision_no = v3, m_serial_no = v4, m_device_name = []\<rparr>"
    let ?m5 = "(?on s5)\<lparr>g_slaves_db := [?e]\<rparr>" and ?s6 = "map (take_address 1 0x1001) s5"
    have at5: "on_line ?m5 s5" using 5(1) by (simp add: on_line_def)
    have len: "length s5 = length ss" using list_all2_lengthD [OF 5(2)] by simp
    have keep: "logical_position (s5 ! i) = logical_position (ss ! i)" "station_of (s5 ! i) = station_of (?s1 ! i)" if "i < length ss" for i
      using list_all2_nthD [OF 5(2), of i] that still_station by (auto simp: still_def take_address_sel)
    have "logical_position (last s5) = 0"
      using True keep(1) [of "length ss - 1"] len assms(2) by (metis diff_less last_conv_nth length_greater_0_conv zero_less_one)
    then have last: "apwr_blocking line_port (word_of_nat 1) 0x0010 (le16 (word_of_nat (0x1000 + 1))) 2 200 ?m5
        = (Some 0, ?m5\<lparr>world := (?s6, [])\<rparr>)"
      using apwr_line [OF at5, of 1 "0x1001"] by simp
    have "ul_ecat_scan_network line_port m = ?m5\<lparr>world := (?s6, [])\<rparr>"
      unfolding ul_ecat_scan_network_def up using True first reads last by (simp add: Let_def)
    moreover have "list_all2 (\<lambda>s s'. logical_position s = 0 \<longrightarrow> station_of s' = 0x1000) ss ?s6"
      using len keep by (simp add: list_all2_conv_all_nth take_address_station)
    ultimately show ?thesis using True by simp
  qed
qed

text \<open>
  On a line, \<open>ul_ecat_fpwr_sync\<close> to station \<open>st\<close> writes the
  memory of every slave with this station address and of no other, but it reports success only
  when the last slave of the line is one of them.
\<close>

theorem line_write:
  assumes "world m = (ss, [])" "ss \<noteq> []" "\<forall>s \<in> set ss. length (mac s) = 6" "length (g_dst_mac m) = 6" "length (g_src_mac m) = 6"
    and "0 \<le> g_sockfd m" "st \<noteq> 0" "data \<noteq> []" "length data \<le> 256" "unat ado + length data \<le> 4096" "unat len = length data"
    and "\<forall>j. unat ado \<le> j \<and> j < unat ado + length data \<longrightarrow> j \<notin> slave_owned \<and> j \<noteq> 0x10 \<and> j \<noteq> 0x11"
  shows "\<exists>ss'. ul_ecat_fpwr_sync line_port st ado (Some data) len t m = (station_of (last ss) = st, m\<lparr>world := (ss', [])\<rparr>) \<and>
    list_all2 (\<lambda>s s'. if station_of s = st then station_of s' = st \<and> mem_read (esc s') (unat ado) (length data) = data else s' = s) ss ss'"
proof -
  let ?w = "write_dgram UL_ECAT_CMD_FPWR st ado data"
  have at: "on_line m ss" using assms(1-5) by (simp add: on_line_def)
  have n: "len = word_of_nat (length data)" by (simp flip: assms(11))
  have n2: "len \<noteq> 0" "\<not> 512 < len" using assms(8,9,11) by (auto simp: word_less_nat_alt)
  note v = dgram_valid(2) [OF assms(9)]
  have other: "serve1 s ?w = (?w\<lparr>d_wkc := 0\<rparr>, s)" if "station_of s \<noteq> st" for s
    by (rule serve1_unaddressed [OF _ v]) (use that in \<open>auto simp: addressed_def station_of_def\<close>)
  have wkc: "d_wkc (fst (serve1 s ?w)) = (if station_of s = st then 1 else 0)" for s
    using other [of s] write_reaches_slave(5) [OF _ assms(7-10), of s] by simp
  have "ul_ecat_fpwr_sync line_port st ado (Some data) len t m = (station_of (last ss) = st, m\<lparr>world := (served ?w ss, [])\<rparr>)"
    using write_line [OF at assms(9), of UL_ECAT_CMD_FPWR st ado t] n2 assms(6) unfolding n
    by (simp add: ul_ecat_fpwr_sync_def fpwr_blocking_def wkc)
  moreover have "list_all2 (\<lambda>s s'. if station_of s = st then station_of s' = st \<and> mem_read (esc s') (unat ado) (length data) = data else s' = s)
      ss (served ?w ss)"
    using write_lands [OF _ assms(7-10,12)] other by (simp add: list_all2_conv_all_nth)
  ultimately show ?thesis by blast
qed

text \<open>A state request on a line.\<close>

text \<open>
  Property C30. On a line, a state request to a slave that is not the last one fails, and the
  master's database is unchanged; but the slave has carried it out: it shows what the abstract AL
  machine says of the request, and every other slave is as it was.
\<close>

theorem line_state_request:
  fixes t :: al_state and view :: "slave \<Rightarrow> al_view"
  assumes "world m = (ss, [])" "ss \<noteq> []" "\<forall>s \<in> set ss. length (mac s) = 6" "length (g_dst_mac m) = 6" "length (g_src_mac m) = 6"
    and "i < length (g_slaves_db m)" "station_address (g_slaves_db m ! i) = st" "st \<noteq> 0" "station_of (last ss) \<noteq> st"
    and "\<forall>s \<in> set ss. al_shows (esc s) (view s)"
  shows "\<exists>ss'. ul_ecat_request_slave_state line_port (int i) (ucast (al_code t)) m = (False, m\<lparr>world := (ss', [])\<rparr>) \<and>
    list_all2 (\<lambda>s s'. if station_of s = st then al_shows (esc s') (al_spec (ul_ecat_sm_validate_mailbox_pair (esc s)) (view s) (al_code t) False)
      else s' = s) ss ss'"
proof -
  let ?c = "ul_ecat_al_control_word (ucast ((ucast (al_code t) :: u32) AND 0x0F)) False"
  let ?w = "write_dgram UL_ECAT_CMD_FPWR st 0x120 (le16 ?c)"
  have at: "on_line m ss" using assms(1-5) by (simp add: on_line_def)
  have other: "serve1 s ?w = (?w\<lparr>d_wkc := 0\<rparr>, s)" if "station_of s \<noteq> st" for s
    by (rule serve1_unaddressed) (use that in \<open>auto simp: addressed_def station_of_def dgram_valid\<close>)
  then have "ul_ecat_request_slave_state line_port (int i) (ucast (al_code t)) m = (False, m\<lparr>world := (served ?w ss, [])\<rparr>)"
    using write_line [OF at, of "le16 ?c" UL_ECAT_CMD_FPWR st "0x120" 500] assms(6,7,9)
    by (simp add: ul_ecat_request_slave_state_def ul_ecat_request_slave_state_mailbox_def write_al_control_blocking_def fpwr_blocking_def)
  moreover have "al_shows (esc (snd (serve1 s ?w))) (al_spec (ul_ecat_sm_validate_mailbox_pair (esc s)) (view s) (al_code t) False)"
    if "s \<in> set ss" "station_of s = st" for s
    using al_request_step(2) [OF bspec [OF assms(10) that(1)] that(2) assms(8) prod.collapse [symmetric], of ?c]
    by (simp add: write_dgram_al state_nibble control_word_ack)
  then have "list_all2 (\<lambda>s s'. if station_of s = st then al_shows (esc s') (al_spec (ul_ecat_sm_validate_mailbox_pair (esc s)) (view s) (al_code t) False)
      else s' = s) ss (served ?w ss)"
    using other by (simp add: list_all2_conv_all_nth)
  ultimately show ?thesis by blast
qed

section \<open>Witnesses\<close>

lemma far_slave_facts: "length (mac far_slave) = 6" "station_of far_slave = 0x2000" "logical_position far_slave = 0"
  "al_shows (esc far_slave) \<lparr>al_st = Init, al_err = False, al_status_code = 0\<rparr>"
proof -
  show "length (mac far_slave) = 6" using mailbox_slave_attached by (simp add: far_slave_def)
  show "station_of far_slave = 0x2000"
    by (simp add: far_slave_def station_of_def read_u16_reg mailbox_slave_def of_le16_def)
  show "logical_position far_slave = 0" by (simp add: far_slave_def mailbox_slave_def ul_ecat_slave_init_def)
  show "al_shows (esc far_slave) \<lparr>al_st = Init, al_err = False, al_status_code = 0\<rparr>"
    using mailbox_slave_al by (subst al_shows_cong [of _ "esc mailbox_slave"]) (simp_all add: far_slave_def)
qed

theorem line_of_slaves_witness:
  "\<exists>f g area rs. ul_ecat_build_eth_frame (replicate 6 0xFF) demo_mac (dgram_bytes demo_fpwr) 1600 = Some f \<and>
    line_peer f [mailbox_slave, far_slave] = (Some g, [demo_slave', far_slave]) \<and>
    ul_ecat_parse_eth_frame g = Some area \<and> wire.decode_area area = Some rs \<and> map d_wkc rs = [0]"
proof -
  obtain f where f: "ul_ecat_build_eth_frame (replicate 6 0xFF) demo_mac (dgram_bytes demo_fpwr) 1600 = Some f"
    using build_ok [of "dgram_bytes demo_fpwr" 1600] demo_fpwr_facts(7) by auto
  have "\<exists>g area rs. line_peer f [mailbox_slave, far_slave] = (Some g, map (\<lambda>s. snd (serve s [demo_fpwr])) [mailbox_slave, far_slave]) \<and>
      ul_ecat_parse_eth_frame g = Some area \<and> wire.decode_area area = Some rs \<and>
      list_all2 same_request [demo_fpwr] rs \<and> map d_wkc rs = map d_wkc (fst (serve (last [mailbox_slave, far_slave]) [demo_fpwr]))"
    by (intro line_of_slaves [of "replicate 6 0xFF" demo_mac "[demo_fpwr]" 1600 f "[mailbox_slave, far_slave]"])
       (use f mailbox_slave_attached far_slave_facts(1) demo_fpwr_facts(1,2) in \<open>simp_all add: demo_mac_def\<close>)
  moreover have "serve1 far_slave demo_fpwr = (demo_fpwr\<lparr>d_wkc := 0\<rparr>, far_slave)"
    using serve1_unaddressed far_slave_unaddressed demo_fpwr_facts(1) by blast
  ultimately show ?thesis using f serve1_demo by (auto simp: Let_def)
qed

theorem line_scan_witness:
  "g_slaves_db (ul_ecat_scan_network line_port (idle_master ([ul_ecat_slave_init demo_mac demo_ident,
      (ul_ecat_slave_init demo_mac demo_ident)\<lparr>logical_position := 1\<rparr>], []))) = [] \<and>
   station_of (hd (fst (world (ul_ecat_scan_network line_port (idle_master ([ul_ecat_slave_init demo_mac demo_ident,
      (ul_ecat_slave_init demo_mac demo_ident)\<lparr>logical_position := 1\<rparr>], [])))))) = 0x1000"
  using line_scan [of "idle_master ([ul_ecat_slave_init demo_mac demo_ident,
      (ul_ecat_slave_init demo_mac demo_ident)\<lparr>logical_position := 1\<rparr>], [])"
      "[ul_ecat_slave_init demo_mac demo_ident, (ul_ecat_slave_init demo_mac demo_ident)\<lparr>logical_position := 1\<rparr>]"]
  by (auto simp: demo_mac_def ul_ecat_slave_init_def list_all2_Cons1)

theorem line_write_witness:
  "\<exists>ss'. ul_ecat_fpwr_sync line_port 0x1000 0xF80 (Some [1, 2, 3]) 3 100 (idle_master ([mailbox_slave, far_slave], []))
      = (False, (idle_master ([mailbox_slave, far_slave], []))\<lparr>world := (ss', [])\<rparr>) \<and>
    mem_read (esc (hd ss')) 0xF80 (length [1, 2, 3 :: byte]) = [1, 2, 3]"
  using line_write [of "idle_master ([mailbox_slave, far_slave], [])" "[mailbox_slave, far_slave]" "0x1000" "[1, 2, 3]" "0xF80" 3 100]
    mailbox_slave_attached far_slave_facts
  by (force simp: slave_owned_def list_all2_Cons1)

theorem line_state_request_witness:
  "\<exists>ss'. ul_ecat_request_slave_state line_port (int 0) (ucast (al_code Preop))
      ((idle_master ([mailbox_slave, far_slave], []))\<lparr>g_slaves_db := [known_slave]\<rparr>)
      = (False, (idle_master ([mailbox_slave, far_slave], []))\<lparr>g_slaves_db := [known_slave], world := (ss', [])\<rparr>) \<and>
    al_shows (esc (hd ss')) \<lparr>al_st = Preop, al_err = False, al_status_code = 0\<rparr>"
  using line_state_request [of "(idle_master ([mailbox_slave, far_slave], []))\<lparr>g_slaves_db := [known_slave]\<rparr>" "[mailbox_slave, far_slave]"
      0 "0x1000" "\<lambda>_. \<lparr>al_st = Init, al_err = False, al_status_code = 0\<rparr>" Preop]
    mailbox_slave_attached far_slave_facts mailbox_slave_al mailbox_slave_validates
  by (auto simp: known_slave_def list_all2_Cons1 al_spec_def al_edge_simps)

end
