(* ===== verification/UnitTests.thy ===== *)
theory UnitTests
  imports Commissioning
begin

text \<open>
  The C++ unit tests of \<open>src/tests\<close> as theorems about the model: each test of \<open>test_al.cpp\<close>,
  \<open>test_frame.cpp\<close>, \<open>test_frame_negative.cpp\<close>, \<open>test_al_fsm.cpp\<close>, \<open>test_od.cpp\<close>, \<open>test_coe.cpp\<close>,
  \<open>test_mailbox.cpp\<close> and \<open>test_slave.cpp\<close> is a lemma of the same name that states what the test
  expects.

  The fixtures are definitions: \<open>test_fpwr\<close>, \<open>test_fprd\<close> and \<open>sdo_round_trip\<close> encode a datagram, hand
  it to the slave or, as a frame, to the controller, and parse the answer. \<open>shown_control\<close>,
  \<open>configure_sm_step\<close> and \<open>round_trips\<close> say once what a step of a fixture does, by the lemmas of the
  components, so that a test is an evaluation of \<open>al_spec\<close> or of the SDO server. That the expected
  values of the tests come out is evidence that the model is the code.
\<close>

section \<open>Words and frames\<close>

text \<open>\<open>test_al.cpp\<close>\<close>

lemma Al_ControlWordRequestOnly: "ul_ecat_al_control_word 2 False = 0x0002"
  by code_simp

lemma Al_ControlWordWithAck: "ul_ecat_al_control_word 8 True = 0x0018"
  by code_simp

lemma Al_StatusStateNibble: "ul_ecat_al_status_state 0x0002 = 2 \<and> ul_ecat_al_status_state 0x0008 = 8"
  by code_simp

lemma Al_StatusErrorBit: "ul_ecat_al_status_error_indicated 0x0012 \<and> \<not> ul_ecat_al_status_error_indicated 0x0002"
  by code_simp

text \<open>\<open>test_frame.cpp\<close>\<close>

lemma Frame_DgramEncodeRoundTrip:
  "ul_ecat_dgram_parse (the (ul_ecat_dgram_encode 128 UL_ECAT_CMD_FPRD 7 0x1000 0x0130 2 0 0 (Some [0xAA, 0xBB]))) 0 (Some 8) =
    Some \<lparr>d_cmd = UL_ECAT_CMD_FPRD, d_index = 7, d_adp = 0x1000, d_ado = 0x0130, d_len = 2, d_irq = 0, d_wkc = 0,
      d_data = [0xAA, 0xBB]\<rparr>"
  by code_simp

definition frame_a :: bytes where "frame_a = the (ul_ecat_dgram_encode 64 UL_ECAT_CMD_FPRD 0 0x1000 0x0130 2 0 0 None)"
definition frame_b :: bytes where "frame_b = the (ul_ecat_dgram_encode 64 UL_ECAT_CMD_FPWR 1 0x1000 0x0120 2 0 0 (Some [1, 0]))"

lemma Frame_PduCountTwoDatagrams: "ul_ecat_pdu_count_datagrams (frame_a @ frame_b) = Some 2"
  by code_simp

lemma Frame_EthBuildParse:
  "map_option ul_ecat_parse_eth_frame (ul_ecat_build_eth_frame [1, 2, 3, 4, 5, 6] [6, 5, 4, 3, 2, 1] frame_b 256) = Some (Some frame_b)"
  by code_simp

text \<open>\<open>test_frame_negative.cpp\<close>\<close>

lemma FrameNegative_ParseEthWrongEtherType:
  "ul_ecat_parse_eth_frame (replicate 12 0 @ [0x08, 0x00] @ replicate 18 0) = None"
  by code_simp

lemma FrameNegative_ParseEthFrameTooShort:
  "ul_ecat_parse_eth_frame (replicate 12 0 @ [0x88, 0xA4] @ replicate 6 0) = None"
  by code_simp

lemma FrameNegative_PduTruncatedMidDatagram:
  "ul_ecat_pdu_count_datagrams (butlast (the (ul_ecat_dgram_encode 64 UL_ECAT_CMD_FPRD 0 0x1000 0x0130 4 0 0 None))) = None"
  by code_simp

lemma FrameNegative_PduGarbageTail: "ul_ecat_pdu_count_datagrams (frame_a @ [0xAB]) = None"
  by code_simp

lemma FrameGolden_ApwrEncodeMatchesExpectedLayout:
  "ul_ecat_dgram_encode 32 UL_ECAT_CMD_APWR 3 0 0x0010 2 0 0 (Some [0x34, 0x12]) =
     Some [UL_ECAT_CMD_APWR, 3, 0, 0, 0x10, 0, 2, 0, 0, 0, 0x34, 0x12, 0, 0]"
  by code_simp

lemma FrameGolden_MultiDgramParseSecond:
  "map_option d_ado (ul_ecat_dgram_parse
     (the (ul_ecat_dgram_encode 64 UL_ECAT_CMD_FPRD 0 0x1000 0x0012 4 0 0 None) @
      the (ul_ecat_dgram_encode 64 UL_ECAT_CMD_FPRD 1 0x1000 0x0016 4 0 0 None)) 1 None) = Some 0x0016"
  by code_simp

section \<open>The state machine\<close>

text \<open>
  The fixture of \<open>test_al_fsm.cpp\<close>: a slave, its station address written by APWR, and writes sent
  to it as encoded datagrams. A failed expectation of a helper ends the test (\<^const>\<open>None\<close>).
\<close>

definition TEST_ID :: slave_identity where
  "TEST_ID = \<lparr>vendor_id = 0x02, product_code = 0x1C213052, revision = 1, serial = 1\<rparr>"

definition TEST_MAC :: bytes where
  "TEST_MAC = [0x02, 0x00, 0x00, 0x00, 0x00, 0x01]"

definition test_fpwr :: "slave \<Rightarrow> u16 \<Rightarrow> u16 \<Rightarrow> bytes \<Rightarrow> bool \<Rightarrow> (u16 \<times> slave) option" where
  "test_fpwr s station ado data use_apwr =
     (case ul_ecat_dgram_encode 512 (if use_apwr then UL_ECAT_CMD_APWR else UL_ECAT_CMD_FPWR) 0
             (if use_apwr then 0 else station) ado (word_of_nat (length data)) 0 0 (Some data) of
        None \<Rightarrow> None
      | Some dg \<Rightarrow>
          (case ul_ecat_slave_process_pdu s dg 512 of
             (None, s') \<Rightarrow> None
           | (Some pdu_out, s') \<Rightarrow>
               Some (case ul_ecat_dgram_parse pdu_out 0 None of None \<Rightarrow> 0 | Some d \<Rightarrow> d_wkc d, s')))"

definition assign_station :: "u16 \<Rightarrow> slave \<Rightarrow> slave option" where
  "assign_station station s = map_option snd (test_fpwr s station 0x0010 (le16 station) True)"

definition configure_sm :: "u16 \<Rightarrow> bytes \<Rightarrow> slave option \<Rightarrow> slave option" where
  "configure_sm ado sm so = Option.bind so (\<lambda>s. map_option snd (test_fpwr s 0x1000 ado sm False))"

definition control :: "u16 \<Rightarrow> slave option \<Rightarrow> slave option" where
  "control w so = Option.bind so (\<lambda>s. Option.bind (test_fpwr s 0x1000 0x0120 (le16 w) False)
     (\<lambda>(wkc, s'). if wkc \<ge> 1 then Some s' else None))"

definition request_state :: "byte \<Rightarrow> slave option \<Rightarrow> slave option" where
  "request_state st = control (ul_ecat_al_control_word st False)"

definition ack_error :: "slave option \<Rightarrow> slave option" where
  "ack_error so = Option.bind so (\<lambda>s. control (ul_ecat_al_control_word (esc s 0x0130 AND 0x0F) True) so)"

definition observed :: "slave option \<Rightarrow> (byte \<times> bool \<times> u16) option" where
  "observed = map_option (\<lambda>s. (esc s 0x0130 AND 0x0F, esc s 0x0130 AND 0x10 \<noteq> 0, of_le16 (esc s 0x0134) (esc s 0x0135)))"

definition set_up :: "slave option" where
  "set_up = assign_station 0x1000 (ul_ecat_slave_init TEST_MAC TEST_ID)"

definition configure_mailbox_sm :: "slave option \<Rightarrow> slave option" where
  "configure_mailbox_sm so =
     configure_sm 0x0808 [0x80, 0x10, 0x80, 0x00, 0x22, 0x00, 0x01, 0x00]
       (configure_sm 0x0800 [0x00, 0x10, 0x80, 0x00, 0x26, 0x00, 0x01, 0x00] so)"

text \<open>A datagram through the fixture is a datagram executed.\<close>

lemma process_dgram:
  assumes "valid_dgram d" "unat (d_len d) \<le> 256"
  shows "ul_ecat_slave_process_pdu s (dgram_bytes d) 512 = (Some (dgram_bytes (fst (serve1 s d))), snd (serve1 s d))"
  using process_pdu_encoded [of "[d]" 512 s "[fst (serve1 s d)]" "snd (serve1 s d)"] assms
  by (simp add: case_prod_beta length_dgram_bytes valid_dgram_def)

lemma test_fpwr_serve:
  assumes "length data \<le> 256"
  shows "test_fpwr s station ado data apwr =
    (let r = serve1 s (write_dgram (if apwr then UL_ECAT_CMD_APWR else UL_ECAT_CMD_FPWR) (if apwr then 0 else station) ado data) in
     Some (d_wkc (fst r), snd r))"
proof -
  let ?d = "write_dgram (if apwr then UL_ECAT_CMD_APWR else UL_ECAT_CMD_FPWR) (if apwr then 0 else station) ado data"
  have v: "valid_dgram ?d" by (rule dgram_valid(2) [OF assms])
  have l: "unat (d_len ?d) \<le> 256" using assms by (simp add: write_dgram_def unat_of_nat)
  have r: "valid_dgram (fst (serve1 s ?d))" using serve1_shape(1) [OF prod.collapse [symmetric] v] .
  show ?thesis
    using process_dgram [OF v l] parse_reply(2) [OF r order_refl] assms
    by (simp add: test_fpwr_def encode_write_dgram Let_def)
qed

text \<open>What a slave under test shows, and what the steps of a test make of it.\<close>

definition shown :: "slave option \<Rightarrow> al_view \<Rightarrow> bool \<Rightarrow> bool" where
  "shown so v mbx \<longleftrightarrow> (\<exists>s. so = Some s \<and> station_of s = 0x1000 \<and> al_shows (esc s) v \<and>
     ul_ecat_sm_validate_mailbox_pair (esc s) = mbx)"

lemma shown_control:
  assumes "shown so v mbx"
  shows "shown (control w so) (al_spec mbx v (ucast (w AND UL_ECAT_AL_MASK_STATE)) (w AND UL_ECAT_AL_CTRL_ACK \<noteq> 0)) mbx"
proof -
  obtain s where s: "so = Some s" "station_of s = 0x1000" "al_shows (esc s) v" "ul_ecat_sm_validate_mailbox_pair (esc s) = mbx"
    using assms by (auto simp: shown_def)
  obtain r s' where rs: "serve1 s (al_request 0x1000 w) = (r, s')" by fastforce
  note step = al_request_step [OF s(3,2) _ rs]
  show ?thesis
    using step s rs test_fpwr_serve [of "le16 w" s "0x1000" "0x120" False]
    by (simp add: shown_def control_def write_dgram_al)
qed

lemma request_word_state:
  "t \<in> {1, 2, 3, 4, 8} \<Longrightarrow> ucast (ul_ecat_al_control_word t ack AND UL_ECAT_AL_MASK_STATE) = t"
  "ul_ecat_al_control_word t ack AND UL_ECAT_AL_CTRL_ACK \<noteq> 0 \<longleftrightarrow> ack"
  using control_word_ack [of t ack] by (auto simp: ul_ecat_al_control_word_def)

lemma shown_request:
  "shown so v mbx \<Longrightarrow> t \<in> {1, 2, 3, 4, 8} \<Longrightarrow> shown (request_state t so) (al_spec mbx v t False) mbx"
  using shown_control [of so v mbx "ul_ecat_al_control_word t False"] by (simp add: request_state_def request_word_state)

lemma low_byte: "(ucast (of_le16 a b) :: byte) = a"
  by (rule bit_word_eqI) (auto simp: of_le16_def bit_simps)

lemma shown_observed: "shown so v mbx \<Longrightarrow> observed so = Some (al_code (al_st v), al_err v, al_status_code v)"
proof -
  assume "shown so v mbx"
  then obtain s where s: "so = Some s" "al_shows (esc s) v" by (auto simp: shown_def)
  then have st: "of_le16 (esc s 0x130) (esc s 0x131) = al_word (al_st v) (al_err v)"
    and c: "of_le16 (esc s 0x134) (esc s 0x135) = al_status_code v"
    by (simp_all add: al_shows_def read_u16_reg)
  from st have "esc s 0x130 = ucast (al_word (al_st v) (al_err v))" using low_byte by metis
  then show ?thesis using s(1) c by (cases "al_st v"; cases "al_err v") (simp_all add: observed_def al_word_def)
qed

lemma shown_ack:
  assumes "shown so v mbx"
  shows "shown (ack_error so) (v\<lparr>al_err := False, al_status_code := 0\<rparr>) mbx"
proof -
  obtain s where s: "so = Some s" using assms by (auto simp: shown_def)
  have "esc s 0x130 AND 0x0F = al_code (al_st v)" using shown_observed [OF assms] s by (simp add: observed_def)
  moreover have "al_code (al_st v) \<in> {1, 2, 3, 4, 8}" by (cases "al_st v") simp_all
  ultimately show ?thesis
    using shown_control [OF assms, of "ul_ecat_al_control_word (al_code (al_st v)) True"] s
    by (simp add: ack_error_def request_word_state al_spec_def)
qed

lemma assign_fresh: "assign_station 0x1000 (ul_ecat_slave_init mc ident) = Some (assigned mc ident)"
proof -
  have "serve1 (ul_ecat_slave_init mc ident) (write_dgram UL_ECAT_CMD_APWR 0 0x10 (le16 0x1000)) =
      ((write_dgram UL_ECAT_CMD_APWR 0 0x10 (le16 0x1000))\<lparr>d_wkc := 1\<rparr>, assigned mc ident)"
    by (subst serve1_write [OF _ _ _ dgram_valid(2)])
       (simp_all add: is_write_def addressed_def in_mirror_def covers_def write_dgram_def ul_ecat_slave_init_def assigned_def Let_def)
  then show ?thesis
    using test_fpwr_serve [of "le16 0x1000" "ul_ecat_slave_init mc ident" "0x1000" "0x10" True]
    by (simp add: assign_station_def Let_def)
qed

lemma set_up_assigned: "set_up = Some (assigned TEST_MAC TEST_ID)"
  by (simp add: set_up_def assign_fresh)

lemma shown_set_up: "shown set_up \<lparr>al_st = Init, al_err = False, al_status_code = 0\<rparr> False"
proof -
  let ?s = "assigned TEST_MAC TEST_ID"
  have "\<not> ul_ecat_sm_validate_mailbox_pair (esc ?s)"
    by (simp add: validate_mailbox_pair_iff mailbox_sm_def ul_ecat_sm_is_active_def ul_ecat_sm_is_mailbox_def
        ul_ecat_sm_read_def Let_def assigned_def ul_ecat_slave_init_def ul_ecat_esc_set_al_status_init_def
        ul_ecat_esc_apply_identity_def mem_write_apply of_le16_def)
  then show ?thesis using set_up_assigned assigned_facts [of TEST_MAC TEST_ID] unfolding shown_def by blast
qed

text \<open>Writing the two SyncManagers, and what the slave then makes of them.\<close>

definition sm_bytes :: "slave \<Rightarrow> bytes \<Rightarrow> bool" where
  "sm_bytes s bs \<longleftrightarrow> (\<forall>j \<in> {0x800 ..< 0x810} - {0x805}. esc s j = bs ! (j - 0x800))"

lemma sm_bytes_validate:
  assumes "sm_bytes s bs" "length bs = 16"
  shows "ul_ecat_sm_validate_mailbox_pair (esc s) = ul_ecat_sm_validate_mailbox_pair (mem_write (\<lambda>_. 0) 0x800 bs)"
proof -
  let ?on = "\<lparr>esc = mem_write (\<lambda>_. 0) 0x800 bs, mac = [], logical_position = 0\<rparr>"
  have "\<forall>j \<in> {0x800 ..< 0x810} - {0x805, 0x80D}. esc s j = esc ?on j"
    using assms by (auto simp: mem_write_apply sm_bytes_def)
  from configured_cong(4) [OF this] show ?thesis by (simp add: validate_mailbox_pair_iff)
qed

lemma configure_sm_step:
  assumes "shown (Some s) v mbx" "sm_bytes s bs" "length bs = 16" "k < 2" "length sm = 8"
  obtains s' where "configure_sm (word_of_nat (0x800 + 8 * k)) sm (Some s) = Some s'"
    "sm_bytes s' (take (8 * k) bs @ sm @ drop (8 * k + 8) bs)"
    "shown (Some s') v (ul_ecat_sm_validate_mailbox_pair (mem_write (\<lambda>_. 0) 0x800 (take (8 * k) bs @ sm @ drop (8 * k + 8) bs)))"
proof -
  let ?ado = "word_of_nat (0x800 + 8 * k) :: u16" and ?bs = "take (8 * k) bs @ sm @ drop (8 * k + 8) bs"
  let ?w = "write_dgram UL_ECAT_CMD_FPWR 0x1000 ?ado sm"
  have k: "k = 0 \<or> k = 1" using assms(4) by auto
  have ado: "unat ?ado = 0x800 + 8 * k" using k by auto
  have s: "station_of s = 0x1000" "al_shows (esc s) v" using assms(1) by (simp_all add: shown_def)
  have d: "sm \<noteq> []" "length sm \<le> 256" "unat ?ado + length sm \<le> 4096" using assms(5) ado k by auto
  note w = write_reaches_slave [OF s(1) _ d]
  define s' where "s' = snd (serve1 s ?w)"
  have "\<not> covers ?w 0x120" using assms(5) ado by (simp add: covers_def)
  then have sv: "serve1 s ?w = (?w\<lparr>d_wkc := 1\<rparr>,
      snd (ul_ecat_slave_mailbox_on_sm0_write (s\<lparr>esc := mem_write (esc s) (unat ?ado) sm\<rparr>) ?ado (d_len ?w)))"
    using serve1_write [OF w(1-4)] by simp
  then have far: "esc s' j = mem_write (esc s) (0x800 + 8 * k) sm j" if "j \<noteq> 0x805" for j
    using that ado by (simp add: s'_def on_sm0_write_frame)
  then have low: "esc s' j = esc s j" if "j < 0x800" for j using that by (simp add: mem_write_outside)
  have run: "configure_sm ?ado sm (Some s) = Some s'"
    using test_fpwr_serve [OF d(2), of s "0x1000" ?ado False] by (simp add: configure_sm_def Let_def s'_def)
  have b: "sm_bytes s' ?bs"
    using far assms(2,3,5) k by (auto simp: sm_bytes_def mem_write_apply nth_append)
  have "length ?bs = 16" using assms(3,5) k by auto
  from sm_bytes_validate [OF b this]
  have "ul_ecat_sm_validate_mailbox_pair (esc s') = ul_ecat_sm_validate_mailbox_pair (mem_write (\<lambda>_. 0) 0x800 ?bs)" .
  moreover have "station_of s' = 0x1000" using s(1) low by (simp add: station_of_def read_u16_reg)
  moreover have "al_shows (esc s') v" using s(2) low by (subst al_shows_cong [of _ "esc s"]) simp_all
  ultimately have "shown (Some s') v (ul_ecat_sm_validate_mailbox_pair (mem_write (\<lambda>_. 0) 0x800 ?bs))"
    by (simp add: shown_def)
  then show ?thesis using run b that by blast
qed

lemma set_up_bytes: "\<exists>s. set_up = Some s \<and> shown (Some s) \<lparr>al_st = Init, al_err = False, al_status_code = 0\<rparr> False \<and> sm_bytes s (replicate 16 0)"
proof -
  let ?s = "assigned TEST_MAC TEST_ID"
  have s: "set_up = Some ?s" by (rule set_up_assigned)
  moreover have "sm_bytes ?s (replicate 16 0)"
    by (auto simp: sm_bytes_def assigned_def Let_def ul_ecat_slave_init_def ul_ecat_esc_set_al_status_init_def
        ul_ecat_esc_apply_identity_def mem_write_apply le32_def)
  ultimately show ?thesis using shown_set_up by auto
qed

text \<open>The SyncManager settings of the tests.\<close>

definition TEST_SM0 :: "byte \<Rightarrow> bytes" where
  "TEST_SM0 len = [0x00, 0x10, len, 0x00, 0x26, 0x00, 0x01, 0x00]"

definition TEST_SM1 :: bytes where
  "TEST_SM1 = [0x80, 0x10, 0x80, 0x00, 0x22, 0x00, 0x01, 0x00]"

lemma validate_tests:
  "ul_ecat_sm_validate_mailbox_pair (mem_write (\<lambda>_. 0) 0x800 (TEST_SM0 0x80 @ TEST_SM1))"
  "\<not> ul_ecat_sm_validate_mailbox_pair (mem_write (\<lambda>_. 0) 0x800 (TEST_SM0 0x80 @ replicate 8 0))"
  "\<not> ul_ecat_sm_validate_mailbox_pair (mem_write (\<lambda>_. 0) 0x800 (TEST_SM0 0 @ TEST_SM1))"
  by (simp_all add: validate_mailbox_pair_iff mailbox_sm_def ul_ecat_sm_is_active_def ul_ecat_sm_is_mailbox_def
      ul_ecat_sm_read_def Let_def TEST_SM0_def TEST_SM1_def mem_write_apply of_le16_def)

lemma configure_both:
  obtains s1 s2 where
    "configure_sm 0x0800 (TEST_SM0 len) set_up = Some s1"
    "configure_sm 0x0808 TEST_SM1 (Some s1) = Some s2" "sm_bytes s2 (TEST_SM0 len @ TEST_SM1)"
    "shown (Some s1) \<lparr>al_st = Init, al_err = False, al_status_code = 0\<rparr>
       (ul_ecat_sm_validate_mailbox_pair (mem_write (\<lambda>_. 0) 0x800 (TEST_SM0 len @ replicate 8 0)))"
    "shown (Some s2) \<lparr>al_st = Init, al_err = False, al_status_code = 0\<rparr>
       (ul_ecat_sm_validate_mailbox_pair (mem_write (\<lambda>_. 0) 0x800 (TEST_SM0 len @ TEST_SM1)))"
proof -
  let ?v = "\<lparr>al_st = Init, al_err = False, al_status_code = 0\<rparr>"
  have l: "length (TEST_SM0 len) = 8" "length TEST_SM1 = 8" by (simp_all add: TEST_SM0_def TEST_SM1_def)
  obtain s0 where s0: "set_up = Some s0" "shown (Some s0) ?v False" "sm_bytes s0 (replicate 16 0)"
    using set_up_bytes by blast
  obtain s1 where s1: "configure_sm 0x0800 (TEST_SM0 len) (Some s0) = Some s1" "sm_bytes s1 (TEST_SM0 len @ replicate 8 0)"
    "shown (Some s1) ?v (ul_ecat_sm_validate_mailbox_pair (mem_write (\<lambda>_. 0) 0x800 (TEST_SM0 len @ replicate 8 0)))"
    using configure_sm_step [OF s0(2,3), of 0 "TEST_SM0 len"] l by auto
  obtain s2 where s2: "configure_sm 0x0808 TEST_SM1 (Some s1) = Some s2" "sm_bytes s2 (TEST_SM0 len @ TEST_SM1)"
    "shown (Some s2) ?v (ul_ecat_sm_validate_mailbox_pair (mem_write (\<lambda>_. 0) 0x800 (TEST_SM0 len @ TEST_SM1)))"
    using configure_sm_step [OF s1(3,2), of 1 TEST_SM1] l by auto
  show ?thesis using that s0(1) s1(1,3) s2 by metis
qed

lemma shown_sm0:
  "shown (configure_sm 0x0800 (TEST_SM0 len) set_up) \<lparr>al_st = Init, al_err = False, al_status_code = 0\<rparr>
     (ul_ecat_sm_validate_mailbox_pair (mem_write (\<lambda>_. 0) 0x800 (TEST_SM0 len @ replicate 8 0)))"
  "shown (configure_sm 0x0808 TEST_SM1 (configure_sm 0x0800 (TEST_SM0 len) set_up)) \<lparr>al_st = Init, al_err = False, al_status_code = 0\<rparr>
     (ul_ecat_sm_validate_mailbox_pair (mem_write (\<lambda>_. 0) 0x800 (TEST_SM0 len @ TEST_SM1)))"
  by (rule configure_both [of len], simp)+

definition configured :: "slave option" where
  "configured = configure_mailbox_sm set_up"

lemma shown_configured: "shown configured \<lparr>al_st = Init, al_err = False, al_status_code = 0\<rparr> True"
  using shown_sm0(2) [of "0x80"] validate_tests(1)
  by (simp add: configured_def configure_mailbox_sm_def TEST_SM0_def TEST_SM1_def)

text \<open>What \<open>current_state\<close>, \<open>error_indicated\<close> and \<open>status_code\<close> give after a list of requests.\<close>

fun requests :: "byte list \<Rightarrow> slave option \<Rightarrow> slave option" where
  "requests [] so = so"
| "requests (t # ts) so = requests ts (request_state t so)"

lemma shown_requests:
  "shown so v mbx \<Longrightarrow> set ts \<subseteq> {1, 2, 3, 4, 8} \<Longrightarrow> shown (requests ts so) (foldl (\<lambda>v t. al_spec mbx v t False) v ts) mbx"
proof (induction ts arbitrary: so v)
  case (Cons t ts)
  then show ?case using shown_request [of so v mbx t] by simp
qed simp

lemmas test_run = shown_observed [OF shown_requests]
lemmas test_eval = al_spec_def al_reject_def al_edge_simps

lemma AlFsm_InitialStateIsInit: "observed set_up = Some (1, False, 0)"
  using shown_observed [OF shown_set_up] by simp

lemma AlFsm_InitToPreop: "observed (requests [2] configured) = Some (2, False, 0)"
  by (subst test_run [OF shown_configured]) (simp_all add: test_eval)

lemma AlFsm_PreopToSafeop: "observed (requests [2, 4] configured) = Some (4, False, 0)"
  by (subst test_run [OF shown_configured]) (simp_all add: test_eval)

lemma AlFsm_SafeopToOp: "observed (requests [2, 4, 8] configured) = Some (8, False, 0)"
  by (subst test_run [OF shown_configured]) (simp_all add: test_eval)

lemma AlFsm_FullForwardThenBackward:
  "observed (requests [2, 4, 8] configured) = Some (8, False, 0)"
  "observed (requests [2, 4, 8, 4] configured) = Some (4, False, 0)"
  "observed (requests [2, 4, 8, 4, 2] configured) = Some (2, False, 0)"
  "observed (requests [2, 4, 8, 4, 2, 1] configured) = Some (1, False, 0)"
  by (subst test_run [OF shown_configured]; simp add: test_eval)+

lemma AlFsm_AnyToInitAlwaysValid: "observed (requests [2, 4, 1] configured) = Some (1, False, 0)"
  by (subst test_run [OF shown_configured]) (simp_all add: test_eval)

lemma AlFsm_OpToInitDirectValid: "observed (requests [2, 4, 8, 1] configured) = Some (1, False, 0)"
  by (subst test_run [OF shown_configured]) (simp_all add: test_eval)

lemma AlFsm_InitToOpInvalid: "observed (requests [8] set_up) = Some (1, True, 0x0011)"
  by (subst test_run [OF shown_set_up]) (simp_all add: test_eval)

lemma AlFsm_InitToSafeopInvalid: "observed (requests [4] set_up) = Some (1, True, 0x0011)"
  by (subst test_run [OF shown_set_up]) (simp_all add: test_eval)

lemma AlFsm_PreopToOpInvalid: "observed (requests [2, 8] configured) = Some (2, True, 0x0011)"
  by (subst test_run [OF shown_configured]) (simp_all add: test_eval)

lemma AlFsm_BootNotSupported: "observed (requests [3] set_up) = Some (1, True, 0x0013)"
  by (subst test_run [OF shown_set_up]) (simp_all add: test_eval)

lemma AlFsm_AckClearsError: "observed (ack_error (requests [8] set_up)) = Some (1, False, 0)"
  by (subst shown_observed [OF shown_ack [OF shown_requests [OF shown_set_up]]]) (simp_all add: test_eval)

lemma AlFsm_SameStateRequestIsNoop: "observed (requests [2, 2] configured) = Some (2, False, 0)"
  by (subst test_run [OF shown_configured]) (simp_all add: test_eval)

lemma AlFsm_InitToPreopWithoutSmFails: "observed (requests [2] set_up) = Some (1, True, 0x0016)"
  by (subst test_run [OF shown_set_up]) (simp_all add: test_eval)

lemma AlFsm_InitToPreopWithSm0OnlyFails:
  "observed (requests [2] (configure_sm 0x0800 (TEST_SM0 0x80) set_up)) = Some (1, True, 0x0016)"
  by (subst test_run [OF shown_sm0(1)]) (simp_all add: test_eval validate_tests)

lemma AlFsm_InitToPreopWithZeroLengthSmFails:
  "observed (requests [2] (configure_sm 0x0808 TEST_SM1 (configure_sm 0x0800 (TEST_SM0 0) set_up))) = Some (1, True, 0x0016)"
  by (subst test_run [OF shown_sm0(2)]) (simp_all add: test_eval validate_tests)

section \<open>The object dictionary\<close>

text \<open>
  \<open>test_od.cpp\<close>: a table over six variables, numbered in the order of their declaration. The type
  codes are 5 (U8), 7 (U32) and 9 (string).
\<close>

definition TEST_ENTRIES :: "od_entry list" where
  "TEST_ENTRIES =
     [od_ro 0x1000 0 7 4 0, od_ro 0x1008 0 9 16 1, od_ro 0x1018 0 5 1 2, od_ro 0x1018 1 7 4 3, od_ro 0x1018 2 7 4 4,
      \<lparr>e_index = 0x2000, e_subindex = 0, e_type = 7, e_flags = 3, e_length = 4, e_storage = Some 5\<rparr>]"

definition TEST_TABLE :: "od_table option" where
  "TEST_TABLE = Some \<lparr>entries = Some TEST_ENTRIES, entry_count = 6\<rparr>"

definition test_store :: od_store where
  "test_store h =
     (if h = 0 then le32 0x12345678 else if h = 1 then [0x75, 0x6C, 0x5F, 0x65, 0x63, 0x61, 0x74] @ replicate 9 0
      else if h = 2 then [4] else if h = 3 then le32 2 else if h = 4 then le32 0x1C213052
      else if h = 5 then le32 0 else [])"

lemma Od_LookupHitOnFirstEntry: "map_option e_type (ul_ecat_od_lookup TEST_TABLE 0x1000 0) = Some 7"
  by code_simp

lemma Od_LookupHitWithSubindex:
  "map_option (\<lambda>e. (e_index e, e_subindex e)) (ul_ecat_od_lookup TEST_TABLE 0x1018 2) = Some (0x1018, 2)"
  by code_simp

lemma Od_LookupMissUnknownIndex: "ul_ecat_od_lookup TEST_TABLE 0x9999 0 = None"
  by code_simp

lemma Od_LookupMissUnknownSubindex:
  "ul_ecat_od_lookup TEST_TABLE 0x1018 0 \<noteq> None \<and> ul_ecat_od_lookup TEST_TABLE 0x1018 0xFF = None"
  by code_simp

lemma Od_IndexExists:
  "ul_ecat_od_index_exists TEST_TABLE 0x1018 \<and> ul_ecat_od_index_exists TEST_TABLE 0x2000 \<and> \<not> ul_ecat_od_index_exists TEST_TABLE 0x9999"
  by code_simp

lemma Od_ReadU32Vendor: "ul_ecat_od_read test_store (ul_ecat_od_lookup TEST_TABLE 0x1018 1) 8 = Inr (le32 2)"
  by code_simp

lemma Od_ReadStringDeviceName:
  "ul_ecat_od_read test_store (ul_ecat_od_lookup TEST_TABLE 0x1008 0) 16 =
     Inr ([0x75, 0x6C, 0x5F, 0x65, 0x63, 0x61, 0x74] @ replicate 9 0)"
  by code_simp

lemma Od_ReadDestTooSmall: "ul_ecat_od_read test_store (ul_ecat_od_lookup TEST_TABLE 0x1018 1) 2 = Inl OD_ERR_LENGTH"
  by code_simp

lemma Od_WriteToReadOnlyRejected:
  "ul_ecat_od_write test_store (ul_ecat_od_lookup TEST_TABLE 0x1000 0) (le32 0xDEADBEEF) = Inl OD_ERR_NOT_WRITABLE"
  by (simp add: ul_ecat_od_write_def ul_ecat_od_lookup_def od_array_def TEST_TABLE_def TEST_ENTRIES_def od_ro_def)

lemma Od_WriteThenReadRw:
  "(case ul_ecat_od_write test_store (ul_ecat_od_lookup TEST_TABLE 0x2000 0) (le32 0xCAFEBABE) of
      Inl e \<Rightarrow> Inl e
    | Inr st \<Rightarrow> ul_ecat_od_read st (ul_ecat_od_lookup TEST_TABLE 0x2000 0) 4) = Inr (le32 0xCAFEBABE)"
  by code_simp

lemma Od_WriteOversizedRejected:
  "ul_ecat_od_write test_store (ul_ecat_od_lookup TEST_TABLE 0x2000 0) (replicate 8 0) = Inl OD_ERR_LENGTH"
  by (simp add: ul_ecat_od_write_def ul_ecat_od_lookup_def od_array_def TEST_TABLE_def TEST_ENTRIES_def od_ro_def test_store_def le32_def)

lemma Od_NoTableInstalled: "ul_ecat_od_lookup None 0x1000 0 = None \<and> \<not> ul_ecat_od_index_exists None 0x1018"
  by code_simp

abbreviation generated :: "od_table option" where
  "generated \<equiv> Some ul_ecat_generated_od_table"

lemma GeneratedOd_MandatoryObjectsPresent:
  "\<forall>(i, s) \<in> {(0x1000, 0), (0x1008, 0), (0x1009, 0), (0x100A, 0), (0x1018, 0), (0x1018, 1), (0x1018, 4)}.
     ul_ecat_od_lookup generated i s \<noteq> None"
  by code_simp

lemma GeneratedOd_IdentitySubindexCountIsFour:
  "ul_ecat_od_read generated_store (ul_ecat_od_lookup generated 0x1018 0) 1 = Inr [4]"
  by code_simp

lemma GeneratedOd_IdentityVendorMatchesGeneratedIdentity:
  "ul_ecat_od_read generated_store (ul_ecat_od_lookup generated 0x1018 1) 4 = Inr (le32 0x00000002)"
  by code_simp

lemma GeneratedOd_AllEntriesAreReadOnly: "list_all (\<lambda>e. readable e \<and> \<not> writable e) (od_array generated)"
  by code_simp

section \<open>SDO requests to the server\<close>

text \<open>\<open>build_sdo_frame\<close> of \<open>test_coe.cpp\<close>.\<close>

definition build_sdo_frame :: "byte \<Rightarrow> u16 \<Rightarrow> byte \<Rightarrow> u32 \<Rightarrow> bytes" where
  "build_sdo_frame cmd index subindex data =
     [10, 0, 0x00, 0x10, 0x00, UL_ECAT_MBX_TYPE_COE, 0x00, 0x20, cmd] @ le16 index @ [subindex] @ le32 data @ replicate 112 0"

fun coe_replies :: "coe \<Rightarrow> bytes list \<Rightarrow> bytes list" where
  "coe_replies c [] = []"
| "coe_replies c (req # reqs) =
     (let (reply, c') = ul_ecat_slave_coe_process c req 256 in reply # coe_replies c' reqs)"

lemma coe_vendor: "coe_replies demo_coe [build_sdo_frame 0x40 0x1018 1 0] =
    [[10, 0, 0x00, 0x10, 0x00, 3, 0, 0x30, 0x43, 0x18, 0x10, 1, 2, 0, 0, 0]]"
  by code_simp

section \<open>Mailbox and server over datagrams\<close>

text \<open>
  The fixture of \<open>test_mailbox.cpp\<close> and \<open>test_coe.cpp\<close>: mailboxes of 128 bytes at 0x0D00 and
  0x0D80. \<open>test_slave\<close> is the slave that it sets up.
\<close>

definition configure_mailbox :: "slave option \<Rightarrow> slave option" where
  "configure_mailbox so =
     configure_sm 0x0808 [0x80, 0x0D, 0x80, 0x00, 0x22, 0x00, 0x01, 0x00]
       (configure_sm 0x0800 [0x00, 0x0D, 0x80, 0x00, 0x26, 0x00, 0x01, 0x00] so)"

definition test_slave :: slave where
  "test_slave = (assigned TEST_MAC TEST_ID)
     \<lparr>esc := mem_write (mem_write (esc (assigned TEST_MAC TEST_ID)) 0x800 [0x00, 0x0D, 0x80, 0x00, 0x26, 0x00, 0x01, 0x00])
        0x808 [0x80, 0x0D, 0x80, 0x00, 0x22, 0x00, 0x01, 0x00]\<rparr>"

lemma configure_quiet:
  assumes "station_of s = 0x1000" "length sm = 8" "ado \<in> {0x800, 0x808 :: u16}"
    and "\<not> fst (ul_ecat_slave_mailbox_on_sm0_write (s\<lparr>esc := mem_write (esc s) (unat ado) sm\<rparr>) ado 8)"
  shows "configure_sm ado sm (Some s) = Some (s\<lparr>esc := mem_write (esc s) (unat ado) sm\<rparr>)"
proof -
  let ?w = "write_dgram UL_ECAT_CMD_FPWR 0x1000 ado sm"
  have d: "sm \<noteq> []" "length sm \<le> 256" "unat ado + length sm \<le> 4096" using assms(2,3) by auto
  note w = write_reaches_slave [OF assms(1) _ d]
  have "\<not> covers ?w 0x120" using assms(2,3) by (auto simp: covers_def)
  then have sv: "serve1 s ?w = (?w\<lparr>d_wkc := 1\<rparr>,
      snd (ul_ecat_slave_mailbox_on_sm0_write (s\<lparr>esc := mem_write (esc s) (unat ado) sm\<rparr>) ado (d_len ?w)))"
    using serve1_write [OF w(1-4)] by simp
  have "d_len ?w = 8" using assms(2) by (simp add: write_dgram_def)
  moreover have "snd (ul_ecat_slave_mailbox_on_sm0_write (s\<lparr>esc := mem_write (esc s) (unat ado) sm\<rparr>) ado 8)
      = s\<lparr>esc := mem_write (esc s) (unat ado) sm\<rparr>"
    using assms(4) by (auto simp: on_sm0_write_eq Let_def)
  ultimately show ?thesis
    using test_fpwr_serve [OF d(2), of s "0x1000" ado False] sv by (simp add: configure_sm_def Let_def)
qed

lemma test_slave_set_up: "configure_mailbox set_up = Some test_slave"
proof -
  let ?s = "assigned TEST_MAC TEST_ID" and ?a = "[0x00, 0x0D, 0x80, 0x00, 0x26, 0x00, 0x01, 0x00] :: bytes"
  have 1: "configure_sm 0x0800 ?a (Some ?s) = Some (?s\<lparr>esc := mem_write (esc ?s) 0x800 ?a\<rparr>)"
    using assigned_facts(1) [of TEST_MAC TEST_ID]
    by (subst configure_quiet) (simp_all add: on_sm0_write_eq Let_def ul_ecat_sm_read_def of_le16_def)
  have "station_of (?s\<lparr>esc := mem_write (esc ?s) 0x800 ?a\<rparr>) = 0x1000"
    using assigned_facts(1) [of TEST_MAC TEST_ID] by (simp add: station_of_def read_u16_reg mem_write_outside)
  then show ?thesis unfolding configure_mailbox_def set_up_assigned 1
    by (subst configure_quiet) (simp_all add: on_sm0_write_eq Let_def ul_ecat_sm_read_def of_le16_def test_slave_def)
qed

lemma test_slave_sm:
  "ul_ecat_sm_read (esc test_slave) 0 =
     \<lparr>start_addr = 0xD00, sm_length = 128, sm_control = 0x26, sm_status = 0, sm_activate = 1, sm_pdi_ctrl = 0\<rparr>"
  "ul_ecat_sm_read (esc test_slave) 1 =
     \<lparr>start_addr = 0xD80, sm_length = 128, sm_control = 0x22, sm_status = 0, sm_activate = 1, sm_pdi_ctrl = 0\<rparr>"
  by (simp_all add: test_slave_def ul_ecat_sm_read_def Let_def of_le16_def)

lemma test_slave_facts: "mailbox_configured test_slave" "station_of test_slave = 0x1000" "length (mac test_slave) = 6"
proof -
  show "mailbox_configured test_slave"
    using test_slave_sm unfolding mailbox_configured_def sm_slot_ready_def sm_capacity_def sm_buffer_clear_def Let_def
    by (simp add: mailbox_sm_def ul_ecat_sm_is_active_def ul_ecat_sm_is_mailbox_def test_slave_sm [simplified])
  show "station_of test_slave = 0x1000"
    using assigned_facts(1) [of TEST_MAC TEST_ID] by (simp add: station_of_def read_u16_reg test_slave_def mem_write_outside)
  show "length (mac test_slave) = 6" by (simp add: test_slave_def assigned_def Let_def ul_ecat_slave_init_def TEST_MAC_def)
qed

text \<open>Reading back as the tests do.\<close>

definition test_fprd :: "slave \<Rightarrow> u16 \<Rightarrow> u16 \<Rightarrow> u16 \<Rightarrow> (u16 \<times> bytes \<times> slave) option" where
  "test_fprd s station ado len =
     (case ul_ecat_dgram_encode 512 UL_ECAT_CMD_FPRD 0 station ado len 0 0 None of
        None \<Rightarrow> None
      | Some dg \<Rightarrow>
          (case ul_ecat_slave_process_pdu s dg 512 of
             (None, s') \<Rightarrow> None
           | (Some pdu_out, s') \<Rightarrow>
               map_option (\<lambda>d. (d_wkc d, d_data d, s')) (ul_ecat_dgram_parse pdu_out 0 (Some (unat len)))))"

lemma test_fprd_serve:
  assumes "unat len \<le> 256"
  shows "test_fprd s station ado len =
    (let r = serve1 s (read_dgram station ado len) in Some (d_wkc (fst r), d_data (fst r), snd r))"
proof -
  let ?d = "read_dgram station ado len"
  have v: "valid_dgram ?d" by (rule dgram_valid(1) [OF assms])
  have l: "unat (d_len ?d) \<le> 256" using assms by simp
  note sh = serve1_shape(1,2) [OF prod.collapse [symmetric] v, of s]
  show ?thesis
    using process_dgram [OF v l] parse_reply(1) [OF sh(1), of "unat len"] sh(2) assms
    by (simp add: test_fprd_def encode_read_dgram Let_def)
qed

text \<open>A request to the server and its reply, over the controller and back from SM1.\<close>

definition sdo_round_trip :: "unit controller \<Rightarrow> bytes \<Rightarrow> (bytes \<times> unit controller) option" where
  "sdo_round_trip c req =
     (case ul_ecat_dgram_encode 512 UL_ECAT_CMD_FPWR 0 0x1000 0x0D00 (word_of_nat (length req)) 0 0 (Some req) of
        None \<Rightarrow> None
      | Some dg \<Rightarrow>
          (case ul_ecat_build_eth_frame TEST_MAC [0x02, 0xAA, 0xBB, 0xCC, 0xDD, 0xEE] dg 1600 of
             None \<Rightarrow> None
           | Some rx \<Rightarrow>
               (case ul_ecat_slave_controller_process_ethernet c rx 1600 of
                  (Inl e, c1) \<Rightarrow> None
                | (Inr tx, c1) \<Rightarrow>
                    (case test_fprd (c_slave c1) 0x1000 0x0D80 128 of
                       None \<Rightarrow> None
                     | Some (wkc, reply, s') \<Rightarrow> if wkc \<ge> 1 then Some (reply, c1\<lparr>c_slave := s'\<rparr>) else None))))"

fun sdo_round_trips :: "unit controller \<Rightarrow> bytes list \<Rightarrow> bytes list option" where
  "sdo_round_trips c [] = Some []"
| "sdo_round_trips c (req # reqs) =
     (case sdo_round_trip c req of
        None \<Rightarrow> None
      | Some (reply, c1) \<Rightarrow> map_option (\<lambda>rs. reply # rs) (sdo_round_trips c1 reqs))"

definition under_test :: "unit controller \<Rightarrow> bool" where
  "under_test c \<longleftrightarrow> c_backend c = SOFTWARE_ETHERNET \<and> on_mailbox_rx c = Some DefaultCoe \<and>
     mailbox_configured (c_slave c) \<and> station_of (c_slave c) = 0x1000 \<and> length (mac (c_slave c)) = 6 \<and>
     start_addr (ul_ecat_sm_read (esc (c_slave c)) 0) = 0xD00 \<and> start_addr (ul_ecat_sm_read (esc (c_slave c)) 1) = 0xD80 \<and>
     sm_length (ul_ecat_sm_read (esc (c_slave c)) 0) = 128 \<and> sm_length (ul_ecat_sm_read (esc (c_slave c)) 1) = 128"

lemma under_test_dgrams:
  assumes "under_test c" "length req = 128"
  shows "mailbox_write (c_slave c) req = write_dgram UL_ECAT_CMD_FPWR 0x1000 0xD00 req"
    and "mailbox_fetch (c_slave c) = read_dgram 0x1000 0xD80 128"
    and "sm_capacity 0 (c_slave c) = 128" "sm_capacity 1 (c_slave c) = 128"
  using assms
  by (simp_all add: under_test_def mailbox_write_def mailbox_fetch_def write_dgram_def read_dgram_def Let_def sm_capacity_def padded_def)

lemma round_trip:
  assumes "under_test c" "length req = 128"
    and "ul_ecat_slave_coe_process (c_coe c) req 256 = (reply, coe')" "reply \<noteq> []" "length reply \<le> 128"
  obtains c' where "sdo_round_trip c req = Some (padded 128 reply, c')" "under_test c'" "c_coe c' = coe'"
proof -
  let ?s = "c_slave c" and ?w = "write_dgram UL_ECAT_CMD_FPWR 0x1000 0xD00 req" and ?r = "read_dgram 0x1000 0xD80 128"
  note u = assms(1) [unfolded under_test_def] and dg = under_test_dgrams [OF assms(1,2)]
  obtain s1 s2 s3 where st: "serve1 ?s (mailbox_write ?s req) = ((mailbox_write ?s req)\<lparr>d_wkc := 1\<rparr>, s1)"
    "dispatch_mailbox_if_ready (c\<lparr>c_slave := s1\<rparr>) = c\<lparr>c_slave := s2, c_coe := coe'\<rparr>"
    "serve1 s2 (mailbox_fetch ?s) = ((mailbox_fetch ?s)\<lparr>d_wkc := 1, d_data := padded (sm_capacity 1 ?s) reply\<rparr>, s3)"
    "mac s3 = mac ?s" "\<forall>j < 0x820. j \<noteq> 0x805 \<and> j \<noteq> 0x80D \<longrightarrow> esc s3 j = esc ?s j"
    by (rule sdo_steps [of c ?s req reply coe']) (use u assms(2-5) dg(3,4) in auto)
  have v: "valid_dgram ?w" "unat (d_len ?w) \<le> DG_DATA_MAX" using dgram_valid(2) [of req] assms(2) by simp_all
  obtain f where f: "ul_ecat_build_eth_frame TEST_MAC [0x02, 0xAA, 0xBB, 0xCC, 0xDD, 0xEE] (dgram_bytes ?w) 1600 = Some f"
    using build_ok [of "dgram_bytes ?w" 1600] assms(2) by (auto simp: length_dgram_bytes)
  have lf: "length f \<le> 1600" using build_length(1) [OF f] assms(2) by (simp add: TEST_MAC_def length_dgram_bytes)
  obtain g where g: "ul_ecat_slave_controller_process_ethernet c f 1600 = (Inr g, c\<lparr>c_slave := s2, c_coe := coe'\<rparr>)"
    using controller_one_dgram [OF _ _ _ _ v st(1) [unfolded dg(1)] f lf] st(2) u by (auto simp: TEST_MAC_def)
  let ?c' = "c\<lparr>c_slave := s3, c_coe := coe'\<rparr>"
  have enc: "ul_ecat_dgram_encode 512 UL_ECAT_CMD_FPWR 0 0x1000 0x0D00 (word_of_nat (length req)) 0 0 (Some req) = Some (dgram_bytes ?w)"
    using encode_write_dgram [of req UL_ECAT_CMD_FPWR "0x1000" "0xD00"] assms(2) by simp
  have run: "sdo_round_trip c req = Some (padded 128 reply, c\<lparr>c_slave := s2, c_coe := coe'\<rparr>\<lparr>c_slave := s3\<rparr>)"
    using f g enc test_fprd_serve [of 128 s2 "0x1000" "0xD80"] st(3) dg(2,4)
    by (simp add: sdo_round_trip_def)
  have far: "esc s3 j = esc ?s j" if "j < 0x820" "j \<noteq> 0x805" "j \<noteq> 0x80D" for j using st(5) that by blast
  have "under_test ?c'"
    using u st(4) configured_cong(1) [of s3 ?s] configured_cong(2,3) [of s3 ?s 0] configured_cong(2,3) [of s3 ?s 1] far
    by (auto simp: under_test_def station_of_def read_u16_reg)
  then show ?thesis using run that [of ?c'] by (simp add: )
qed

lemma round_trips:
  assumes "under_test c" "\<forall>r \<in> set reqs. length r = 128" "\<forall>r \<in> set (coe_replies (c_coe c) reqs). r \<noteq> [] \<and> length r \<le> 128"
  shows "sdo_round_trips c reqs = Some (map (padded 128) (coe_replies (c_coe c) reqs))"
  using assms
proof (induction reqs arbitrary: c)
  case (Cons req reqs)
  obtain reply coe' where p: "ul_ecat_slave_coe_process (c_coe c) req 256 = (reply, coe')" by fastforce
  then have r: "reply \<noteq> []" "length reply \<le> 128" using Cons.prems(3) by simp_all
  obtain c' where c': "sdo_round_trip c req = Some (padded 128 reply, c')" "under_test c'" "c_coe c' = coe'"
    using round_trip [OF Cons.prems(1) _ p r] Cons.prems(2) by auto
  then show ?case using Cons.IH [OF c'(2)] Cons.prems(2,3) p by simp
qed simp

text \<open>The controller of the fixture: initialised, its slave configured.\<close>

definition test_controller :: "coe \<Rightarrow> unit controller" where
  "test_controller coe0 = (ul_ecat_slave_controller_init coe0 () SOFTWARE_ETHERNET TEST_MAC TEST_ID)\<lparr>c_slave := test_slave\<rparr>"

lemma test_controller_under_test: "under_test (test_controller coe0)"
  using test_slave_facts test_slave_sm
  by (simp add: under_test_def test_controller_def ul_ecat_slave_controller_init_def Let_def)

lemma test_controller_coe: "c_coe (test_controller coe0) = coe0\<lparr>g_table := generated\<rparr>"
  by (simp add: test_controller_def ul_ecat_slave_controller_init_def ul_ecat_od_set_table_def Let_def)

text \<open>\<open>test_coe.cpp\<close>, on the controller with the generated dictionary.\<close>

lemma coe_test_on:
  assumes "coe_replies co reqs = replies" "list_all (\<lambda>r. length r = 128) reqs" "list_all (\<lambda>r. r \<noteq> [] \<and> length r \<le> 128) replies"
  shows "sdo_round_trips ((test_controller demo_coe)\<lparr>c_coe := co\<rparr>) reqs = Some (map (padded 128) replies)"
proof -
  have "under_test ((test_controller demo_coe)\<lparr>c_coe := co\<rparr>)"
    using test_controller_under_test [of demo_coe] by (simp add: under_test_def)
  from round_trips [OF this, of reqs] assms show ?thesis by (simp add: list_all_iff)
qed

lemma coe_test:
  assumes "coe_replies demo_coe reqs = replies" "list_all (\<lambda>r. length r = 128) reqs" "list_all (\<lambda>r. r \<noteq> [] \<and> length r \<le> 128) replies"
  shows "sdo_round_trips (test_controller demo_coe) reqs = Some (map (padded 128) replies)"
proof -
  have "(test_controller demo_coe)\<lparr>c_coe := demo_coe\<rparr> = test_controller demo_coe"
    using test_controller_coe [of demo_coe] by (simp add: demo_coe_def)
  then show ?thesis using coe_test_on [OF assms] by simp
qed

definition sdo_header :: "byte \<Rightarrow> bytes" where
  "sdo_header len = [len, 0, 0x00, 0x10, 0x00, UL_ECAT_MBX_TYPE_COE, 0x00, 0x30]"

lemma Coe_UploadVendorIdReturnsExpedited4Bytes:
  "sdo_round_trips (test_controller demo_coe) [build_sdo_frame 0x40 0x1018 1 0] =
     Some (map (padded 128) [sdo_header 10 @ [0x43, 0x18, 0x10, 1, 2, 0, 0, 0]])"
  by (rule coe_test; code_simp)

lemma Coe_UploadIdentitySubindex0IsCount4:
  "sdo_round_trips (test_controller demo_coe) [build_sdo_frame 0x40 0x1018 0 0] =
     Some (map (padded 128) [sdo_header 10 @ [0x4F, 0x18, 0x10, 0, 4, 0, 0, 0]])"
  by (rule coe_test; code_simp)

lemma Coe_UploadUnknownObjectAborts0x06020000:
  "sdo_round_trips (test_controller demo_coe) [build_sdo_frame 0x40 0x9999 0 0] =
     Some (map (padded 128) [sdo_header 10 @ [0x80, 0x99, 0x99, 0] @ le32 0x06020000])"
  by (rule coe_test; code_simp)

lemma Coe_UploadKnownIndexBadSubindexAborts0x06090011:
  "sdo_round_trips (test_controller demo_coe) [build_sdo_frame 0x40 0x1018 0xFF 0] =
     Some (map (padded 128) [sdo_header 10 @ [0x80, 0x18, 0x10, 0xFF] @ le32 0x06090011])"
  by (rule coe_test; code_simp)

lemma Coe_DownloadToReadOnlyAborts0x06010002:
  "sdo_round_trips (test_controller demo_coe) [build_sdo_frame 0x23 0x1018 1 0xDEADBEEF] =
     Some (map (padded 128) [sdo_header 10 @ [0x80, 0x18, 0x10, 1] @ le32 0x06010002])"
  by (rule coe_test; code_simp)

lemma Coe_SdoInfoGetOdListReturnsExpectedIndices:
  "sdo_round_trips (test_controller demo_coe)
     [[10, 0, 0x00, 0x10, 0x00, UL_ECAT_MBX_TYPE_COE, 0x00, 0x80, 0x01, 0, 0, 0, 0x01] @ replicate 115 0] =
   Some (map (padded 128) [[18, 0, 0x00, 0x10, 0x00, UL_ECAT_MBX_TYPE_COE, 0x00, 0x80, 0x02, 0, 0, 0, 1, 0] @
     concat (map le16 [0x1000, 0x1008, 0x1009, 0x100A, 0x1018])])"
  by (rule coe_test; code_simp)

text \<open>Five segments of the 32 bytes of ``ul_ecat slave''; the last one carries four and says so.\<close>

lemma Coe_UploadDeviceNameSegmentedReassembles:
  "sdo_round_trips (test_controller demo_coe)
     (build_sdo_frame 0x40 0x1008 0 0 # map (\<lambda>t. build_sdo_frame (0x60 OR t) 0 0 0) [0, 0x10, 0, 0x10, 0]) =
   Some (map (padded 128)
     [sdo_header 10 @ [0x41, 0x08, 0x10, 0, 32, 0, 0, 0],
      sdo_header 10 @ [0x00, 0x75, 0x6C, 0x5F, 0x65, 0x63, 0x61, 0x74],
      sdo_header 10 @ [0x10, 0x20, 0x73, 0x6C, 0x61, 0x76, 0x65, 0],
      sdo_header 10 @ [0x00, 0, 0, 0, 0, 0, 0, 0],
      sdo_header 10 @ [0x10, 0, 0, 0, 0, 0, 0, 0],
      sdo_header 10 @ [0x07, 0, 0, 0, 0, 0, 0, 0]])"
  by (rule coe_test; code_simp)

lemma Coe_UploadSegmentWithWrongToggleAborts:
  "sdo_round_trips (test_controller demo_coe) [build_sdo_frame 0x40 0x1008 0 0, build_sdo_frame 0x70 0 0 0] =
   Some (map (padded 128)
     [sdo_header 10 @ [0x41, 0x08, 0x10, 0, 32, 0, 0, 0],
      sdo_header 10 @ [0x80, 0x08, 0x10, 0] @ le32 0x05030000])"
  by (rule coe_test; code_simp)

definition rw_coe :: coe where
  "rw_coe = ul_ecat_od_set_table (demo_coe\<lparr>storage := generated_store(9 := le32 0)\<rparr>)
     (Some \<lparr>entries = Some [\<lparr>e_index = 0x2000, e_subindex = 0, e_type = 7, e_flags = 3, e_length = 4, e_storage = Some 9\<rparr>],
        entry_count = 1\<rparr>)"

lemma Coe_DownloadThenUploadRoundtripOnRwEntry:
  "sdo_round_trips ((test_controller demo_coe)\<lparr>c_coe := rw_coe\<rparr>)
     [build_sdo_frame 0x23 0x2000 0 0xCAFEBABE, build_sdo_frame 0x40 0x2000 0 0] =
   Some (map (padded 128)
     [sdo_header 10 @ [0x60, 0x00, 0x20, 0, 0, 0, 0, 0],
      sdo_header 10 @ [0x43, 0x00, 0x20, 0] @ le32 0xCAFEBABE])"
  by (rule coe_test_on; code_simp)

section \<open>The mailbox\<close>

text \<open>\<open>test_mailbox.cpp\<close>\<close>

lemma Mailbox_PartialSm0WriteDoesNotSetMbxFull:
  assumes "length data = 64"
  shows "\<exists>s'. test_fpwr test_slave 0x1000 0xD00 data False = Some (1, s') \<and> \<not> mbx_full (esc s') 0"
proof -
  let ?w = "write_dgram UL_ECAT_CMD_FPWR 0x1000 0xD00 data"
  let ?s = "test_slave\<lparr>esc := mem_write (esc test_slave) 0xD00 data\<rparr>"
  have d: "data \<noteq> []" "length data \<le> 256" "unat (0xD00 :: u16) + length data \<le> 4096" using assms by auto
  note w = write_reaches_slave [OF test_slave_facts(2) _ d]
  have "\<not> covers ?w 0x120" by (simp add: covers_def)
  moreover have "d_len ?w = 64" using assms by (simp add: write_dgram_def)
  moreover have sm: "ul_ecat_sm_read (esc ?s) 0 = ul_ecat_sm_read (esc test_slave) 0"
    by (rule sm_read_cong) (simp add: mem_write_outside)
  moreover have "ul_ecat_slave_mailbox_on_sm0_write ?s 0xD00 64 = (False, ?s)"
    unfolding on_sm0_write_eq sm by (simp add: Let_def test_slave_sm [simplified])
  ultimately have "serve1 test_slave ?w = (?w\<lparr>d_wkc := 1\<rparr>, ?s)"
    using serve1_write [OF w(1-4)] by simp
  moreover have "\<not> mbx_full (esc ?s) 0"
    using test_slave_sm(1) by (simp add: mbx_full_def mem_write_outside) (simp add: ul_ecat_sm_read_def Let_def)
  ultimately show ?thesis using test_fpwr_serve [OF d(2), of test_slave "0x1000" "0xD00" False] by (simp add: Let_def)
qed

text \<open>A reply put into SM1 and fetched.\<close>

lemma put_reply:
  assumes "mailbox_configured s" "f \<noteq> []" "length f = sm_capacity 1 s"
  obtains s1 where "ul_ecat_slave_mailbox_write_sm1 s f = (True, s1)" "mailbox_configured s1" "sm_buffer (esc s1) 1 = f"
    "mbx_full (esc s1) 1" "mac s1 = mac s" "\<forall>j < 0x820. j \<noteq> 0x80D \<longrightarrow> esc s1 j = esc s j"
proof -
  note sl = configured_slot1 [OF assms(1)]
  let ?m = "mem_write (esc s) (unat (start_addr (ul_ecat_sm_read (esc s) 1))) f"
  let ?s1 = "s\<lparr>esc := sm_set_status_bit ?m 1 UL_ECAT_SM_STAT_MBX_FULL\<rparr>"
  have put: "ul_ecat_slave_mailbox_write_sm1 s f = (True, ?s1)"
    using write_sm1_ready [OF sl(1) assms(2)] assms(3) by simp
  have far: "\<forall>j < 0x820. j \<noteq> 0x80D \<longrightarrow> esc ?s1 j = esc s j"
    using sl(2) by (simp add: status_bit_frame mem_write_outside)
  have "mailbox_configured ?s1" using configured_cong(1) [of ?s1 s] far assms(1) by auto
  then show ?thesis
    using put far sm1.put_content [OF sl(1) put] assms(3) by (intro that [of ?s1]) simp_all
qed

lemma Mailbox_ReplySetsSm1Full_ReadClearsIt:
  assumes "length reply = 128"
  shows "\<exists>c' s'. ul_ecat_slave_controller_mailbox_reply (test_controller coe0) reply = (True, c') \<and>
    mbx_full (esc (c_slave c')) 1 \<and> test_fprd (c_slave c') 0x1000 0xD80 128 = Some (1, reply, s') \<and> \<not> mbx_full (esc s') 1"
proof -
  have cap: "sm_capacity 1 test_slave = 128" using test_slave_sm(2) by (simp add: sm_capacity_def)
  have f: "reply \<noteq> []" "length reply = sm_capacity 1 test_slave" using assms cap by auto
  obtain s1 where s1: "ul_ecat_slave_mailbox_write_sm1 test_slave reply = (True, s1)" "mailbox_configured s1" "sm_buffer (esc s1) 1 = reply"
    "mbx_full (esc s1) 1" "mac s1 = mac test_slave" "\<forall>j < 0x820. j \<noteq> 0x80D \<longrightarrow> esc s1 j = esc test_slave j"
    by (rule put_reply [OF test_slave_facts(1) f])
  have st: "station_of s1 = 0x1000" using s1(6) test_slave_facts(2) by (simp add: station_of_def read_u16_reg)
  have "start_addr (ul_ecat_sm_read (esc s1) 1) = 0xD80" "sm_length (ul_ecat_sm_read (esc s1) 1) = 128"
    using configured_cong(2,3) [of s1 test_slave 1] s1(6) test_slave_sm(2) by auto
  then have "mailbox_fetch s1 = read_dgram 0x1000 0xD80 128" using st by (simp add: mailbox_fetch_def read_dgram_def Let_def)
  with serve_mailbox_fetch(2) [OF s1(2)] st s1(3)
  have "test_fprd s1 0x1000 0xD80 128 = Some (1, reply, s1\<lparr>esc := sm_clear_status_bit (esc s1) 1 UL_ECAT_SM_STAT_MBX_FULL\<rparr>)"
    by (simp add: test_fprd_serve Let_def)
  then show ?thesis
    using s1(1,4) by (simp add: ul_ecat_slave_controller_mailbox_reply_def test_controller_def)
qed

lemma Mailbox_PartialSm1ReadDoesNotClearFull:
  assumes "length reply = 128"
  shows "\<exists>c' raw s'. ul_ecat_slave_controller_mailbox_reply (test_controller coe0) reply = (True, c') \<and>
    mbx_full (esc (c_slave c')) 1 \<and> test_fprd (c_slave c') 0x1000 0xD80 32 = Some (1, raw, s') \<and> mbx_full (esc s') 1"
proof -
  have cap: "sm_capacity 1 test_slave = 128" using test_slave_sm(2) by (simp add: sm_capacity_def)
  have f: "reply \<noteq> []" "length reply = sm_capacity 1 test_slave" using assms cap by auto
  obtain s1 where s1: "ul_ecat_slave_mailbox_write_sm1 test_slave reply = (True, s1)" "mbx_full (esc s1) 1"
    "\<forall>j < 0x820. j \<noteq> 0x80D \<longrightarrow> esc s1 j = esc test_slave j"
    using put_reply [OF test_slave_facts(1) f] by metis
  have st: "station_of s1 = 0x1000" using s1(3) test_slave_facts(2) by (simp add: station_of_def read_u16_reg)
  have "start_addr (ul_ecat_sm_read (esc s1) 1) = 0xD80" "sm_length (ul_ecat_sm_read (esc s1) 1) = 128"
    using configured_cong(2,3) [of s1 test_slave 1] s1(3) test_slave_sm(2) by auto
  then have "ul_ecat_slave_mailbox_on_sm1_read s1 0xD80 32 = s1" by (simp add: on_sm1_read_eq Let_def)
  with read_reaches_slave [OF st, of 32 "0xD80"]
  have "test_fprd s1 0x1000 0xD80 32 = Some (1, mem_read (esc s1) 0xD80 32, s1)"
    by (simp add: test_fprd_serve Let_def)
  then show ?thesis
    using s1(1,2) by (simp add: ul_ecat_slave_controller_mailbox_reply_def test_controller_def)
qed

lemma Mailbox_OversizedReplyRejected:
  "ul_ecat_slave_controller_mailbox_reply (test_controller coe0) (replicate 129 0) = (False, test_controller coe0)"
proof -
  have "\<not> fst (ul_ecat_slave_mailbox_write_sm1 test_slave (replicate 129 0))"
    using test_slave_sm(2) by (simp add: write_sm1_eq Let_def)
  then show ?thesis
    by (auto simp: ul_ecat_slave_controller_mailbox_reply_def test_controller_def write_sm1_eq Let_def split: if_splits)
qed

text \<open>A whole request written through the controller, up to the call of the handler.\<close>

definition mailbox_frame :: "bytes \<Rightarrow> bytes option" where
  "mailbox_frame data =
     Option.bind (ul_ecat_dgram_encode 512 UL_ECAT_CMD_FPWR 0 0x1000 0xD00 (word_of_nat (length data)) 0 0 (Some data))
       (\<lambda>dg. ul_ecat_build_eth_frame TEST_MAC [0x02, 0xAA, 0xBB, 0xCC, 0xDD, 0xEE] dg 1600)"

lemma request_reaches_handler:
  assumes "c_backend c = SOFTWARE_ETHERNET" "c_slave c = test_slave" "on_mailbox_rx c = Some (UserHandler f)" "length data = 128"
  obtains rx g s1 where "mailbox_frame data = Some rx"
    "ul_ecat_slave_controller_process_ethernet c rx 1600 = (Inr g,
       let c1 = run_handler (c\<lparr>c_slave := s1\<rparr>) (UserHandler f) data in
       c1\<lparr>c_slave := (c_slave c1)\<lparr>esc := sm_clear_status_bit (esc (c_slave c1)) 0 UL_ECAT_SM_STAT_MBX_FULL\<rparr>\<rparr>)"
    "mailbox_configured s1" "mac s1 = mac test_slave" "\<forall>j < 0x820. j \<noteq> 0x805 \<longrightarrow> esc s1 j = esc test_slave j"
proof -
  let ?w = "write_dgram UL_ECAT_CMD_FPWR 0x1000 0xD00 data"
  let ?s1 = "test_slave\<lparr>esc := sm_set_status_bit (mem_write (esc test_slave) 0xD00 data) 0 UL_ECAT_SM_STAT_MBX_FULL\<rparr>"
  have cap: "sm_capacity 0 test_slave = 128" using test_slave_sm(1) by (simp add: sm_capacity_def)
  have mw: "mailbox_write test_slave data = ?w"
    using assms(4) test_slave_facts(2) test_slave_sm(1)
    by (simp add: mailbox_write_def write_dgram_def Let_def padded_def)
  have sv: "serve1 test_slave ?w = (?w\<lparr>d_wkc := 1\<rparr>, ?s1)"
    using serve_mailbox_write(2) [OF test_slave_facts(1), of data] test_slave_facts(2) cap assms(4) test_slave_sm(1)
    by (simp add: mw padded_def)
  have far: "\<forall>j < 0x820. j \<noteq> 0x805 \<longrightarrow> esc ?s1 j = esc test_slave j" by (simp add: status_bit_frame mem_write_outside)
  have conf: "mailbox_configured ?s1" using configured_cong(1) [of ?s1 test_slave] far test_slave_facts(1) by auto
  have v: "valid_dgram ?w" "unat (d_len ?w) \<le> DG_DATA_MAX" using dgram_valid(2) [of data] assms(4) by simp_all
  obtain rx where rx: "ul_ecat_build_eth_frame TEST_MAC [0x02, 0xAA, 0xBB, 0xCC, 0xDD, 0xEE] (dgram_bytes ?w) 1600 = Some rx"
    using build_ok [of "dgram_bytes ?w" 1600] assms(4) by (auto simp: length_dgram_bytes)
  have lf: "length rx \<le> 1600" using build_length(1) [OF rx] assms(4) by (simp add: TEST_MAC_def length_dgram_bytes)
  have m6: "length (mac (c_slave c)) = 6" "length TEST_MAC = 6" "length [0x02, 0xAA, 0xBB, 0xCC, 0xDD, 0xEE :: byte] = 6"
    using test_slave_facts(3) assms(2) by (simp_all add: TEST_MAC_def)
  have svc: "serve1 (c_slave c) ?w = (?w\<lparr>d_wkc := 1\<rparr>, ?s1)" unfolding assms(2) by (rule sv)
  obtain g where g: "ul_ecat_slave_controller_process_ethernet c rx 1600 = (Inr g, dispatch_mailbox_if_ready (c\<lparr>c_slave := ?s1\<rparr>))"
    using controller_one_dgram [OF assms(1) m6(2,3,1) v svc rx lf] unfolding assms(2) by (elim exE conjE) assumption
  have sm: "start_addr (ul_ecat_sm_read (esc ?s1) 0) = 0xD00" "sm_length (ul_ecat_sm_read (esc ?s1) 0) = 128"
    "mailbox_sm (ul_ecat_sm_read (esc ?s1) 0)"
    using configured_cong(2,3) [of ?s1 test_slave 0] far test_slave_sm(1) configured_slot0(5) [OF conf] by auto
  have frame: "mem_read (esc ?s1) 0xD00 128 = data"
  proof (rule nth_equalityI)
    fix k assume "k < length (mem_read (esc ?s1) 0xD00 128)"
    then have "k < 128" by simp
    then show "mem_read (esc ?s1) 0xD00 128 ! k = data ! k"
      using assms(4) by (simp add: nth_mem_read status_bit_frame mem_write_apply)
  qed (simp add: assms(4))
  have full: "esc ?s1 0x805 AND UL_ECAT_SM_STAT_MBX_FULL \<noteq> 0"
  proof -
    have "mbx_full (esc ?s1) 0" by simp
    then show ?thesis by (simp add: mbx_full_def)
  qed
  have "dispatch_mailbox_if_ready (c\<lparr>c_slave := ?s1\<rparr>) =
      (let c1 = run_handler (c\<lparr>c_slave := ?s1\<rparr>) (UserHandler f) data in
       c1\<lparr>c_slave := (c_slave c1)\<lparr>esc := sm_clear_status_bit (esc (c_slave c1)) 0 UL_ECAT_SM_STAT_MBX_FULL\<rparr>\<rparr>)"
    using assms(3) sm full frame by (simp add: dispatch_mailbox_if_ready_def Let_def mailbox_sm_def)
  then show ?thesis
    using that [of rx g ?s1] rx g conf far encode_write_dgram [of data UL_ECAT_CMD_FPWR "0x1000" "0xD00"] assms(4)
    by (simp add: mailbox_frame_def)
qed

text \<open>The capturing handler keeps the frames it was given, the echoing one answers with a changed counter.\<close>

definition capturing :: "bytes list controller" where
  "capturing = ul_ecat_slave_controller_set_mailbox_handler
     ((ul_ecat_slave_controller_init demo_coe [] SOFTWARE_ETHERNET TEST_MAC TEST_ID)\<lparr>c_slave := test_slave\<rparr>)
     (Some (\<lambda>frame ctx. ([], ctx @ [frame]))) []"

definition echoing :: "unit controller" where
  "echoing = ul_ecat_slave_controller_set_mailbox_handler (test_controller demo_coe)
     (Some (\<lambda>frame ctx. ([frame[5 := (frame ! 5 AND 0x0F) OR 0xA0]], ctx))) ()"

lemma Mailbox_FullSm0WriteDispatchesHandler:
  assumes "length data = 128"
  shows "\<exists>rx g c'. mailbox_frame data = Some rx \<and> ul_ecat_slave_controller_process_ethernet capturing rx 1600 = (Inr g, c') \<and>
    mailbox_ctx c' = [data] \<and> \<not> mbx_full (esc (c_slave c')) 0"
proof -
  have c: "c_backend capturing = SOFTWARE_ETHERNET" "c_slave capturing = test_slave"
    "on_mailbox_rx capturing = Some (UserHandler (\<lambda>frame ctx. ([], ctx @ [frame])))" "mailbox_ctx capturing = []"
    by (simp_all add: capturing_def ul_ecat_slave_controller_set_mailbox_handler_def ul_ecat_slave_controller_init_def Let_def)
  obtain rx g s1 where "mailbox_frame data = Some rx"
    "ul_ecat_slave_controller_process_ethernet capturing rx 1600 = (Inr g,
       let c1 = run_handler (capturing\<lparr>c_slave := s1\<rparr>) (UserHandler (\<lambda>frame ctx. ([], ctx @ [frame]))) data in
       c1\<lparr>c_slave := (c_slave c1)\<lparr>esc := sm_clear_status_bit (esc (c_slave c1)) 0 UL_ECAT_SM_STAT_MBX_FULL\<rparr>\<rparr>)"
    by (rule request_reaches_handler [OF c(1-3) assms])
  then show ?thesis using c(4) by (auto simp: run_handler_def Let_def)
qed

lemma Mailbox_EchoHandlerReplies:
  assumes "length data = 128" "data ! 5 AND 0x0F = UL_ECAT_MBX_TYPE_COE"
  shows "\<exists>rx g c' raw s'. mailbox_frame data = Some rx \<and> ul_ecat_slave_controller_process_ethernet echoing rx 1600 = (Inr g, c') \<and>
    mbx_full (esc (c_slave c')) 1 \<and> test_fprd (c_slave c') 0x1000 0xD80 128 = Some (1, raw, s') \<and> raw = data[5 := 0xA3]"
proof -
  let ?f = "\<lambda>frame (ctx :: unit). ([frame[5 := (frame ! 5 AND 0x0F) OR 0xA0 :: byte]], ctx)"
  have c: "c_backend echoing = SOFTWARE_ETHERNET" "c_slave echoing = test_slave" "on_mailbox_rx echoing = Some (UserHandler ?f)"
    by (simp_all add: echoing_def test_controller_def ul_ecat_slave_controller_set_mailbox_handler_def ul_ecat_slave_controller_init_def Let_def)
  obtain rx g s1 where r: "mailbox_frame data = Some rx"
    "ul_ecat_slave_controller_process_ethernet echoing rx 1600 = (Inr g,
       let c1 = run_handler (echoing\<lparr>c_slave := s1\<rparr>) (UserHandler ?f) data in
       c1\<lparr>c_slave := (c_slave c1)\<lparr>esc := sm_clear_status_bit (esc (c_slave c1)) 0 UL_ECAT_SM_STAT_MBX_FULL\<rparr>\<rparr>)"
    "mailbox_configured s1" "mac s1 = mac test_slave" "\<forall>j < 0x820. j \<noteq> 0x805 \<longrightarrow> esc s1 j = esc test_slave j"
    by (rule request_reaches_handler [OF c assms(1)])
  have low: "esc s1 j = esc test_slave j" if "j < 0x820" "j \<noteq> 0x805" for j using r(5) that by blast
  have sm1: "start_addr (ul_ecat_sm_read (esc s1) 1) = 0xD80" "sm_length (ul_ecat_sm_read (esc s1) 1) = 128"
    using configured_cong(2,3) [of s1 test_slave 1] low test_slave_sm(2) by auto
  have f: "data[5 := 0xA3] \<noteq> []" "length (data[5 := 0xA3]) = sm_capacity 1 s1"
    using assms(1) sm1(2) by (auto simp: sm_capacity_def)
  obtain s2 where s2: "ul_ecat_slave_mailbox_write_sm1 s1 (data[5 := 0xA3]) = (True, s2)" "mailbox_configured s2"
    "sm_buffer (esc s2) 1 = data[5 := 0xA3]" "mbx_full (esc s2) 1" "\<forall>j < 0x820. j \<noteq> 0x80D \<longrightarrow> esc s2 j = esc s1 j"
    using put_reply [OF r(3) f] by metis
  let ?s3 = "s2\<lparr>esc := sm_clear_status_bit (esc s2) 0 UL_ECAT_SM_STAT_MBX_FULL\<rparr>"
  have low3: "esc ?s3 j = esc test_slave j" if "j < 0x820" "j \<noteq> 0x805" "j \<noteq> 0x80D" for j
    using s2(5) low that by (simp add: status_bit_frame)
  have conf: "mailbox_configured ?s3" using configured_cong(1) [of ?s3 test_slave] low3 test_slave_facts(1) by auto
  have st: "station_of ?s3 = 0x1000" using low3 test_slave_facts(2) by (simp add: station_of_def read_u16_reg)
  have a3: "start_addr (ul_ecat_sm_read (esc ?s3) 1) = 0xD80" "sm_length (ul_ecat_sm_read (esc ?s3) 1) = 128"
    using configured_cong(2,3) [of ?s3 test_slave 1] low3 test_slave_sm(2) by auto
  then have fetch: "mailbox_fetch ?s3 = read_dgram 0x1000 0xD80 128" using st by (simp add: mailbox_fetch_def read_dgram_def Let_def)
  have buf: "sm_buffer (esc ?s3) 1 = data[5 := 0xA3]"
  proof -
    have "ul_ecat_sm_read (esc ?s3) 1 = ul_ecat_sm_read (esc s2) 1" by (rule sm_read_cong) (simp add: status_bit_frame)
    moreover have "mem_read (esc ?s3) 0xD80 128 = mem_read (esc s2) 0xD80 128"
      by (rule mem_read_cong) (simp add: status_bit_frame)
    ultimately show ?thesis using s2(3) a3 by (simp add: sm_buffer_def Let_def)
  qed
  have full: "mbx_full (esc ?s3) 1" using s2(4) by (simp add: mbx_full_def status_bit_frame)
  have fp: "test_fprd ?s3 0x1000 0xD80 128 = Some (1, data[5 := 0xA3], ?s3\<lparr>esc := sm_clear_status_bit (esc ?s3) 1 UL_ECAT_SM_STAT_MBX_FULL\<rparr>)"
    using serve_mailbox_fetch(2) [OF conf] st fetch buf by (simp add: test_fprd_serve Let_def)
  define c' where "c' = snd (ul_ecat_slave_controller_process_ethernet echoing rx 1600)"
  have c': "ul_ecat_slave_controller_process_ethernet echoing rx 1600 = (Inr g, c')" unfolding c'_def r(2) by simp
  have "c_slave c' = ?s3" unfolding c'_def r(2)
    using s2(1) assms(2) by (simp add: run_handler_def Let_def ul_ecat_slave_controller_mailbox_reply_def)
  then have "mbx_full (esc (c_slave c')) 1 \<and> test_fprd (c_slave c') 0x1000 0xD80 128 =
      Some (1, data[5 := 0xA3], ?s3\<lparr>esc := sm_clear_status_bit (esc ?s3) 1 UL_ECAT_SM_STAT_MBX_FULL\<rparr>)"
    using full fp by simp
  then show ?thesis using r(1) c' by blast
qed

text \<open>The settings of a SyncManager read back, a vendor id read after the address is set, and an idle poll.\<close>

lemma AlFsm_SmConfigReadBackViaPdu:
  "\<exists>s raw s'. configured = Some s \<and> test_fprd s 0x1000 0x0800 8 = Some (1, raw, s') \<and> of_le16 (raw ! 0) (raw ! 1) = 0x1000 \<and>
     of_le16 (raw ! 2) (raw ! 3) = 128 \<and> raw ! 4 = 0x26 \<and> raw ! 6 = 1"
proof -
  obtain s1 s where s1: "configure_sm 0x0800 (TEST_SM0 0x80) set_up = Some s1" and s: "configure_sm 0x0808 TEST_SM1 (Some s1) = Some s"
    and b: "sm_bytes s (TEST_SM0 0x80 @ TEST_SM1)"
    and v: "shown (Some s) \<lparr>al_st = Init, al_err = False, al_status_code = 0\<rparr>
      (ul_ecat_sm_validate_mailbox_pair (mem_write (\<lambda>_. 0) 0x800 (TEST_SM0 0x80 @ TEST_SM1)))"
    by (rule configure_both)
  have c: "configured = Some s"
    using s1 s by (simp add: configured_def configure_mailbox_sm_def TEST_SM0_def TEST_SM1_def)
  have "serve1 s (read_dgram 0x1000 0x800 8) =
      ((read_dgram 0x1000 0x800 8)\<lparr>d_wkc := 1, d_data := mem_read (esc s) 0x800 8\<rparr>, ul_ecat_slave_mailbox_on_sm1_read s 0x800 8)"
    using read_reaches_slave [of s "0x1000" 8 "0x800"] v by (simp add: shown_def)
  then have r: "test_fprd s 0x1000 0x0800 8 = Some (1, mem_read (esc s) 0x800 8, ul_ecat_slave_mailbox_on_sm1_read s 0x800 8)"
    by (simp add: test_fprd_serve Let_def)
  have byte: "mem_read (esc s) 0x800 8 ! k = TEST_SM0 0x80 ! k" if "k < 8" "k \<noteq> 5" for k
  proof -
    have "0x800 + k \<in> {0x800 ..< 0x810} - {0x805}" using that by auto
    then have "esc s (0x800 + k) = (TEST_SM0 0x80 @ TEST_SM1) ! (0x800 + k - 0x800)" using b by (simp only: sm_bytes_def)
    moreover have "length (TEST_SM0 0x80) = 8" by (simp add: TEST_SM0_def)
    ultimately show ?thesis using that(1) by (simp add: nth_mem_read nth_append)
  qed
  let ?raw = "mem_read (esc s) 0x800 8"
  have "of_le16 (?raw ! 0) (?raw ! 1) = 0x1000 \<and> of_le16 (?raw ! 2) (?raw ! 3) = 128 \<and> ?raw ! 4 = 0x26 \<and> ?raw ! 6 = 1"
    using byte [of 0] byte [of 1] byte [of 2] byte [of 3] byte [of 4] byte [of 6] by (simp add: TEST_SM0_def of_le16_def)
  then show ?thesis using c r by blast
qed

lemma SlaveIdentity_FprdVendorAfterApwrStation:
  "\<exists>s s'. assign_station 0x1000 (ul_ecat_slave_init mc ident) = Some s \<and>
     test_fprd s 0x1000 0x0012 4 = Some (1, le32 (vendor_id ident), s')"
proof -
  let ?s = "assigned mc ident"
  have "mem_read (esc ?s) 0x12 4 = le32 (vendor_id ident)"
    by (rule nth_equalityI)
       (auto simp: nth_mem_read assigned_def Let_def ul_ecat_slave_init_def ul_ecat_esc_set_al_status_init_def
         ul_ecat_esc_apply_identity_def mem_write_apply)
  moreover have "serve1 ?s (read_dgram 0x1000 0x12 4) =
      ((read_dgram 0x1000 0x12 4)\<lparr>d_wkc := 1, d_data := mem_read (esc ?s) 0x12 4\<rparr>, ul_ecat_slave_mailbox_on_sm1_read ?s 0x12 4)"
    using read_reaches_slave [of ?s "0x1000" 4 "0x12"] assigned_facts(1) [of mc ident] by simp
  ultimately show ?thesis by (simp add: assign_fresh test_fprd_serve Let_def)
qed

lemma SlaveController_SoftwareInitAndPoll:
  "ul_ecat_slave_controller_poll hal (ul_ecat_slave_controller_init coe0 u SOFTWARE_ETHERNET mc ident, h) =
     (Inr (), ul_ecat_slave_controller_init coe0 u SOFTWARE_ETHERNET mc ident, h)"
  by (simp add: ul_ecat_slave_controller_poll_def ul_ecat_slave_controller_init_def poll_software_def report_changes_def Let_def)

end
