(* ===== verification/ChipTests.thy ===== *)
theory ChipTests
  imports Lan9252Chip
begin

text \<open>
  The unit tests of the LAN9252 backend (\<open>src/tests/test_slave_controller_mock.cpp\<close>) as lemmas of
  the same names. There the controller is linked with the double of driver and chip; here it runs
  the driver on any chip that the seeded double stands for (\<open>stands_for\<close>).
\<close>

section \<open>The fixture\<close>

definition seed_mock_esc_registers :: "u16 \<Rightarrow> u16 \<Rightarrow> u32 \<Rightarrow> mock \<Rightarrow> mock" where
  "seed_mock_esc_registers stadr alstat alevent m =
     m\<lparr>g_esc_core := mem_write (mem_write (mem_write (g_esc_core m) 0x0010 (le16 stadr)) 0x0130 (le16 alstat)) 0x0220 (le32 alevent)\<rparr>"

definition chip_controller :: "coe \<Rightarrow> 'u \<Rightarrow> bytes \<Rightarrow> slave_identity \<Rightarrow> 'u controller" where
  "chip_controller coe0 u mc ident = ul_ecat_slave_controller_init coe0 u LAN9252_SPI mc ident"

lemma chip_controller_sel [simp]:
  "c_backend (chip_controller coe0 u mc ident) = LAN9252_SPI" "pdram (chip_controller coe0 u mc ident) = pdram_none"
  "calls (chip_controller coe0 u mc ident) = []"
  "last_al_status (chip_controller coe0 u mc ident) = 1" "last_al_event (chip_controller coe0 u mc ident) = 0"
  by (simp_all add: chip_controller_def ul_ecat_slave_controller_init_def Let_def)
     (simp_all add: ul_ecat_slave_init_def read_u16_reg al_event_word_def ul_ecat_esc_read_def mem_read_def
        ul_ecat_esc_set_al_status_init_def ul_ecat_esc_apply_identity_def mem_write_apply of_le16_def of_le32_def Let_def)

text \<open>A poll of the chip that a seeded double stands for, up to the process data.\<close>

lemma seeded_poll:
  assumes "stands_for (seed_mock_esc_registers stadr alstat alevent m) w" "c_backend c = LAN9252_SPI"
  obtains s' w' where
    "ul_ecat_slave_controller_poll device_hal (c, w) =
       and_then (sync_pdram_in device_hal (c\<lparr>c_slave := s'\<rparr>, w')) (\<lambda>ch. and_then (sync_pdram_out device_hal ch) (\<lambda>(c, h).
         (Inr (), report_changes c (ul_ecat_esc_read_u16_le (esc (c_slave c)) 0x0130) (al_event_word (esc (c_slave c)) 0), h)))"
    "dev_mem w' = dev_mem w" "at_rest w'" "ul_ecat_esc_read_u16_le (esc s') 0x0010 = stadr"
    "ul_ecat_esc_read_u16_le (esc s') 0x0130 = alstat" "al_event_word (esc s') 0 = alevent"
proof -
  have good: "at_rest w" using assms(1) by (simp add: stands_for_def)
  obtain s' w' where r: "ul_ecat_slave_controller_poll device_hal (c, w) =
       and_then (sync_pdram_in device_hal (c\<lparr>c_slave := s'\<rparr>, w')) (\<lambda>ch. and_then (sync_pdram_out device_hal ch) (\<lambda>(c, h).
         (Inr (), report_changes c (ul_ecat_esc_read_u16_le (esc (c_slave c)) 0x0130) (al_event_word (esc (c_slave c)) 0), h)))"
    and w: "dev_mem w' = dev_mem w" "at_rest w'"
    and e: "\<forall>j. esc s' j = (if j \<in> polled then dev_mem w j else esc (c_slave c) j)"
    by (rule registers_synced [OF dev.csr good assms(2)])
  have m: "dev_mem w j = g_esc_core (seed_mock_esc_registers stadr alstat alevent m) j" if "j < 0x1000" for j
    using assms(1) that by (simp add: stands_for_def)
  note seeded = polled_words [OF e] m seed_mock_esc_registers_def mem_write_apply
  show ?thesis
  proof (rule that [OF r w])
    show "ul_ecat_esc_read_u16_le (esc s') 0x0010 = stadr" "ul_ecat_esc_read_u16_le (esc s') 0x0130 = alstat"
      using of_le16_le16 [of stadr] of_le16_le16 [of alstat] by (simp_all add: seeded)
    show "al_event_word (esc s') 0 = alevent" using of_le32_le32 [of alevent] by (simp add: seeded)
  qed
qed

section \<open>The tests\<close>

lemma quiet_poll:
  assumes "stands_for (seed_mock_esc_registers stadr alstat alevent m) w" "c_backend c = LAN9252_SPI" "pdram c = pdram_none"
  obtains s' w' where "ul_ecat_slave_controller_poll device_hal (c, w) = (Inr (), report_changes (c\<lparr>c_slave := s'\<rparr>) alstat alevent, w')"
    "ul_ecat_esc_read_u16_le (esc s') 0x0010 = stadr" "ul_ecat_esc_read_u16_le (esc s') 0x0130 = alstat"
    "al_event_word (esc s') 0 = alevent"
  using seeded_poll [OF assms(1,2)] assms(3)
  by (simp add: and_then_def sync_pdram_in_def sync_pdram_out_def pdram_none_def) blast

lemma Lan9252ControllerMock_PollCopiesEscRegistersIntoMirror:
  assumes "stands_for (seed_mock_esc_registers 0x1001 0x0200 0xCAFEBABE (lan9252_mock_reset m)) w"
  shows "\<exists>c' w'. ul_ecat_slave_controller_poll device_hal (chip_controller coe0 u mc ident, w) = (Inr (), c', w') \<and>
    ul_ecat_esc_read_u16_le (esc (c_slave c')) 0x0010 = 0x1001 \<and> ul_ecat_esc_read_u16_le (esc (c_slave c')) 0x0130 = 0x0200 \<and>
    al_event_word (esc (c_slave c')) 0 = 0xCAFEBABE"
  by (rule quiet_poll [OF assms, of "chip_controller coe0 u mc ident"]) (simp_all add: report_changes_def Let_def)

lemma Lan9252ControllerMock_SimulatedChipEscWriteThenPollSyncsMirror:
  assumes "stands_for (seed_mock_esc_registers 0x00AB 0x0008 0x00010203 (lan9252_mock_reset m)) w"
  shows "\<exists>c' w'. ul_ecat_slave_controller_poll device_hal (chip_controller coe0 u mc ident, w) = (Inr (), c', w') \<and>
    ul_ecat_esc_read_u16_le (esc (c_slave c')) 0x0010 = 0x00AB \<and> ul_ecat_esc_read_u16_le (esc (c_slave c')) 0x0130 = 0x0008"
  by (rule quiet_poll [OF assms, of "chip_controller coe0 u mc ident"]) (simp_all add: report_changes_def Let_def)

lemma Lan9252ControllerMock_PdramInCopiesFromMockToBuffers:
  assumes "stands_for (seed_mock_esc_registers 0 1 0
      ((lan9252_mock_reset m)\<lparr>g_pdram := mem_write (\<lambda>_. 0) 0 ([0x11, 0x22, 0x33, 0x44] @ replicate 28 0xEE)\<rparr>)) w"
  shows "\<exists>c' w'. ul_ecat_slave_controller_poll device_hal
      (ul_ecat_slave_controller_set_pdram (chip_controller coe0 u mc ident)
         (Some (pdram_none\<lparr>in_offset := 0x1000, in_len := 4, in_buf := Some (replicate 8 0)\<rparr>)), w) = (Inr (), c', w') \<and>
    in_buf (pdram c') = Some [0x11, 0x22, 0x33, 0x44]"
proof -
  let ?c = "ul_ecat_slave_controller_set_pdram (chip_controller coe0 u mc ident)
    (Some (pdram_none\<lparr>in_offset := 0x1000, in_len := 4, in_buf := Some (replicate 8 0)\<rparr>))"
  have c: "c_backend ?c = LAN9252_SPI" "pdram ?c = pdram_none\<lparr>in_offset := 0x1000, in_len := 4, in_buf := Some (replicate 8 0)\<rparr>"
    by (simp_all add: ul_ecat_slave_controller_set_pdram_def)
  obtain s' w' where r: "ul_ecat_slave_controller_poll device_hal (?c, w) =
       and_then (sync_pdram_in device_hal (?c\<lparr>c_slave := s'\<rparr>, w')) (\<lambda>ch. and_then (sync_pdram_out device_hal ch) (\<lambda>(c, h).
         (Inr (), report_changes c (ul_ecat_esc_read_u16_le (esc (c_slave c)) 0x0130) (al_event_word (esc (c_slave c)) 0), h)))"
    and w': "dev_mem w' = dev_mem w" "at_rest w'"
    by (rule seeded_poll [OF assms c(1)])
  obtain w2 where i: "lan9252_pdram_read device_hal 0x1000 4 w' = (Inr (mem_read (dev_mem w) 0x1000 4), w2)"
    using dev.ram_read [OF w'(2), of 4 "0x1000"] w'(1) by (auto simp: in_ram_def)
  have m: "mem_read (dev_mem w) 0x1000 4 = [0x11, 0x22, 0x33, 0x44]"
    using stands_read(2) [OF assms, of "0x1000" 4] by (simp add: seed_mock_esc_registers_def mem_write_apply mem_read_def upt_rec)
  show ?thesis
    unfolding r by (simp add: ul_ecat_slave_controller_set_pdram_def i m and_then_def sync_pdram_in_def sync_pdram_out_def pdram_none_def report_changes_def Let_def)
qed

lemma Lan9252ControllerMock_PdramOutWritesMockFromBuffers:
  assumes "stands_for (seed_mock_esc_registers 0 1 0 (lan9252_mock_reset m)) w"
  shows "\<exists>c' w'. ul_ecat_slave_controller_poll device_hal
      (ul_ecat_slave_controller_set_pdram (chip_controller coe0 u mc ident)
         (Some (pdram_none\<lparr>out_offset := 0x1100, out_len := 4, out_buf := Some [0xDE, 0xAD, 0xBE, 0xEF]\<rparr>)), w) = (Inr (), c', w') \<and>
    mem_read (dev_mem w') 0x1100 4 = [0xDE, 0xAD, 0xBE, 0xEF]"
proof -
  let ?c = "ul_ecat_slave_controller_set_pdram (chip_controller coe0 u mc ident)
    (Some (pdram_none\<lparr>out_offset := 0x1100, out_len := 4, out_buf := Some [0xDE, 0xAD, 0xBE, 0xEF]\<rparr>))"
  have c: "c_backend ?c = LAN9252_SPI" "pdram ?c = pdram_none\<lparr>out_offset := 0x1100, out_len := 4, out_buf := Some [0xDE, 0xAD, 0xBE, 0xEF]\<rparr>"
    by (simp_all add: ul_ecat_slave_controller_set_pdram_def)
  obtain s' w' where r: "ul_ecat_slave_controller_poll device_hal (?c, w) =
       and_then (sync_pdram_in device_hal (?c\<lparr>c_slave := s'\<rparr>, w')) (\<lambda>ch. and_then (sync_pdram_out device_hal ch) (\<lambda>(c, h).
         (Inr (), report_changes c (ul_ecat_esc_read_u16_le (esc (c_slave c)) 0x0130) (al_event_word (esc (c_slave c)) 0), h)))"
    and w': "dev_mem w' = dev_mem w" "at_rest w'"
    by (rule seeded_poll [OF assms c(1)])
  obtain w2 where o: "lan9252_pdram_write device_hal 0x1100 [0xDE, 0xAD, 0xBE, 0xEF] 4 w' = (Inr (), w2)"
    "dev_mem w2 = mem_write (dev_mem w) 0x1100 [0xDE, 0xAD, 0xBE, 0xEF]"
    using dev.ram_write [OF w'(2), of 4 "0x1100" "[0xDE, 0xAD, 0xBE, 0xEF]"] w'(1) by (auto simp: in_ram_def)
  have "mem_read (dev_mem w2) 0x1100 4 = [0xDE, 0xAD, 0xBE, 0xEF]" by (simp add: o(2) mem_read_def mem_write_apply upt_rec)
  then show ?thesis unfolding r
    by (simp add: ul_ecat_slave_controller_set_pdram_def o(1) and_then_def sync_pdram_in_def sync_pdram_out_def pdram_none_def)
qed

lemma Lan9252ControllerMock_CallbacksFireWhenMockRegistersChange:
  assumes "stands_for (seed_mock_esc_registers 0 1 0 (lan9252_mock_reset m)) w"
    and "stands_for (seed_mock_esc_registers 0 3 0x40 (lan9252_mock_reset m)) v"
  shows "\<exists>c1 w' c2 v'.
    ul_ecat_slave_controller_poll device_hal
      (ul_ecat_slave_controller_set_callbacks (chip_controller coe0 u mc ident) True True, w) = (Inr (), c1, w') \<and> calls c1 = [] \<and>
    ul_ecat_slave_controller_poll device_hal (c1, v) = (Inr (), c2, v') \<and> calls c2 = [AlStatus 3, EscEvent 0x40]"
proof -
  let ?c = "ul_ecat_slave_controller_set_callbacks (chip_controller coe0 u mc ident) True True"
  have c: "c_backend ?c = LAN9252_SPI" "pdram ?c = pdram_none" by (simp_all add: ul_ecat_slave_controller_set_callbacks_def)
  obtain s1 w' where 1: "ul_ecat_slave_controller_poll device_hal (?c, w) = (Inr (), report_changes (?c\<lparr>c_slave := s1\<rparr>) 1 0, w')"
    by (rule quiet_poll [OF assms(1) c])
  let ?c1 = "report_changes (?c\<lparr>c_slave := s1\<rparr>) 1 0"
  have c1: "c_backend ?c1 = LAN9252_SPI" "pdram ?c1 = pdram_none" using c by (simp_all add: report_changes_def Let_def)
  obtain s2 v' where 2: "ul_ecat_slave_controller_poll device_hal (?c1, v) = (Inr (), report_changes (?c1\<lparr>c_slave := s2\<rparr>) 3 0x40, v')"
    by (rule quiet_poll [OF assms(2) c1])
  show ?thesis
    by (intro exI conjI, rule 1, simp add: report_changes_def ul_ecat_slave_controller_set_callbacks_def Let_def, rule 2)
       (simp add: report_changes_def ul_ecat_slave_controller_set_callbacks_def Let_def)
qed

end
